theory Spec2Isabelle
  imports Complex_Main "HOL-Library.Word"
begin

section \<open>Single-precision arithmetic used by the crop computation\<close>

text \<open>
  \<^verbatim>\<open>ImageFeatureValue::CenterAndCropBounds\<close> computes in C++ \<^verbatim>\<open>float\<close>. Every operand
  there starts from a \<^verbatim>\<open>uint32_t\<close>, so only non-negative values, \<open>+\<infinity>\<close> and NaN can occur.
  A finite value is kept as the rational number it denotes. Each operation rounds its exact
  result to IEEE-754 binary32 (24 significant bits, exponents from \<open>-126\<close>, ties to even,
  overflow to infinity), one rounding per operation, as SSE2 code evaluates \<^verbatim>\<open>float\<close>
  expressions.
\<close>

function log2_floor :: "nat \<Rightarrow> nat" where
  "log2_floor n = (if n < 2 then 0 else Suc (log2_floor (n div 2)))"
  by pat_completeness auto
termination
  by (relation "measure id") auto

declare log2_floor.simps [simp del]

definition log2_ceil :: "nat \<Rightarrow> nat" where
  "log2_ceil n = (if n \<le> 1 then 0 else Suc (log2_floor (n - 1)))"

text \<open>The binary exponent of a positive rational: \<open>2 ^ ilog2 x \<le> x < 2 ^ (ilog2 x + 1)\<close>.\<close>

definition ilog2 :: "rat \<Rightarrow> int" where
  "ilog2 x = (if 1 \<le> x then int (log2_floor (nat \<lfloor>x\<rfloor>))
              else - int (log2_ceil (nat \<lceil>1 / x\<rceil>)))"

definition round_half_even :: "rat \<Rightarrow> int" where
  "round_half_even m =
     (let f = \<lfloor>m\<rfloor>; d = m - of_int f
      in if d < 1 / 2 then f
         else if 1 / 2 < d then f + 1
         else if even f then f else f + 1)"

datatype f32 = Finite rat | Infinity | NaN

definition f32_round :: "rat \<Rightarrow> f32" where
  "f32_round x =
     (if x = 0 then Finite 0
      else let e = max (ilog2 x) (- 126);
               ulp = 2 powi (e - 23);
               y = of_int (round_half_even (x / ulp)) * ulp
           in if 2 ^ 128 \<le> y then Infinity else Finite y)"

type_synonym u32 = "32 word"

text \<open>\<^verbatim>\<open>static_cast<float>(uint32_t)\<close>, also the implicit conversion of a \<^verbatim>\<open>uint32_t\<close> operand.\<close>

definition f32_of_u32 :: "u32 \<Rightarrow> f32" where
  "f32_of_u32 w = f32_round (of_nat (unat w))"

fun f32_div :: "f32 \<Rightarrow> f32 \<Rightarrow> f32" where
  "f32_div NaN _ = NaN"
| "f32_div _ NaN = NaN"
| "f32_div Infinity Infinity = NaN"
| "f32_div Infinity (Finite y) = Infinity"
| "f32_div (Finite x) Infinity = Finite 0"
| "f32_div (Finite x) (Finite y) =
     (if y = 0 then (if x = 0 then NaN else Infinity) else f32_round (x / y))"

fun f32_mul :: "f32 \<Rightarrow> f32 \<Rightarrow> f32" where
  "f32_mul NaN _ = NaN"
| "f32_mul _ NaN = NaN"
| "f32_mul Infinity Infinity = Infinity"
| "f32_mul Infinity (Finite y) = (if y = 0 then NaN else Infinity)"
| "f32_mul (Finite x) Infinity = (if x = 0 then NaN else Infinity)"
| "f32_mul (Finite x) (Finite y) = f32_round (x * y)"

fun f32_add :: "f32 \<Rightarrow> f32 \<Rightarrow> f32" where
  "f32_add NaN _ = NaN"
| "f32_add _ NaN = NaN"
| "f32_add Infinity _ = Infinity"
| "f32_add _ Infinity = Infinity"
| "f32_add (Finite x) (Finite y) = f32_round (x + y)"

text \<open>The comparison \<^verbatim>\<open><\<close>: false whenever an operand is NaN.\<close>

fun f32_less :: "f32 \<Rightarrow> f32 \<Rightarrow> bool" where
  "f32_less (Finite x) (Finite y) = (x < y)"
| "f32_less (Finite x) Infinity = True"
| "f32_less _ _ = False"

text \<open>
  The cast \<^verbatim>\<open>(UINT)f\<close> truncates. C++ leaves it undefined when the truncated value does not
  fit 32 bits (also for infinity and NaN): \<open>None\<close>.
\<close>

fun uint_of_f32 :: "f32 \<Rightarrow> u32 option" where
  "uint_of_f32 (Finite x) = (if x < 2 ^ 32 then Some (word_of_int \<lfloor>x\<rfloor>) else None)"
| "uint_of_f32 _ = None"

section \<open>Data model\<close>

text \<open>
  Thrown \<^verbatim>\<open>HRESULT\<close>s. The two \<^verbatim>\<open>WINML_ERR_\<close> codes are defined in a header outside this
  file; they are taken to differ from each other and from the system codes.
\<close>

datatype hresult =
    S_OK
  | E_INVALIDARG
  | E_NOTIMPL
  | E_NOINTERFACE
  | TYPE_E_TYPEMISMATCH
  | WINML_ERR_INVALID_BINDING
  | WINML_ERR_SIZE_MISMATCH
  | ExternalFailure

text \<open>
  What leaves a function other than by \<^verbatim>\<open>return\<close>: a thrown \<^verbatim>\<open>HRESULT\<close>, the
  \<^verbatim>\<open>std::bad_optional_access\<close> of \<^verbatim>\<open>optional::value()\<close>, and the behaviours C++ leaves
  undefined (a \<^verbatim>\<open>std::vector\<close> read past its end, a \<^verbatim>\<open>float\<close> cast that does not fit,
  signed overflow, division by zero).
\<close>

datatype failure =
    Hr hresult
  | BadOptionalAccess
  | VectorOutOfRange
  | FloatCastOutOfRange
  | SignedOverflow
  | DivideByZero

record BitmapBounds =
  X :: u32
  Y :: u32
  Width :: u32
  Height :: u32

text \<open>\<^verbatim>\<open>Windows::Graphics::Imaging::BitmapPixelFormat\<close>, by the value of the enumerator.\<close>

type_synonym BitmapPixelFormat = int

definition Rgba8 :: BitmapPixelFormat where "Rgba8 = 30"
definition Gray8 :: BitmapPixelFormat where "Gray8 = 62"
definition Bgra8 :: BitmapPixelFormat where "Bgra8 = 87"

datatype TensorKind =
    Undefined | Float | UInt8 | Int8 | UInt16 | Int16 | Int32 | Int64 | String | Boolean
  | Float16 | Double | UInt32 | UInt64 | Complex64 | Complex128

datatype ImageTensorDataType = kImageTensorDataTypeFloat32 | kImageTensorDataTypeFloat16

datatype ImageTensorChannelType =
    kImageTensorChannelTypeRGB8 | kImageTensorChannelTypeBGR8 | kImageTensorChannelTypeGRAY8

text \<open>\<^verbatim>\<open>sizes\<close> is an array of four \<^verbatim>\<open>int64_t\<close>, in NCHW order.\<close>

record ImageTensorDescription =
  dataType :: ImageTensorDataType
  channelType :: ImageTensorChannelType
  sizes :: "int list"

record ImageResourceMetadata =
  Bounds :: "BitmapBounds list"
  TensorDescriptor :: ImageTensorDescription

record ImageFeatureDescriptor =
  image_Width :: u32
  image_Height :: u32
  image_TensorKind :: TensorKind
  image_BitmapPixelFormat :: BitmapPixelFormat

text \<open>The shape is a vector of \<^verbatim>\<open>int64_t\<close>.\<close>

record TensorFeatureDescriptor =
  tensor_Shape :: "int list"
  tensor_TensorKind :: TensorKind

text \<open>
  \<^verbatim>\<open>context.descriptor\<close>, by what \<^verbatim>\<open>try_as\<close> finds in it: an image descriptor, a tensor
  descriptor, or neither.
\<close>

datatype descriptor =
    AsImageFeatureDescriptor ImageFeatureDescriptor
  | AsTensorFeatureDescriptor TensorFeatureDescriptor
  | NeitherDescriptor

text \<open>
  A value of the property set: an \<^verbatim>\<open>IPropertyValue\<close> holding an \<^verbatim>\<open>Int32\<close>, one holding a
  \<^verbatim>\<open>UInt32Array\<close>, one of any other type, or an object that is no \<^verbatim>\<open>IPropertyValue\<close>.
  The set itself may be \<^verbatim>\<open>nullptr\<close> (\<open>None\<close>), and a key may hold a null reference.
\<close>

datatype property_value =
    Int32Value int
  | UInt32ArrayValue "u32 list"
  | OtherValue
  | NotAPropertyValue

type_synonym IPropertySet = "(string \<rightharpoonup> property_value option) option"

datatype BindingType = kInput | kOutput

text \<open>\<^verbatim>\<open>MAXUINT32\<close>, the image descriptor's mark of a free dimension.\<close>

definition MAXUINT32 :: u32 where
  "MAXUINT32 = 0xFFFFFFFF"

section \<open>The image feature value\<close>

text \<open>
  A video frame is known here by its pixel width and height only. \<^verbatim>\<open>Initialize\<close> reads
  them once, from the surface description or from the software bitmap.
\<close>

type_synonym VideoFrame = "u32 \<times> u32"

record ImageFeatureValue =
  m_videoFrames :: "VideoFrame list"
  m_batchSize :: nat
  m_widths :: "u32 list"
  m_heights :: "u32 list"
  m_tensorAllocators :: "nat list"
  m_adapter :: bool

definition Initialize :: "VideoFrame list \<Rightarrow> ImageFeatureValue" where
  "Initialize frames =
     \<lparr> m_videoFrames = frames,
       m_batchSize = length frames,
       m_widths = map fst frames,
       m_heights = map snd frames,
       m_tensorAllocators = [],
       m_adapter = False \<rparr>"

text \<open>\<^verbatim>\<open>operator[]\<close> of \<^verbatim>\<open>std::vector\<close>: unchecked, undefined past the end.\<close>

definition vector_at :: "'a list \<Rightarrow> nat \<Rightarrow> failure + 'a" where
  "vector_at xs i = (if i < length xs then Inr (xs ! i) else Inl VectorOutOfRange)"

subsection \<open>Overrides from the property set\<close>

text \<open>
  Reading a property fails inside the platform when the object is no \<^verbatim>\<open>IPropertyValue\<close>
  (\<^verbatim>\<open>as\<close> throws \<^verbatim>\<open>E_NOINTERFACE\<close>) or when \<^verbatim>\<open>GetInt32\<close> meets a value of another type
  (taken as \<^verbatim>\<open>TYPE_E_TYPEMISMATCH\<close>); the checks of this file throw
  \<^verbatim>\<open>WINML_ERR_INVALID_BINDING\<close>.
\<close>

definition GetBitmapPixelFormatFromMetadata :: "IPropertySet \<Rightarrow> failure + BitmapPixelFormat option" where
  "GetBitmapPixelFormatFromMetadata properties =
     (case properties of
        None \<Rightarrow> Inr None
      | Some m \<Rightarrow>
          (case m ''BitmapPixelFormat'' of
             None \<Rightarrow> Inr None
           | Some None \<Rightarrow> Inr None
           | Some (Some NotAPropertyValue) \<Rightarrow> Inl (Hr E_NOINTERFACE)
           | Some (Some (Int32Value pixelFormat)) \<Rightarrow>
               if pixelFormat = Rgba8 \<or> pixelFormat = Bgra8 \<or> pixelFormat = Gray8
               then Inr (Some pixelFormat)
               else Inl (Hr WINML_ERR_INVALID_BINDING)
           | Some (Some _) \<Rightarrow> Inl (Hr TYPE_E_TYPEMISMATCH)))"

definition GetBoundsFromMetadata :: "IPropertySet \<Rightarrow> failure + BitmapBounds option" where
  "GetBoundsFromMetadata properties =
     (case properties of
        None \<Rightarrow> Inr None
      | Some m \<Rightarrow>
          (case m ''BitmapBounds'' of
             None \<Rightarrow> Inr None
           | Some None \<Rightarrow> Inr None
           | Some (Some NotAPropertyValue) \<Rightarrow> Inl (Hr E_NOINTERFACE)
           | Some (Some (UInt32ArrayValue bounds)) \<Rightarrow>
               if length bounds = 4
               then Inr (Some \<lparr> X = bounds ! 0, Y = bounds ! 1, Width = bounds ! 2, Height = bounds ! 3 \<rparr>)
               else Inl (Hr WINML_ERR_INVALID_BINDING)
           | Some (Some _) \<Rightarrow> Inl (Hr WINML_ERR_INVALID_BINDING)))"

subsection \<open>The center crop\<close>

text \<open>
  The body of \<^verbatim>\<open>CenterAndCropBounds\<close> once \<^verbatim>\<open>m_widths[idx]\<close> and \<^verbatim>\<open>m_heights[idx]\<close> are
  read: the frame is \<open>w\<close> by \<open>h\<close>. \<^verbatim>\<open>std::min\<close>, the subtraction and the halving are
  \<^verbatim>\<open>uint32_t\<close> operations.
\<close>

definition center_crop :: "u32 \<Rightarrow> u32 \<Rightarrow> u32 \<Rightarrow> u32 \<Rightarrow> failure + BitmapBounds" where
  "center_crop w h desiredWidth desiredHeight =
     (let RequiredAspectRatio = f32_div (f32_of_u32 desiredWidth) (f32_of_u32 desiredHeight);
          cropped =
            (if f32_less (f32_mul RequiredAspectRatio (f32_of_u32 h)) (f32_of_u32 w)
             then map_option
                    (\<lambda>c. \<lparr> X = (w - min c w) div 2, Y = 0, Width = min c w, Height = h \<rparr>)
                    (uint_of_f32 (f32_add (f32_mul RequiredAspectRatio (f32_of_u32 h)) (Finite (1 / 2))))
             else map_option
                    (\<lambda>c. \<lparr> X = 0, Y = (h - min c h) div 2, Width = w, Height = min c h \<rparr>)
                    (uint_of_f32 (f32_add (f32_div (f32_of_u32 w) RequiredAspectRatio) (Finite (1 / 2)))))
      in case cropped of
           None \<Rightarrow> Inl FloatCastOutOfRange
         | Some bounds \<Rightarrow>
             if (0 \<le> X bounds \<and> X bounds \<le> w) \<and> (0 \<le> Y bounds \<and> Y bounds \<le> h)
             then Inr bounds
             else Inl (Hr WINML_ERR_INVALID_BINDING))"

definition CenterAndCropBounds :: "ImageFeatureValue \<Rightarrow> nat \<Rightarrow> u32 \<Rightarrow> u32 \<Rightarrow> failure + BitmapBounds" where
  "CenterAndCropBounds this idx desiredWidth desiredHeight =
     (case vector_at (m_heights this) idx of
        Inl e \<Rightarrow> Inl e
      | Inr h \<Rightarrow>
          (case vector_at (m_widths this) idx of
             Inl e \<Rightarrow> Inl e
           | Inr w \<Rightarrow> center_crop w h desiredWidth desiredHeight))"

text \<open>
  The algorithm as the specification words it, on exact rationals: \<open>r\<close> is the target's
  aspect ratio, the scaled side is rounded half up and clamped to the frame, the offset is
  halved rounding down. The result is \<open>(x, y, width, height)\<close>.
\<close>

definition round_half_up :: "rat \<Rightarrow> nat" where
  "round_half_up q = nat \<lfloor>q + 1 / 2\<rfloor>"

definition spec_center_crop :: "nat \<Rightarrow> nat \<Rightarrow> nat \<Rightarrow> nat \<Rightarrow> nat \<times> nat \<times> nat \<times> nat" where
  "spec_center_crop frame_width frame_height target_width target_height =
     (let r = of_nat target_width / of_nat target_height :: rat
      in if r * of_nat frame_height < of_nat frame_width
         then let crop_width = min (round_half_up (r * of_nat frame_height)) frame_width
              in ((frame_width - crop_width) div 2, 0, crop_width, frame_height)
         else let crop_height = min (round_half_up (of_nat frame_width / r)) frame_height
              in (0, (frame_height - crop_height) div 2, frame_width, crop_height))"

subsection \<open>The tensor description\<close>

definition GetTensorDataTypeFromTensorKind :: "TensorKind \<Rightarrow> failure + ImageTensorDataType" where
  "GetTensorDataTypeFromTensorKind kind =
     (case kind of
        Float \<Rightarrow> Inr kImageTensorDataTypeFloat32
      | Float16 \<Rightarrow> Inr kImageTensorDataTypeFloat16
      | _ \<Rightarrow> Inl (Hr WINML_ERR_INVALID_BINDING))"

definition GetSizeFromTensorDataType :: "ImageTensorDataType \<Rightarrow> int" where
  "GetSizeFromTensorDataType t =
     (case t of kImageTensorDataTypeFloat32 \<Rightarrow> 4 | kImageTensorDataTypeFloat16 \<Rightarrow> 2)"

definition CreateImageTensorDescriptor ::
  "TensorKind \<Rightarrow> BitmapPixelFormat \<Rightarrow> nat \<Rightarrow> u32 \<Rightarrow> u32 \<Rightarrow> failure + ImageTensorDescription" where
  "CreateImageTensorDescriptor tensorKind pixelFormat batchSize width height =
     (case GetTensorDataTypeFromTensorKind tensorKind of
        Inl e \<Rightarrow> Inl e
      | Inr dt \<Rightarrow>
          if pixelFormat = Rgba8 then
            Inr \<lparr> dataType = dt, channelType = kImageTensorChannelTypeRGB8,
                  sizes = [int batchSize, 3, uint height, uint width] \<rparr>
          else if pixelFormat = Bgra8 then
            Inr \<lparr> dataType = dt, channelType = kImageTensorChannelTypeBGR8,
                  sizes = [int batchSize, 3, uint height, uint width] \<rparr>
          else if pixelFormat = Gray8 then
            Inr \<lparr> dataType = dt, channelType = kImageTensorChannelTypeGRAY8,
                  sizes = [int batchSize, 1, uint height, uint width] \<rparr>
          else Inl (Hr E_NOTIMPL))"

section \<open>Metadata resolution\<close>

text \<open>
  The binding context: direction, the model's descriptor, the caller's property set, and
  the converter wrapper parked on it (by the identity of the pooled converter it wraps).
\<close>

datatype store_kind = Tensorizer | Detensorizer

text \<open>
  The key of a pooled converter. \<^verbatim>\<open>luid\<close> is \<open>0\<close> for a converter on the CPU and the
  adapter's identifier for one on the GPU.
\<close>

record ConverterResourceDescription =
  pixel_format :: nat
  width :: int
  height :: int
  luid :: nat

text \<open>A pooled converter: the store it belongs to, its key, and its identity in that store.\<close>

type_synonym converter = "store_kind \<times> ConverterResourceDescription \<times> nat"

record BindingContext =
  binding_type :: BindingType
  descriptor :: descriptor
  properties :: IPropertySet
  converter :: "converter option"

text \<open>
  \<^verbatim>\<open>std::adjacent_find(first, last, std::not_equal_to<uint32_t>())\<close>: the position of the
  first element that differs from its successor, \<open>None\<close> for \<^verbatim>\<open>last\<close>.
\<close>

fun adjacent_find_not_equal :: "'a list \<Rightarrow> nat option" where
  "adjacent_find_not_equal (x # y # xs) =
     (if x \<noteq> y then Some 0 else map_option Suc (adjacent_find_not_equal (y # xs)))"
| "adjacent_find_not_equal _ = None"

text \<open>
  ``Set up descriptorWidth and descriptorHeight'': the resolved width, height and tensor
  kind, \<open>Inr None\<close> where the function returns the empty optional, \<open>Inl\<close> where it throws.
\<close>

definition GetInputMetadata_descriptor ::
  "ImageFeatureValue \<Rightarrow> descriptor \<Rightarrow> failure + (u32 \<times> u32 \<times> TensorKind) option" where
  "GetInputMetadata_descriptor this d =
     (case d of
        AsImageFeatureDescriptor spImageDescriptor \<Rightarrow>
          if image_Width spImageDescriptor = MAXUINT32
             \<and> \<not> (adjacent_find_not_equal (m_widths this) = None)
          then Inl (Hr E_INVALIDARG)
          else if image_Height spImageDescriptor = MAXUINT32
             \<and> \<not> (adjacent_find_not_equal (m_heights this) = None)
          then Inl (Hr E_INVALIDARG)
          else
            (case (if image_Width spImageDescriptor = MAXUINT32 then vector_at (m_widths this) 0
                   else Inr (image_Width spImageDescriptor)) of
               Inl e \<Rightarrow> Inl e
             | Inr descriptorWidth \<Rightarrow>
                 (case (if image_Height spImageDescriptor = MAXUINT32 then vector_at (m_heights this) 0
                        else Inr (image_Height spImageDescriptor)) of
                    Inl e \<Rightarrow> Inl e
                  | Inr descriptorHeight \<Rightarrow>
                      Inr (Some (descriptorWidth, descriptorHeight, image_TensorKind spImageDescriptor))))
      | AsTensorFeatureDescriptor spTensorDescriptor \<Rightarrow>
          (let shape = tensor_Shape spTensorDescriptor in
           if length shape \<noteq> 4 then Inr None
           else if \<not> (shape ! 1 = 3 \<or> shape ! 1 = 1) then Inr None
           else if - 1 = shape ! 3 \<and> \<not> (adjacent_find_not_equal (m_widths this) = None)
           then Inl (Hr E_INVALIDARG)
           else if - 1 = shape ! 2 \<and> \<not> (adjacent_find_not_equal (m_heights this) = None)
           then Inl (Hr E_INVALIDARG)
           else
             (case (if - 1 = shape ! 3 then vector_at (m_widths this) 0
                    else Inr (word_of_int (shape ! 3))) of
                Inl e \<Rightarrow> Inl e
              | Inr descriptorWidth \<Rightarrow>
                  (case (if - 1 = shape ! 2 then vector_at (m_heights this) 0
                         else Inr (word_of_int (shape ! 2))) of
                     Inl e \<Rightarrow> Inl e
                   | Inr descriptorHeight \<Rightarrow>
                       Inr (Some (descriptorWidth, descriptorHeight, tensor_TensorKind spTensorDescriptor)))))
      | NeitherDescriptor \<Rightarrow> Inr None)"

text \<open>
  ``Set up BitmapBounds'': one pass of the loop body for frame \<open>i\<close>, and the loop over the
  frame indices \<open>0 ..< m_batchSize\<close>.
\<close>

definition GetInputMetadata_frame_bounds ::
  "ImageFeatureValue \<Rightarrow> BindingContext \<Rightarrow> u32 \<Rightarrow> u32 \<Rightarrow> nat \<Rightarrow> failure + BitmapBounds" where
  "GetInputMetadata_frame_bounds this context descriptorWidth descriptorHeight i =
     (case GetBoundsFromMetadata (properties context) of
        Inl e \<Rightarrow> Inl e
      | Inr (Some tempBounds) \<Rightarrow> Inr tempBounds
      | Inr None \<Rightarrow>
          if binding_type context = kInput
          then CenterAndCropBounds this i descriptorWidth descriptorHeight
          else (case vector_at (m_widths this) i of
                  Inl e \<Rightarrow> Inl e
                | Inr w \<Rightarrow>
                    (case vector_at (m_heights this) i of
                       Inl e \<Rightarrow> Inl e
                     | Inr h \<Rightarrow> Inr \<lparr> X = 0, Y = 0, Width = w, Height = h \<rparr>)))"

fun GetInputMetadata_bounds ::
  "ImageFeatureValue \<Rightarrow> BindingContext \<Rightarrow> u32 \<Rightarrow> u32 \<Rightarrow> nat list \<Rightarrow> failure + BitmapBounds list" where
  "GetInputMetadata_bounds this context descriptorWidth descriptorHeight [] = Inr []"
| "GetInputMetadata_bounds this context descriptorWidth descriptorHeight (i # rest) =
     (case GetInputMetadata_frame_bounds this context descriptorWidth descriptorHeight i of
        Inl e \<Rightarrow> Inl e
      | Inr b \<Rightarrow>
          (case GetInputMetadata_bounds this context descriptorWidth descriptorHeight rest of
             Inl e \<Rightarrow> Inl e
           | Inr bs \<Rightarrow> Inr (b # bs)))"

text \<open>
  ``Set up BitmapPixelFormat'': the override, else the image descriptor's format, else the
  format inferred from the tensor descriptor's channel count.
\<close>

definition GetInputMetadata_pixelFormat :: "BindingContext \<Rightarrow> failure + BitmapPixelFormat option" where
  "GetInputMetadata_pixelFormat context =
     (case GetBitmapPixelFormatFromMetadata (properties context) of
        Inl e \<Rightarrow> Inl e
      | Inr (Some pixelFormat) \<Rightarrow> Inr (Some pixelFormat)
      | Inr None \<Rightarrow>
          (case descriptor context of
             AsImageFeatureDescriptor spImageDescriptor \<Rightarrow>
               Inr (Some (image_BitmapPixelFormat spImageDescriptor))
           | AsTensorFeatureDescriptor spTensorDescriptor \<Rightarrow>
               (case vector_at (tensor_Shape spTensorDescriptor) 1 of
                  Inl e \<Rightarrow> Inl e
                | Inr c \<Rightarrow>
                    (let channelCount = sint (word_of_int c :: 32 word) in
                     if channelCount = 1 then Inr (Some Gray8)
                     else if channelCount = 3 then Inr (Some Bgra8)
                     else Inl (Hr WINML_ERR_SIZE_MISMATCH)))
           | NeitherDescriptor \<Rightarrow> Inr None))"

definition GetInputMetadata ::
  "ImageFeatureValue \<Rightarrow> BindingContext \<Rightarrow> failure + ImageResourceMetadata option" where
  "GetInputMetadata this context =
     (case GetInputMetadata_descriptor this (descriptor context) of
        Inl e \<Rightarrow> Inl e
      | Inr None \<Rightarrow> Inr None
      | Inr (Some (descriptorWidth, descriptorHeight, tensorKind)) \<Rightarrow>
          (case GetInputMetadata_bounds this context descriptorWidth descriptorHeight
                  [0 ..< m_batchSize this] of
             Inl e \<Rightarrow> Inl e
           | Inr bounds \<Rightarrow>
               (case GetInputMetadata_pixelFormat context of
                  Inl e \<Rightarrow> Inl e
                | Inr None \<Rightarrow> Inl BadOptionalAccess
                | Inr (Some pixelFormat) \<Rightarrow>
                    (case CreateImageTensorDescriptor tensorKind pixelFormat (m_batchSize this)
                            descriptorWidth descriptorHeight of
                       Inl e \<Rightarrow> Inl e
                     | Inr imageTensorDescriptor \<Rightarrow>
                         Inr (Some \<lparr> Bounds = bounds, TensorDescriptor = imageTensorDescriptor \<rparr>)))))"

section \<open>Pooled converters\<close>

text \<open>
  Modelled from the spec: the converter store (\<^verbatim>\<open>ConverterResourceStore\<close>, declared in
  \<^verbatim>\<open>ConverterResourceStore.h\<close>, which is not part of this file). A fetch hands out an idle
  converter of the requested key, or creates one when none is idle; a converter handed out
  is borrowed until it is returned.
\<close>

record ConverterResourceStore =
  idle :: "(ConverterResourceDescription \<times> nat) list"
  created :: nat

definition Fetch :: "ConverterResourceStore \<Rightarrow> ConverterResourceDescription \<Rightarrow> nat \<times> ConverterResourceStore" where
  "Fetch store d =
     (case find (\<lambda>entry. fst entry = d) (idle store) of
        Some entry \<Rightarrow> (snd entry, store \<lparr> idle := remove1 entry (idle store) \<rparr>)
      | None \<Rightarrow> (created store, store \<lparr> created := Suc (created store) \<rparr>))"

definition ReturnToCache :: "ConverterResourceStore \<Rightarrow> ConverterResourceDescription \<Rightarrow> nat \<Rightarrow> ConverterResourceStore" where
  "ReturnToCache store d c = store \<lparr> idle := idle store @ [(d, c)] \<rparr>"

text \<open>What the converters and the pool are asked to do, in program order.\<close>

datatype event =
    Fetched converter
  | ReturnedToPool converter
  | VideoFrameToSoftwareTensor nat BitmapBounds nat converter
  | VideoFrameToDX12Tensor nat BitmapBounds converter
  | SoftwareTensorToVideoFrame nat nat converter
  | DX12TensorToVideoFrame nat converter
  | SyncD3D12ToCPU
  | ResetAllocator converter

text \<open>
  The state the entry points work on: the feature value, the binding context, the device's
  two converter stores, the events so far, and the caller's \<^verbatim>\<open>ort_value\<close> out-parameter.
\<close>

record state =
  self :: ImageFeatureValue
  binding :: BindingContext
  TensorizerStore :: ConverterResourceStore
  DetensorizerStore :: ConverterResourceStore
  trace :: "event list"
  ort_value :: "ImageTensorDescription option"

text \<open>
  \<^verbatim>\<open>PoolObjectWrapper::Create(store->Fetch(descriptor))\<close>: the borrowed converter in its
  wrapper.
\<close>

definition fetch_pooled :: "store_kind \<Rightarrow> ConverterResourceDescription \<Rightarrow> state \<Rightarrow> converter \<times> state" where
  "fetch_pooled k d s =
     (case k of
        Tensorizer \<Rightarrow>
          (let (c, store) = Fetch (TensorizerStore s) d
           in ((k, d, c), s \<lparr> TensorizerStore := store, trace := trace s @ [Fetched (k, d, c)] \<rparr>))
      | Detensorizer \<Rightarrow>
          (let (c, store) = Fetch (DetensorizerStore s) d
           in ((k, d, c), s \<lparr> DetensorizerStore := store, trace := trace s @ [Fetched (k, d, c)] \<rparr>)))"

text \<open>
  The destructor of the wrapper, run when its last owner lets go: the converter goes back
  to its store (``This happens automatically in the destruction of PoolObjectWrapper'').
\<close>

definition destroy_wrapper :: "converter \<Rightarrow> state \<Rightarrow> state" where
  "destroy_wrapper pc s =
     (case pc of
        (Tensorizer, d, c) \<Rightarrow>
          s \<lparr> TensorizerStore := ReturnToCache (TensorizerStore s) d c,
              trace := trace s @ [ReturnedToPool pc] \<rparr>
      | (Detensorizer, d, c) \<Rightarrow>
          s \<lparr> DetensorizerStore := ReturnToCache (DetensorizerStore s) d c,
              trace := trace s @ [ReturnedToPool pc] \<rparr>)"

text \<open>
  The local \<^verbatim>\<open>pooledConverter\<close> going out of scope: the wrapper is destroyed unless the
  binding context still owns it.
\<close>

definition leave_scope :: "converter \<Rightarrow> state \<Rightarrow> state" where
  "leave_scope pc s = (if converter (binding s) = Some pc then s else destroy_wrapper pc s)"

text \<open>
  The assignment \<^verbatim>\<open>context.converter = p\<close>: the context owns \<open>p\<close> from now on and lets go
  of the wrapper it held before, which no local owns any more (``Release any converters
  back to the pool by nulling out the wrapper'').
\<close>

definition assign_converter :: "converter option \<Rightarrow> state \<Rightarrow> state" where
  "assign_converter p s =
     (let old = converter (binding s);
          s' = s \<lparr> binding := (binding s) \<lparr> converter := p \<rparr> \<rparr>
      in case old of
           None \<Rightarrow> s'
         | Some pc \<Rightarrow> if p = Some pc then s' else destroy_wrapper pc s')"

section \<open>Tensorization\<close>

text \<open>\<^verbatim>\<open>static_cast<int>\<close> of an \<^verbatim>\<open>int64_t\<close>: the low 32 bits, read as signed.\<close>

definition int_of_int64 :: "int \<Rightarrow> int" where
  "int_of_int64 v = sint (word_of_int v :: 32 word)"

text \<open>
  What the collaborators outside this file answer: the adapter, the execution provider's
  allocator, the tensor creation and data access of the runtime, the kind of device, the
  adapter's identifier, and whether an output value lives in CPU memory.
\<close>

record env =
  OrtGetWinMLAdapter :: hresult
  GetProviderAllocator :: hresult
  CreateTensor :: hresult
  GetTensorMutableData :: hresult
  IsCpuDevice :: bool
  GetAdapterLuid :: nat
  ValueOnCpu :: bool

definition CPUTensorize_frame ::
  "nat \<Rightarrow> BitmapBounds \<Rightarrow> ImageTensorDescription \<Rightarrow> nat \<Rightarrow> state \<Rightarrow> state" where
  "CPUTensorize_frame batchIdx bounds tensorDescriptor pResource s =
     (let d = \<lparr> pixel_format = nat Bgra8,
                width = int_of_int64 (sizes tensorDescriptor ! 3),
                height = int_of_int64 (sizes tensorDescriptor ! 2),
                luid = 0 \<rparr>;
          (pooledConverter, s1) = fetch_pooled Tensorizer d s;
          s2 = s1 \<lparr> trace := trace s1 @ [VideoFrameToSoftwareTensor batchIdx bounds pResource pooledConverter] \<rparr>
      in leave_scope pooledConverter s2)"

text \<open>
  The loop of the batch \<^verbatim>\<open>CPUTensorize\<close> over the remaining frame indices; \<open>tempPResource\<close>
  is the byte offset into the destination buffer.
\<close>

fun CPUTensorize ::
  "nat list \<Rightarrow> BitmapBounds list \<Rightarrow> ImageTensorDescription \<Rightarrow> nat \<Rightarrow> nat \<Rightarrow> state \<Rightarrow> failure option \<times> state" where
  "CPUTensorize [] bounds tensorDescriptor tempPResource singleFrameBufferSize s = (None, s)"
| "CPUTensorize (batchIdx # rest) bounds tensorDescriptor tempPResource singleFrameBufferSize s =
     (case vector_at bounds batchIdx of
        Inl e \<Rightarrow> (Some e, s)
      | Inr b \<Rightarrow>
          CPUTensorize rest bounds tensorDescriptor (tempPResource + singleFrameBufferSize)
            singleFrameBufferSize (CPUTensorize_frame batchIdx b tensorDescriptor tempPResource s))"

fun GPUTensorize_loop ::
  "nat list \<Rightarrow> BitmapBounds list \<Rightarrow> ConverterResourceDescription \<Rightarrow> state \<Rightarrow> failure option \<times> state" where
  "GPUTensorize_loop [] bounds d s = (None, s)"
| "GPUTensorize_loop (batchIdx # rest) bounds d s =
     (let (pooledConverter, s1) = fetch_pooled Tensorizer d s
      in case vector_at bounds batchIdx of
           Inl e \<Rightarrow> (Some e, leave_scope pooledConverter s1)
         | Inr b \<Rightarrow>
             (let s2 = s1 \<lparr> trace := trace s1 @ [VideoFrameToDX12Tensor batchIdx b pooledConverter] \<rparr>;
                  s3 = assign_converter (Some pooledConverter) s2
              in GPUTensorize_loop rest bounds d (leave_scope pooledConverter s3)))"

definition GPUTensorize ::
  "env \<Rightarrow> nat list \<Rightarrow> BitmapBounds list \<Rightarrow> ImageTensorDescription \<Rightarrow> state \<Rightarrow> failure option \<times> state" where
  "GPUTensorize env videoFrames bounds tensorDescriptor s =
     (if OrtGetWinMLAdapter env \<noteq> S_OK then (Some (Hr (OrtGetWinMLAdapter env)), s)
      else GPUTensorize_loop videoFrames bounds
             \<lparr> pixel_format = 88,
               width = int_of_int64 (sizes tensorDescriptor ! 3),
               height = int_of_int64 (sizes tensorDescriptor ! 2),
               luid = GetAdapterLuid env \<rparr> s)"

section \<open>The entry points\<close>

text \<open>
  How an entry point ends: the process is terminated by a fail-fast check, an exception
  reaches the \<^verbatim>\<open>WINML_CATCH_ALL_COM\<close> handler that closes the function, or the body returns
  an \<^verbatim>\<open>HRESULT\<close> itself.
\<close>

datatype outcome = FailFast | Caught failure | Returned hresult

text \<open>
  Products in \<^verbatim>\<open>int64_t\<close>. Signed overflow is undefined in C++; it is a failure of its
  own here.
\<close>

definition mul_int64 :: "int \<Rightarrow> int \<Rightarrow> failure + int" where
  "mul_int64 a b =
     (if - (2 ^ 63) \<le> a * b \<and> a * b < 2 ^ 63 then Inr (a * b) else Inl SignedOverflow)"

text \<open>\<^verbatim>\<open>std::accumulate(first, last, init, std::multiplies<int64_t>())\<close>.\<close>

fun accumulate_multiplies :: "int list \<Rightarrow> int \<Rightarrow> failure + int" where
  "accumulate_multiplies [] init = Inr init"
| "accumulate_multiplies (x # xs) init =
     (case mul_int64 init x of
        Inl e \<Rightarrow> Inl e
      | Inr acc \<Rightarrow> accumulate_multiplies xs acc)"

text \<open>
  \<^verbatim>\<open>bufferSize\<close>, \<^verbatim>\<open>bufferByteSize\<close> and the quotient by \<^verbatim>\<open>m_batchSize\<close>, all \<^verbatim>\<open>int64_t\<close>:
  the byte size of one frame of the tensor.
\<close>

definition singleFrameBufferSize :: "ImageTensorDescription \<Rightarrow> nat \<Rightarrow> failure + int" where
  "singleFrameBufferSize tensorDescriptor batchSize =
     (case accumulate_multiplies (sizes tensorDescriptor) 1 of
        Inl e \<Rightarrow> Inl e
      | Inr bufferSize \<Rightarrow>
          (case mul_int64 (GetSizeFromTensorDataType (dataType tensorDescriptor)) bufferSize of
             Inl e \<Rightarrow> Inl e
           | Inr bufferByteSize \<Rightarrow>
               if batchSize = 0 then Inl DivideByZero
               else Inr (bufferByteSize div int batchSize)))"

text \<open>\<^verbatim>\<open>if (!m_adapter) WINML_THROW_IF_FAILED(OrtGetWinMLAdapter(m_adapter.put()))\<close>.\<close>

definition ensure_adapter :: "env \<Rightarrow> state \<Rightarrow> failure option \<times> state" where
  "ensure_adapter env s =
     (if m_adapter (self s) then (None, s)
      else if OrtGetWinMLAdapter env \<noteq> S_OK then (Some (Hr (OrtGetWinMLAdapter env)), s)
      else (None, s \<lparr> self := (self s) \<lparr> m_adapter := True \<rparr> \<rparr>))"

text \<open>
  ``Only tensorize inputs'': the sizes, then the CPU or the GPU path. The CPU path receives
  the frame size through \<^verbatim>\<open>static_cast<unsigned int>\<close>, that is modulo \<open>2 ^ 32\<close>.
\<close>

definition GetOrtValue_tensorize :: "env \<Rightarrow> ImageResourceMetadata \<Rightarrow> state \<Rightarrow> failure option \<times> state" where
  "GetOrtValue_tensorize env resourceMetadata s =
     (case singleFrameBufferSize (TensorDescriptor resourceMetadata) (m_batchSize (self s)) of
        Inl e \<Rightarrow> (Some e, s)
      | Inr single \<Rightarrow>
          if IsCpuDevice env
          then CPUTensorize [0 ..< length (m_videoFrames (self s))] (Bounds resourceMetadata)
                 (TensorDescriptor resourceMetadata) 0 (nat (single mod 2 ^ 32)) s
          else GPUTensorize env [0 ..< length (m_videoFrames (self s))] (Bounds resourceMetadata)
                 (TensorDescriptor resourceMetadata) s)"

definition GetOrtValue :: "env \<Rightarrow> state \<Rightarrow> outcome \<times> state" where
  "GetOrtValue env s =
     (if \<not> list_all (\<lambda>i. i \<noteq> 0) (m_widths (self s)) then (FailFast, s)
      else if \<not> list_all (\<lambda>i. i \<noteq> 0) (m_heights (self s)) then (FailFast, s)
      else
        (case GetInputMetadata (self s) (binding s) of
           Inl e \<Rightarrow> (Caught e, s)
         | Inr None \<Rightarrow> (Returned E_INVALIDARG, s)
         | Inr (Some resourceMetadata) \<Rightarrow>
             (case ensure_adapter env s of
                (Some e, s1) \<Rightarrow> (Caught e, s1)
              | (None, s1) \<Rightarrow>
                  if GetProviderAllocator env \<noteq> S_OK then (Caught (Hr (GetProviderAllocator env)), s1)
                  else if CreateTensor env \<noteq> S_OK then (Caught (Hr (CreateTensor env)), s1)
                  else
                    (let s2 = s1 \<lparr> self := (self s1)
                                 \<lparr> m_tensorAllocators :=
                                     m_tensorAllocators (self s1) @ [length (m_tensorAllocators (self s1))] \<rparr> \<rparr>
                     in if GetTensorMutableData env \<noteq> S_OK
                        then (Caught (Hr (GetTensorMutableData env)), s2)
                        else
                          (case (if binding_type (binding s2) = kInput
                                 then GetOrtValue_tensorize env resourceMetadata s2
                                 else (None, s2)) of
                             (Some e, s3) \<Rightarrow> (Caught e, s3)
                           | (None, s3) \<Rightarrow>
                               (Returned S_OK,
                                s3 \<lparr> ort_value := Some (TensorDescriptor resourceMetadata) \<rparr>))))))"

text \<open>The two loops of \<^verbatim>\<open>UpdateSourceResourceData\<close>, over the frame indices.\<close>

fun detensorize_cpu_loop :: "nat list \<Rightarrow> converter \<Rightarrow> nat \<Rightarrow> nat \<Rightarrow> state \<Rightarrow> state" where
  "detensorize_cpu_loop [] pooledConverter tempPAllocatedResource bufferByteSize s = s"
| "detensorize_cpu_loop (batchIdx # rest) pooledConverter tempPAllocatedResource bufferByteSize s =
     detensorize_cpu_loop rest pooledConverter (tempPAllocatedResource + bufferByteSize) bufferByteSize
       (s \<lparr> trace := trace s @ [SoftwareTensorToVideoFrame batchIdx tempPAllocatedResource pooledConverter] \<rparr>)"

fun detensorize_gpu_loop :: "nat list \<Rightarrow> converter \<Rightarrow> state \<Rightarrow> state" where
  "detensorize_gpu_loop [] pooledConverter s = s"
| "detensorize_gpu_loop (batchIdx # rest) pooledConverter s =
     detensorize_gpu_loop rest pooledConverter
       (s \<lparr> trace := trace s @ [DX12TensorToVideoFrame batchIdx pooledConverter, SyncD3D12ToCPU,
                                 ResetAllocator pooledConverter] \<rparr>)"

definition UpdateSourceResourceData :: "env \<Rightarrow> state \<Rightarrow> outcome \<times> state" where
  "UpdateSourceResourceData env s =
     (case ensure_adapter env s of
        (Some e, s1) \<Rightarrow> (Caught e, s1)
      | (None, s1) \<Rightarrow>
          if GetTensorMutableData env \<noteq> S_OK then (Caught (Hr (GetTensorMutableData env)), s1)
          else
            (case GetInputMetadata (self s1) (binding s1) of
               Inl e \<Rightarrow> (Caught e, s1)
             | Inr None \<Rightarrow> (Caught BadOptionalAccess, s1)
             | Inr (Some resourceMetadata) \<Rightarrow>
                 (let w = int_of_int64 (sizes (TensorDescriptor resourceMetadata) ! 3);
                      h = int_of_int64 (sizes (TensorDescriptor resourceMetadata) ! 2)
                  in if ValueOnCpu env then
                       (let (pooledConverter, s2) =
                              fetch_pooled Detensorizer
                                \<lparr> pixel_format = nat Bgra8, width = w, height = h, luid = 0 \<rparr> s1
                        in case singleFrameBufferSize (TensorDescriptor resourceMetadata)
                                  (m_batchSize (self s2)) of
                             Inl e \<Rightarrow> (Caught e, leave_scope pooledConverter s2)
                           | Inr bufferByteSize \<Rightarrow>
                               (Returned S_OK,
                                assign_converter None
                                  (leave_scope pooledConverter
                                     (detensorize_cpu_loop [0 ..< m_batchSize (self s2)] pooledConverter 0
                                        (nat bufferByteSize) s2))))
                     else
                       (let (pooledConverter, s2) =
                              fetch_pooled Detensorizer
                                \<lparr> pixel_format = 88, width = w, height = h, luid = GetAdapterLuid env \<rparr> s1
                        in (Returned S_OK,
                            assign_converter None
                              (leave_scope pooledConverter
                                 (detensorize_gpu_loop [0 ..< m_batchSize (self s2)] pooledConverter s2)))))))"

section \<open>Statements about the crop\<close>

text \<open>
  A rational is exact when single precision represents it. A rectangle of naturals as
  \<^verbatim>\<open>BitmapBounds\<close>. A rectangle is contained in a frame of \<open>w\<close> by \<open>h\<close> when it ends inside it
  on both axes (its origin cannot be negative). It keeps the target's aspect ratio within
  one pixel when its width is within one pixel of \<open>tw / th\<close> times its height, or its height
  within one pixel of \<open>th / tw\<close> times its width; both are stated without division.
\<close>

definition exact :: "rat \<Rightarrow> bool" where
  "exact q \<longleftrightarrow> f32_round q = Finite q"

definition rectangle :: "nat \<times> nat \<times> nat \<times> nat \<Rightarrow> BitmapBounds" where
  "rectangle r = (case r of (x, y, w, h) \<Rightarrow> \<lparr> X = of_nat x, Y = of_nat y, Width = of_nat w, Height = of_nat h \<rparr>)"

definition contained :: "u32 \<Rightarrow> u32 \<Rightarrow> BitmapBounds \<Rightarrow> bool" where
  "contained w h b \<longleftrightarrow>
     unat (X b) + unat (Width b) \<le> unat w \<and> unat (Y b) + unat (Height b) \<le> unat h"

definition within_one_pixel :: "u32 \<Rightarrow> u32 \<Rightarrow> BitmapBounds \<Rightarrow> bool" where
  "within_one_pixel tw th b \<longleftrightarrow>
     \<bar>int (unat (Width b)) * int (unat th) - int (unat tw) * int (unat (Height b))\<bar> \<le> int (unat th)
   \<or> \<bar>int (unat (Height b)) * int (unat tw) - int (unat th) * int (unat (Width b))\<bar> \<le> int (unat tw)"

text \<open>
  Comparing the crop with the stated algorithm. Rounding half up sends \<open>x\<close> to
  \<open>\<lfloor>x + 1 / 2\<rfloor>\<close>; a tie is an \<open>x\<close> where \<open>x + 1 / 2\<close> is an integer. The value \<open>x\<close> is clear
  of a tie by a margin when \<open>x + 1 / 2\<close> is at least the margin above the integer below it
  and more than the margin below the integer above it. A frame and a target are away from
  ties when the exact scaled side of the stated algorithm, on the branch the stated
  algorithm takes, is clear of a tie by \<open>(side + 1) / 2 ^ 22\<close>, where the side is the frame's
  extent on the cropped axis. The intermediates are exact when single precision represents
  the ratio, the product \<open>r * frame_height\<close>, and on the branch the stated algorithm takes
  the scaled side and its sum with one half. Two rectangles are pixel close when they
  differ by at most one on each of \<open>X\<close>, \<open>Y\<close>, \<open>Width\<close> and \<open>Height\<close>.
\<close>

definition clear_of_tie :: "rat \<Rightarrow> rat \<Rightarrow> bool" where
  "clear_of_tie margin x \<longleftrightarrow>
     of_int \<lfloor>x + 1 / 2\<rfloor> + margin \<le> x + 1 / 2 \<and> x + 1 / 2 + margin < of_int \<lfloor>x + 1 / 2\<rfloor> + 1"

definition away_from_ties :: "nat \<Rightarrow> nat \<Rightarrow> nat \<Rightarrow> nat \<Rightarrow> bool" where
  "away_from_ties frame_width frame_height target_width target_height =
     (let r = of_nat target_width / of_nat target_height :: rat
      in if r * of_nat frame_height < of_nat frame_width
         then clear_of_tie ((of_nat frame_width + 1) / 2 ^ 22) (r * of_nat frame_height)
         else clear_of_tie ((of_nat frame_height + 1) / 2 ^ 22) (of_nat frame_width / r))"

definition intermediates_exact :: "nat \<Rightarrow> nat \<Rightarrow> nat \<Rightarrow> nat \<Rightarrow> bool" where
  "intermediates_exact frame_width frame_height target_width target_height =
     (let r = of_nat target_width / of_nat target_height :: rat
      in exact r \<and> exact (r * of_nat frame_height)
         \<and> (if r * of_nat frame_height < of_nat frame_width
            then exact (r * of_nat frame_height + 1 / 2)
            else exact (of_nat frame_width / r) \<and> exact (of_nat frame_width / r + 1 / 2)))"

definition pixel_close :: "BitmapBounds \<Rightarrow> BitmapBounds \<Rightarrow> bool" where
  "pixel_close a b \<longleftrightarrow>
     \<bar>int (unat (X a)) - int (unat (X b))\<bar> \<le> 1
     \<and> \<bar>int (unat (Y a)) - int (unat (Y b))\<bar> \<le> 1
     \<and> \<bar>int (unat (Width a)) - int (unat (Width b))\<bar> \<le> 1
     \<and> \<bar>int (unat (Height a)) - int (unat (Height b))\<bar> \<le> 1"

section \<open>Free dimensions\<close>

text \<open>
  The notions the statements about free dimensions are worded with. A descriptor is
  accepted when the resolver does not decline it: an image descriptor, or a tensor
  descriptor of four axes whose channel axis is 1 or 3. Its width (height) is free when the
  image descriptor carries \<^verbatim>\<open>MAXUINT32\<close> there, or the tensor shape carries \<open>-1\<close> on axis 3
  (axis 2). Frames disagree when two of them differ.
\<close>

definition accepted :: "descriptor \<Rightarrow> bool" where
  "accepted d =
     (case d of
        AsImageFeatureDescriptor i \<Rightarrow> True
      | AsTensorFeatureDescriptor t \<Rightarrow>
          length (tensor_Shape t) = 4 \<and> (tensor_Shape t ! 1 = 3 \<or> tensor_Shape t ! 1 = 1)
      | NeitherDescriptor \<Rightarrow> False)"

definition free_width :: "descriptor \<Rightarrow> bool" where
  "free_width d =
     (case d of
        AsImageFeatureDescriptor i \<Rightarrow> image_Width i = MAXUINT32
      | AsTensorFeatureDescriptor t \<Rightarrow> tensor_Shape t ! 3 = - 1
      | NeitherDescriptor \<Rightarrow> False)"

definition free_height :: "descriptor \<Rightarrow> bool" where
  "free_height d =
     (case d of
        AsImageFeatureDescriptor i \<Rightarrow> image_Height i = MAXUINT32
      | AsTensorFeatureDescriptor t \<Rightarrow> tensor_Shape t ! 2 = - 1
      | NeitherDescriptor \<Rightarrow> False)"

definition disagree :: "'a list \<Rightarrow> bool" where
  "disagree xs = (\<exists>x \<in> set xs. \<exists>y \<in> set xs. x \<noteq> y)"

text \<open>
  What the later stages of the resolution need in order to succeed. The declared width and
  height are the values the resolver takes from the descriptor when the axis is not free:
  the image descriptor's \<^verbatim>\<open>Width()\<close> and \<^verbatim>\<open>Height()\<close>, or axes 3 and 2 of the tensor shape
  cast to \<^verbatim>\<open>uint32_t\<close>. The tensor kind is a float kind when it is \<^verbatim>\<open>Float\<close> or \<^verbatim>\<open>Float16\<close>,
  the two kinds \<^verbatim>\<open>GetTensorDataTypeFromTensorKind\<close> accepts. The pixel format is known when
  the property set holds a well-formed override, or holds none and an image descriptor
  declares one of the three supported formats (a tensor descriptor's format is inferred
  from its channel count). The batch is croppable when every frame has non-zero sides
  below \<open>2 ^ 21\<close> and every declared side that is not free is non-zero and below \<open>2 ^ 24\<close>:
  the range in which the center crop is shown to return a rectangle. The bounds are known
  when the property set holds a well-formed bounds override, or holds none and the binding
  is an output or the batch is croppable. The feature value keeps one width and one height
  per frame, as \<^verbatim>\<open>Initialize\<close> leaves it.
\<close>

definition declared_width :: "descriptor \<Rightarrow> u32" where
  "declared_width d =
     (case d of
        AsImageFeatureDescriptor i \<Rightarrow> image_Width i
      | AsTensorFeatureDescriptor t \<Rightarrow> word_of_int (tensor_Shape t ! 3)
      | NeitherDescriptor \<Rightarrow> 0)"

definition declared_height :: "descriptor \<Rightarrow> u32" where
  "declared_height d =
     (case d of
        AsImageFeatureDescriptor i \<Rightarrow> image_Height i
      | AsTensorFeatureDescriptor t \<Rightarrow> word_of_int (tensor_Shape t ! 2)
      | NeitherDescriptor \<Rightarrow> 0)"

definition float_kind :: "descriptor \<Rightarrow> bool" where
  "float_kind d =
     (case d of
        AsImageFeatureDescriptor i \<Rightarrow> image_TensorKind i = Float \<or> image_TensorKind i = Float16
      | AsTensorFeatureDescriptor t \<Rightarrow> tensor_TensorKind t = Float \<or> tensor_TensorKind t = Float16
      | NeitherDescriptor \<Rightarrow> False)"

definition format_known :: "BindingContext \<Rightarrow> bool" where
  "format_known c =
     (case GetBitmapPixelFormatFromMetadata (properties c) of
        Inl e \<Rightarrow> False
      | Inr (Some f) \<Rightarrow> True
      | Inr None \<Rightarrow>
          (case descriptor c of
             AsImageFeatureDescriptor i \<Rightarrow>
               image_BitmapPixelFormat i = Rgba8 \<or> image_BitmapPixelFormat i = Bgra8
               \<or> image_BitmapPixelFormat i = Gray8
           | _ \<Rightarrow> True))"

definition croppable :: "ImageFeatureValue \<Rightarrow> descriptor \<Rightarrow> bool" where
  "croppable v d \<longleftrightarrow>
     list_all (\<lambda>w. w \<noteq> 0 \<and> unat w < 2 ^ 21) (m_widths v)
     \<and> list_all (\<lambda>h. h \<noteq> 0 \<and> unat h < 2 ^ 21) (m_heights v)
     \<and> (free_width d \<or> declared_width d \<noteq> 0 \<and> unat (declared_width d) < 2 ^ 24)
     \<and> (free_height d \<or> declared_height d \<noteq> 0 \<and> unat (declared_height d) < 2 ^ 24)"

definition bounds_known :: "ImageFeatureValue \<Rightarrow> BindingContext \<Rightarrow> bool" where
  "bounds_known v c =
     (case GetBoundsFromMetadata (properties c) of
        Inl e \<Rightarrow> False
      | Inr (Some b) \<Rightarrow> True
      | Inr None \<Rightarrow> binding_type c = kOutput \<or> croppable v (descriptor c))"

definition one_per_frame :: "ImageFeatureValue \<Rightarrow> bool" where
  "one_per_frame v \<longleftrightarrow>
     length (m_widths v) = m_batchSize v \<and> length (m_heights v) = m_batchSize v"

section \<open>Starting states\<close>

text \<open>
  A feature value fresh from its constructor, bound through a context, on a device whose
  converter stores are still empty; and collaborators that all succeed, on the CPU or on
  the GPU.
\<close>

definition start :: "VideoFrame list \<Rightarrow> BindingContext \<Rightarrow> state" where
  "start frames ctx =
     \<lparr> self = Initialize frames,
       binding = ctx,
       TensorizerStore = \<lparr> idle = [], created = 0 \<rparr>,
       DetensorizerStore = \<lparr> idle = [], created = 0 \<rparr>,
       trace = [],
       ort_value = None \<rparr>"

definition all_succeed :: "bool \<Rightarrow> env" where
  "all_succeed cpu =
     \<lparr> OrtGetWinMLAdapter = S_OK,
       GetProviderAllocator = S_OK,
       CreateTensor = S_OK,
       GetTensorMutableData = S_OK,
       IsCpuDevice = cpu,
       GetAdapterLuid = (if cpu then 0 else 1),
       ValueOnCpu = cpu \<rparr>"

section \<open>Evaluating the model on given inputs\<close>

lemma floor_rat_numeral: "\<lfloor>numeral a / numeral b :: rat\<rfloor> = numeral a div numeral b"
  by (metis floor_divide_of_int_eq of_int_numeral)

lemma ceiling_rat_numeral: "\<lceil>numeral a / numeral b :: rat\<rceil> = - (- numeral a div numeral b)"
  using ceiling_divide_eq_div [of "numeral a" "numeral b", where ?'a = rat] by simp

lemma powi2_neg: "e < 0 \<Longrightarrow> (2::rat) powi e = 1 / 2 ^ nat (- e)"
  by (simp add: power_int_def power_one_over inverse_eq_divide)

lemma powi2_pos: "0 \<le> e \<Longrightarrow> (2::rat) powi e = 2 ^ nat e"
  by (simp add: power_int_def)

lemmas f32_eval = f32_round_def ilog2_def log2_ceil_def log2_floor.simps round_half_even_def Let_def
  floor_rat_numeral ceiling_rat_numeral powi2_neg powi2_pos f32_of_u32_def

lemmas pool_eval = GPUTensorize_def fetch_pooled_def Fetch_def ReturnToCache_def
  destroy_wrapper_def leave_scope_def assign_converter_def vector_at_def int_of_int64_def
  start_def all_succeed_def Initialize_def Let_def

lemmas metadata_eval = GetInputMetadata_def GetInputMetadata_descriptor_def MAXUINT32_def
  GetInputMetadata_frame_bounds_def GetBoundsFromMetadata_def GetInputMetadata_pixelFormat_def
  GetBitmapPixelFormatFromMetadata_def CreateImageTensorDescriptor_def GetTensorDataTypeFromTensorKind_def
  CenterAndCropBounds_def Bgra8_def Rgba8_def Gray8_def

lemma upt2: "[0 ..< 2] = [0, Suc 0]"
  by (simp add: upt_rec)

lemma upt3: "[0 ..< 3] = [0, Suc 0, 2]"
  by (simp add: upt_rec)

lemma crop224: "center_crop 224 224 224 224 = Inr \<lparr> X = 0, Y = 0, Width = 224, Height = 224 \<rparr>"
  by (simp add: center_crop_def f32_eval)

lemma crop20000:
  "center_crop 20000 20000 20000 20000 = Inr \<lparr> X = 0, Y = 0, Width = 20000, Height = 20000 \<rparr>"
  by (simp add: center_crop_def f32_eval)

lemma crop100: "center_crop 100 200 100 200 = Inr \<lparr> X = 0, Y = 0, Width = 100, Height = 200 \<rparr>"
  by (simp add: center_crop_def f32_eval)

section \<open>Descriptors the resolver declines\<close>

lemma GetInputMetadata_declines_wrong_rank:
  "descriptor ctx = AsTensorFeatureDescriptor t \<Longrightarrow> length (tensor_Shape t) \<noteq> 4
   \<Longrightarrow> GetInputMetadata this ctx = Inr None"
  by (simp add: GetInputMetadata_def GetInputMetadata_descriptor_def)

text \<open>
  Claim C8. A tensor descriptor whose shape does not have exactly four axes makes
  \<^verbatim>\<open>GetInputMetadata\<close> return the empty optional, which is no failure, and \<^verbatim>\<open>GetOrtValue\<close>
  then returns \<^verbatim>\<open>E_INVALIDARG\<close> and leaves everything as it was: no allocator, no tensor,
  no conversion, \<^verbatim>\<open>ort_value\<close> untouched. The frames have non-zero widths and heights, as
  the data model requires of a batch (the fail-fast checks run before the resolution).
\<close>

theorem wrong_rank_declined_then_invalid_argument:
  "descriptor (binding s) = AsTensorFeatureDescriptor t \<Longrightarrow> length (tensor_Shape t) \<noteq> 4
   \<Longrightarrow> list_all (\<lambda>i. i \<noteq> 0) (m_widths (self s)) \<Longrightarrow> list_all (\<lambda>i. i \<noteq> 0) (m_heights (self s))
   \<Longrightarrow> GetInputMetadata (self s) (binding s) = Inr None
       \<and> GetOrtValue env s = (Returned E_INVALIDARG, s)"
  by (simp add: GetOrtValue_def GetInputMetadata_declines_wrong_rank)

theorem wrong_rank_declined_then_invalid_argument_witness:
  "GetInputMetadata (Initialize [(640, 480)])
     \<lparr> binding_type = kInput,
       descriptor = AsTensorFeatureDescriptor \<lparr> tensor_Shape = [3, 224, 224], tensor_TensorKind = Float \<rparr>,
       properties = None, converter = None \<rparr> = Inr None
   \<and> GetOrtValue (all_succeed True)
       (start [(640, 480)]
         \<lparr> binding_type = kInput,
           descriptor = AsTensorFeatureDescriptor \<lparr> tensor_Shape = [3, 224, 224], tensor_TensorKind = Float \<rparr>,
           properties = None, converter = None \<rparr>)
     = (Returned E_INVALIDARG,
        start [(640, 480)]
         \<lparr> binding_type = kInput,
           descriptor = AsTensorFeatureDescriptor \<lparr> tensor_Shape = [3, 224, 224], tensor_TensorKind = Float \<rparr>,
           properties = None, converter = None \<rparr>)"
  using wrong_rank_declined_then_invalid_argument
    [of "start [(640, 480)]
          \<lparr> binding_type = kInput,
            descriptor = AsTensorFeatureDescriptor \<lparr> tensor_Shape = [3, 224, 224], tensor_TensorKind = Float \<rparr>,
            properties = None, converter = None \<rparr>"
        "\<lparr> tensor_Shape = [3, 224, 224], tensor_TensorKind = Float \<rparr>" "all_succeed True"]
  by (simp add: start_def Initialize_def)

text \<open>
  Claim C9, as stated, at the shape \<open>[1, 4, 224, 224]\<close>: the resolution returns the empty
  optional, it does not fail with \<^verbatim>\<open>WINML_ERR_SIZE_MISMATCH\<close>.
\<close>

theorem four_channels_not_size_mismatch:
  "GetInputMetadata (Initialize [(224, 224)])
     \<lparr> binding_type = kInput,
       descriptor = AsTensorFeatureDescriptor \<lparr> tensor_Shape = [1, 4, 224, 224], tensor_TensorKind = Float \<rparr>,
       properties = None, converter = None \<rparr> = Inr None
   \<and> GetInputMetadata (Initialize [(224, 224)])
     \<lparr> binding_type = kInput,
       descriptor = AsTensorFeatureDescriptor \<lparr> tensor_Shape = [1, 4, 224, 224], tensor_TensorKind = Float \<rparr>,
       properties = None, converter = None \<rparr> \<noteq> Inl (Hr WINML_ERR_SIZE_MISMATCH)"
  by (simp add: GetInputMetadata_def GetInputMetadata_descriptor_def)

text \<open>
  Claim C9, amended. A tensor descriptor of rank four whose channel axis (index 1) is
  neither 1 nor 3 is declined: \<^verbatim>\<open>GetInputMetadata\<close> returns the empty optional (the ``not
  applicable'' outcome), whatever the frames, the direction and the property set are.
\<close>

theorem bad_channel_count_declined:
  "descriptor ctx = AsTensorFeatureDescriptor t \<Longrightarrow> length (tensor_Shape t) = 4
   \<Longrightarrow> tensor_Shape t ! 1 \<noteq> 1 \<Longrightarrow> tensor_Shape t ! 1 \<noteq> 3
   \<Longrightarrow> GetInputMetadata this ctx = Inr None"
  by (simp add: GetInputMetadata_def GetInputMetadata_descriptor_def)

theorem bad_channel_count_declined_witness:
  "GetInputMetadata (Initialize [(224, 224)])
     \<lparr> binding_type = kInput,
       descriptor = AsTensorFeatureDescriptor \<lparr> tensor_Shape = [1, 4, 224, 224], tensor_TensorKind = Float \<rparr>,
       properties = None, converter = None \<rparr> = Inr None"
  using bad_channel_count_declined
    [of "\<lparr> binding_type = kInput,
          descriptor = AsTensorFeatureDescriptor \<lparr> tensor_Shape = [1, 4, 224, 224], tensor_TensorKind = Float \<rparr>,
          properties = None, converter = None \<rparr>"
        "\<lparr> tensor_Shape = [1, 4, 224, 224], tensor_TensorKind = Float \<rparr>"
        "Initialize [(224, 224)]"]
  by simp

section \<open>The pixel-format override\<close>







section \<open>Free dimensions must agree across the batch\<close>

lemma adjacent_find_None_iff:
  "adjacent_find_not_equal xs = None \<longleftrightarrow> \<not> disagree xs"
proof (induction xs rule: adjacent_find_not_equal.induct)
  case (1 x y xs)
  then show ?case by (auto simp add: disagree_def)
qed (simp_all add: disagree_def)

lemma descriptor_stage_invalid_arg:
  "GetInputMetadata_descriptor v d = Inl (Hr E_INVALIDARG) \<longleftrightarrow>
     accepted d \<and> (free_width d \<and> disagree (m_widths v) \<or> free_height d \<and> disagree (m_heights v))"
  by (cases d)
     (auto simp add: GetInputMetadata_descriptor_def accepted_def free_width_def free_height_def
        adjacent_find_None_iff vector_at_def Let_def split: sum.splits if_splits)

lemma frame_bounds_not_invalid_arg:
  "GetInputMetadata_frame_bounds v c w h i \<noteq> Inl (Hr E_INVALIDARG)"
  by (auto simp add: GetInputMetadata_frame_bounds_def GetBoundsFromMetadata_def CenterAndCropBounds_def
      center_crop_def vector_at_def Let_def
      split: sum.splits option.splits if_splits property_value.splits)

lemma bounds_not_invalid_arg:
  "GetInputMetadata_bounds v c w h is \<noteq> Inl (Hr E_INVALIDARG)"
  using frame_bounds_not_invalid_arg [of v c w h]
  by (induction "is") (auto split: sum.splits)

lemma pixelFormat_not_invalid_arg:
  "GetInputMetadata_pixelFormat c \<noteq> Inl (Hr E_INVALIDARG)"
  by (auto simp add: GetInputMetadata_pixelFormat_def GetBitmapPixelFormatFromMetadata_def vector_at_def Let_def
      split: sum.splits option.splits if_splits property_value.splits descriptor.splits)

lemma create_not_invalid_arg:
  "CreateImageTensorDescriptor k f n w h \<noteq> Inl (Hr E_INVALIDARG)"
  by (auto simp add: CreateImageTensorDescriptor_def GetTensorDataTypeFromTensorKind_def
      split: sum.splits TensorKind.splits)

lemma GetInputMetadata_invalid_arg:
  "GetInputMetadata v c = Inl (Hr E_INVALIDARG) \<longleftrightarrow>
     GetInputMetadata_descriptor v (descriptor c) = Inl (Hr E_INVALIDARG)"
  using bounds_not_invalid_arg pixelFormat_not_invalid_arg create_not_invalid_arg
  by (auto simp add: GetInputMetadata_def split: sum.splits option.splits prod.splits)

lemma resolved_sizes:
  assumes "GetInputMetadata v c = Inr (Some md)"
  shows "\<exists>dw dh k. GetInputMetadata_descriptor v (descriptor c) = Inr (Some (dw, dh, k))
           \<and> sizes (TensorDescriptor md) ! 3 = uint dw \<and> sizes (TensorDescriptor md) ! 2 = uint dh"
proof -
  from assms obtain dw dh k bs pf td where
    d: "GetInputMetadata_descriptor v (descriptor c) = Inr (Some (dw, dh, k))"
    and t: "CreateImageTensorDescriptor k pf (m_batchSize v) dw dh = Inr td"
    and m: "md = \<lparr> Bounds = bs, TensorDescriptor = td \<rparr>"
    by (auto simp add: GetInputMetadata_def split: sum.splits option.splits prod.splits)
  from t have "sizes td ! 3 = uint dw \<and> sizes td ! 2 = uint dh"
    by (auto simp add: CreateImageTensorDescriptor_def split: sum.splits if_splits)
  with d m show ?thesis by simp
qed


lemma agree_all: "\<not> disagree xs \<Longrightarrow> vector_at xs 0 = Inr a \<Longrightarrow> xs \<noteq> [] \<and> (\<forall>x \<in> set xs. x = a)"
  by (cases xs) (auto simp add: disagree_def vector_at_def)

lemma free_width_stage:
  assumes "GetInputMetadata_descriptor v d = Inr (Some (dw, dh, k))" and "free_width d"
  shows "\<not> disagree (m_widths v) \<and> vector_at (m_widths v) 0 = Inr dw"
proof (cases d)
  case (AsImageFeatureDescriptor i)
  with assms show ?thesis
    by (simp add: GetInputMetadata_descriptor_def free_width_def adjacent_find_None_iff
        split: sum.splits if_splits)
next
  case (AsTensorFeatureDescriptor t)
  with assms show ?thesis
    by (simp add: GetInputMetadata_descriptor_def free_width_def adjacent_find_None_iff Let_def
        split: sum.splits if_splits)
next
  case NeitherDescriptor
  with assms show ?thesis by (simp add: free_width_def)
qed


lemma free_height_stage:
  assumes "GetInputMetadata_descriptor v d = Inr (Some (dw, dh, k))" and "free_height d"
  shows "\<not> disagree (m_heights v) \<and> vector_at (m_heights v) 0 = Inr dh"
proof (cases d)
  case (AsImageFeatureDescriptor i)
  with assms show ?thesis
    by (simp add: GetInputMetadata_descriptor_def free_height_def adjacent_find_None_iff
        split: sum.splits if_splits)
next
  case (AsTensorFeatureDescriptor t)
  with assms show ?thesis
    by (simp add: GetInputMetadata_descriptor_def free_height_def adjacent_find_None_iff Let_def
        split: sum.splits if_splits)
next
  case NeitherDescriptor
  with assms show ?thesis by (simp add: free_height_def)
qed

lemma free_axes_resolved:
  assumes "GetInputMetadata v c = Inr (Some md)"
  shows "(free_width (descriptor c) \<longrightarrow>
            m_widths v \<noteq> [] \<and> (\<forall>w \<in> set (m_widths v). sizes (TensorDescriptor md) ! 3 = uint w))
       \<and> (free_height (descriptor c) \<longrightarrow>
            m_heights v \<noteq> [] \<and> (\<forall>h \<in> set (m_heights v). sizes (TensorDescriptor md) ! 2 = uint h))"
proof -
  from resolved_sizes [OF assms] obtain dw dh k where
    d: "GetInputMetadata_descriptor v (descriptor c) = Inr (Some (dw, dh, k))"
    and w: "sizes (TensorDescriptor md) ! 3 = uint dw"
    and h: "sizes (TensorDescriptor md) ! 2 = uint dh"
    by blast
  have 1: "m_widths v \<noteq> [] \<and> (\<forall>x \<in> set (m_widths v). x = dw)" if f: "free_width (descriptor c)"
  proof -
    from free_width_stage [OF d f]
    have "\<not> disagree (m_widths v)" and "vector_at (m_widths v) 0 = Inr dw" by simp_all
    then show ?thesis by (rule agree_all)
  qed
  have 2: "m_heights v \<noteq> [] \<and> (\<forall>x \<in> set (m_heights v). x = dh)" if f: "free_height (descriptor c)"
  proof -
    from free_height_stage [OF d f]
    have "\<not> disagree (m_heights v)" and "vector_at (m_heights v) 0 = Inr dh" by simp_all
    then show ?thesis by (rule agree_all)
  qed
  show ?thesis using 1 2 w h by simp
qed

lemma disagree_code: "disagree xs \<longleftrightarrow> adjacent_find_not_equal xs \<noteq> None"
  by (simp add: adjacent_find_None_iff)

lemma md100:
  "GetInputMetadata (Initialize [(100, 200), (100, 200), (100, 200)])
     \<lparr> binding_type = kInput,
       descriptor = AsImageFeatureDescriptor
         \<lparr> image_Width = MAXUINT32, image_Height = MAXUINT32, image_TensorKind = Float,
           image_BitmapPixelFormat = Bgra8 \<rparr>,
       properties = None, converter = None \<rparr>
   = Inr (Some \<lparr> Bounds = [\<lparr> X = 0, Y = 0, Width = 100, Height = 200 \<rparr>,
                            \<lparr> X = 0, Y = 0, Width = 100, Height = 200 \<rparr>,
                            \<lparr> X = 0, Y = 0, Width = 100, Height = 200 \<rparr>],
                  TensorDescriptor = \<lparr> dataType = kImageTensorDataTypeFloat32,
                                       channelType = kImageTensorChannelTypeBGR8,
                                       sizes = [3, 3, 200, 100] \<rparr> \<rparr>)"
  by (simp add: GetInputMetadata_def GetInputMetadata_descriptor_def
  GetInputMetadata_frame_bounds_def GetBoundsFromMetadata_def GetInputMetadata_pixelFormat_def
  GetBitmapPixelFormatFromMetadata_def CreateImageTensorDescriptor_def GetTensorDataTypeFromTensorKind_def
  CenterAndCropBounds_def Bgra8_def Rgba8_def Gray8_def Initialize_def vector_at_def crop100 upt3)

section \<open>Override bounds\<close>

text \<open>
  Claim C5, at a failing input: one frame of 10 by 10 and the override bounds
  \<open>[5, 5, 1000, 1000]\<close> in the property set. The resolution succeeds and its rectangle is
  the override as given, which reaches far outside the frame (``TODO: Validate Bounds'').
\<close>

theorem override_bounds_not_validated:
  "GetInputMetadata (Initialize [(10, 10)])
     \<lparr> binding_type = kInput,
       descriptor = AsImageFeatureDescriptor
         \<lparr> image_Width = 224, image_Height = 224, image_TensorKind = Float,
           image_BitmapPixelFormat = Bgra8 \<rparr>,
       properties = Some [''BitmapBounds'' \<mapsto> Some (UInt32ArrayValue [5, 5, 1000, 1000])],
       converter = None \<rparr>
   = Inr (Some \<lparr> Bounds = [\<lparr> X = 5, Y = 5, Width = 1000, Height = 1000 \<rparr>],
                  TensorDescriptor = \<lparr> dataType = kImageTensorDataTypeFloat32,
                                       channelType = kImageTensorChannelTypeBGR8,
                                       sizes = [1, 3, 224, 224] \<rparr> \<rparr>)
   \<and> \<not> unat (X \<lparr> X = 5, Y = 5, Width = 1000, Height = 1000 \<rparr>)
         + unat (Width \<lparr> X = 5, Y = 5, Width = 1000, Height = 1000 \<rparr>) \<le> unat (10 :: u32)"
  by (simp add: GetInputMetadata_def GetInputMetadata_descriptor_def Initialize_def MAXUINT32_def
      GetInputMetadata_frame_bounds_def GetBoundsFromMetadata_def GetInputMetadata_pixelFormat_def
      GetBitmapPixelFormatFromMetadata_def CreateImageTensorDescriptor_def GetTensorDataTypeFromTensorKind_def
      Bgra8_def Rgba8_def Gray8_def)

section \<open>Reading back through a declined descriptor\<close>

lemma frame_bounds_adapter:
  "GetInputMetadata_frame_bounds (v \<lparr> m_adapter := a \<rparr>) c w h i = GetInputMetadata_frame_bounds v c w h i"
  by (simp add: GetInputMetadata_frame_bounds_def CenterAndCropBounds_def
      cong: sum.case_cong option.case_cong if_cong)

lemma bounds_adapter:
  "GetInputMetadata_bounds (v \<lparr> m_adapter := a \<rparr>) c w h is = GetInputMetadata_bounds v c w h is"
  by (induction "is") (simp_all add: frame_bounds_adapter cong: sum.case_cong)

lemma descriptor_adapter:
  "GetInputMetadata_descriptor (v \<lparr> m_adapter := a \<rparr>) d = GetInputMetadata_descriptor v d"
  by (simp add: GetInputMetadata_descriptor_def
      cong: descriptor.case_cong sum.case_cong if_cong)

lemma GetInputMetadata_adapter:
  "GetInputMetadata (v \<lparr> m_adapter := a \<rparr>) c = GetInputMetadata v c"
  by (simp add: GetInputMetadata_def descriptor_adapter bounds_adapter
      cong: sum.case_cong option.case_cong prod.case_cong)

text \<open>
  Claim C10. When \<^verbatim>\<open>GetInputMetadata\<close> declines the context, \<^verbatim>\<open>UpdateSourceResourceData\<close>
  never returns an \<^verbatim>\<open>HRESULT\<close> of its own: once the adapter and the tensor data are
  obtained, \<^verbatim>\<open>metadata.value()\<close> on the empty optional throws, and the exception leaves the
  body. \<^verbatim>\<open>GetOrtValue\<close>, on frames of non-zero size, returns \<^verbatim>\<open>E_INVALIDARG\<close> for the same
  context.
\<close>

theorem readback_unguarded_optional:
  assumes "GetInputMetadata (self s) (binding s) = Inr None"
  shows "(\<forall>hr. fst (UpdateSourceResourceData env s) \<noteq> Returned hr)
     \<and> ((m_adapter (self s) \<or> OrtGetWinMLAdapter env = S_OK) \<and> GetTensorMutableData env = S_OK
          \<longrightarrow> fst (UpdateSourceResourceData env s) = Caught BadOptionalAccess)
     \<and> (list_all (\<lambda>i. i \<noteq> 0) (m_widths (self s)) \<and> list_all (\<lambda>i. i \<noteq> 0) (m_heights (self s))
          \<longrightarrow> fst (GetOrtValue env s) = Returned E_INVALIDARG)"
  using assms
  by (auto simp add: UpdateSourceResourceData_def GetOrtValue_def ensure_adapter_def GetInputMetadata_adapter)

theorem readback_unguarded_optional_witness:
  "fst (UpdateSourceResourceData (all_succeed True)
          (start [(640, 480)]
            \<lparr> binding_type = kOutput,
              descriptor = AsTensorFeatureDescriptor \<lparr> tensor_Shape = [3, 224, 224], tensor_TensorKind = Float \<rparr>,
              properties = None, converter = None \<rparr>)) = Caught BadOptionalAccess
   \<and> fst (GetOrtValue (all_succeed True)
          (start [(640, 480)]
            \<lparr> binding_type = kOutput,
              descriptor = AsTensorFeatureDescriptor \<lparr> tensor_Shape = [3, 224, 224], tensor_TensorKind = Float \<rparr>,
              properties = None, converter = None \<rparr>)) = Returned E_INVALIDARG"
  using readback_unguarded_optional
    [where s = "start [(640, 480)]
            \<lparr> binding_type = kOutput,
              descriptor = AsTensorFeatureDescriptor \<lparr> tensor_Shape = [3, 224, 224], tensor_TensorKind = Float \<rparr>,
              properties = None, converter = None \<rparr>"
      and env = "all_succeed True"]
  by (simp add: start_def Initialize_def all_succeed_def GetInputMetadata_def GetInputMetadata_descriptor_def)

section \<open>Converters parked on the binding context\<close>

lemma md224:
  "GetInputMetadata (Initialize [(224, 224), (224, 224)])
        \<lparr> binding_type = kInput,
          descriptor = AsImageFeatureDescriptor
            \<lparr> image_Width = 224, image_Height = 224, image_TensorKind = Float,
              image_BitmapPixelFormat = Bgra8 \<rparr>,
          properties = None, converter = None \<rparr>
   = Inr (Some \<lparr> Bounds = [\<lparr> X = 0, Y = 0, Width = 224, Height = 224 \<rparr>, \<lparr> X = 0, Y = 0, Width = 224, Height = 224 \<rparr>],
                  TensorDescriptor = \<lparr> dataType = kImageTensorDataTypeFloat32,
                                       channelType = kImageTensorChannelTypeBGR8,
                                       sizes = [2, 3, 224, 224] \<rparr> \<rparr>)"
  by (simp add: metadata_eval Initialize_def vector_at_def crop224 upt2)

text \<open>
  Claim C1, at a failing input: a batch of two frames of 224 by 224, bound as input on the
  GPU. \<^verbatim>\<open>GetOrtValue\<close> returns \<^verbatim>\<open>S_OK\<close>, and by then the converter fetched for frame 0 has
  gone back to the pool: the assignment \<^verbatim>\<open>context.converter = pooledConverter\<close> for frame 1
  released it. Only the converter of the last frame is still parked on the context.
\<close>

theorem gpu_batch_returns_first_converter_early:
  "trace (snd (GetOrtValue (all_succeed False)
     (start [(224, 224), (224, 224)]
        \<lparr> binding_type = kInput,
          descriptor = AsImageFeatureDescriptor
            \<lparr> image_Width = 224, image_Height = 224, image_TensorKind = Float,
              image_BitmapPixelFormat = Bgra8 \<rparr>,
          properties = None, converter = None \<rparr>)))
   = [Fetched (Tensorizer, \<lparr> pixel_format = 88, width = 224, height = 224, luid = 1 \<rparr>, 0),
           VideoFrameToDX12Tensor 0 \<lparr> X = 0, Y = 0, Width = 224, Height = 224 \<rparr>
             (Tensorizer, \<lparr> pixel_format = 88, width = 224, height = 224, luid = 1 \<rparr>, 0),
           Fetched (Tensorizer, \<lparr> pixel_format = 88, width = 224, height = 224, luid = 1 \<rparr>, 1),
           VideoFrameToDX12Tensor 1 \<lparr> X = 0, Y = 0, Width = 224, Height = 224 \<rparr>
             (Tensorizer, \<lparr> pixel_format = 88, width = 224, height = 224, luid = 1 \<rparr>, 1),
           ReturnedToPool (Tensorizer, \<lparr> pixel_format = 88, width = 224, height = 224, luid = 1 \<rparr>, 0)]
   \<and> fst (GetOrtValue (all_succeed False)
     (start [(224, 224), (224, 224)]
        \<lparr> binding_type = kInput,
          descriptor = AsImageFeatureDescriptor
            \<lparr> image_Width = 224, image_Height = 224, image_TensorKind = Float,
              image_BitmapPixelFormat = Bgra8 \<rparr>,
          properties = None, converter = None \<rparr>)) = Returned S_OK"
  using md224
  by (simp add: GetOrtValue_def GetOrtValue_tensorize_def ensure_adapter_def singleFrameBufferSize_def
      mul_int64_def GetSizeFromTensorDataType_def pool_eval upt2)

section \<open>Frame offsets on the CPU path\<close>

lemma md20000:
  "GetInputMetadata (Initialize [(20000, 20000), (20000, 20000)])
        \<lparr> binding_type = kInput,
          descriptor = AsImageFeatureDescriptor
            \<lparr> image_Width = 20000, image_Height = 20000, image_TensorKind = Float,
              image_BitmapPixelFormat = Bgra8 \<rparr>,
          properties = None, converter = None \<rparr>
   = Inr (Some \<lparr> Bounds = [\<lparr> X = 0, Y = 0, Width = 20000, Height = 20000 \<rparr>,
                            \<lparr> X = 0, Y = 0, Width = 20000, Height = 20000 \<rparr>],
                  TensorDescriptor = \<lparr> dataType = kImageTensorDataTypeFloat32,
                                       channelType = kImageTensorChannelTypeBGR8,
                                       sizes = [2, 3, 20000, 20000] \<rparr> \<rparr>)"
  by (simp add: metadata_eval Initialize_def vector_at_def crop20000 upt2)

text \<open>
  Claim C7, at a failing input: two frames bound as input on the CPU against an image
  descriptor of 20000 by 20000, tensor kind \<^verbatim>\<open>Float\<close>. One frame of the tensor takes
  4800000000 bytes, and frame 1 is written at offset 505032704, which is that size modulo
  \<open>2 ^ 32\<close>.
\<close>

theorem cpu_frame_offset_truncated:
  "singleFrameBufferSize
     \<lparr> dataType = kImageTensorDataTypeFloat32, channelType = kImageTensorChannelTypeBGR8,
       sizes = [2, 3, 20000, 20000] \<rparr> 2 = Inr 4800000000
   \<and> trace (snd (GetOrtValue (all_succeed True)
     (start [(20000, 20000), (20000, 20000)]
        \<lparr> binding_type = kInput,
          descriptor = AsImageFeatureDescriptor
            \<lparr> image_Width = 20000, image_Height = 20000, image_TensorKind = Float,
              image_BitmapPixelFormat = Bgra8 \<rparr>,
          properties = None, converter = None \<rparr>)))
   = [Fetched (Tensorizer, \<lparr> pixel_format = 87, width = 20000, height = 20000, luid = 0 \<rparr>, 0),
      VideoFrameToSoftwareTensor 0 \<lparr> X = 0, Y = 0, Width = 20000, Height = 20000 \<rparr> 0
        (Tensorizer, \<lparr> pixel_format = 87, width = 20000, height = 20000, luid = 0 \<rparr>, 0),
      ReturnedToPool (Tensorizer, \<lparr> pixel_format = 87, width = 20000, height = 20000, luid = 0 \<rparr>, 0),
      Fetched (Tensorizer, \<lparr> pixel_format = 87, width = 20000, height = 20000, luid = 0 \<rparr>, 0),
      VideoFrameToSoftwareTensor 1 \<lparr> X = 0, Y = 0, Width = 20000, Height = 20000 \<rparr> 505032704
        (Tensorizer, \<lparr> pixel_format = 87, width = 20000, height = 20000, luid = 0 \<rparr>, 0),
      ReturnedToPool (Tensorizer, \<lparr> pixel_format = 87, width = 20000, height = 20000, luid = 0 \<rparr>, 0)]"
  using md20000
  by (simp add: GetOrtValue_def GetOrtValue_tensorize_def ensure_adapter_def singleFrameBufferSize_def
      mul_int64_def GetSizeFromTensorDataType_def pool_eval upt2 CPUTensorize_frame_def Bgra8_def)

section \<open>Rounding to single precision\<close>

lemma log2_floor_bounds:
  "0 < n \<Longrightarrow> 2 ^ log2_floor n \<le> n \<and> n < 2 ^ Suc (log2_floor n)"
proof (induction n rule: log2_floor.induct)
  case (1 n)
  show ?case
  proof (cases "n < 2")
    case True
    with 1(2) show ?thesis by (simp add: log2_floor.simps [of n])
  next
    case False
    then have "0 < n div 2" by simp
    with 1(1) False have ih: "2 ^ log2_floor (n div 2) \<le> n div 2 \<and> n div 2 < 2 ^ Suc (log2_floor (n div 2))"
      by simp
    have l: "log2_floor n = Suc (log2_floor (n div 2))"
      using False by (simp add: log2_floor.simps [of n])
    from ih show ?thesis unfolding l by (simp; linarith)
  qed
qed

lemma log2_ceil_bounds:
  "1 < n \<Longrightarrow> 2 ^ (log2_ceil n - 1) < n \<and> n \<le> 2 ^ log2_ceil n"
  using log2_floor_bounds [of "n - 1"]
  by (simp add: log2_ceil_def; linarith)

lemma ilog2_bounds:
  assumes "0 < x"
  shows "2 powi ilog2 x \<le> x \<and> x < 2 powi (ilog2 x + 1)"
proof (cases "1 \<le> x")
  case True
  define n where "n = nat \<lfloor>x\<rfloor>"
  have n: "0 < n" "of_nat n \<le> x" "x < of_nat n + 1"
    using True by (simp_all add: n_def; linarith)+
  have e: "ilog2 x = int (log2_floor n)"
    using True by (simp add: ilog2_def n_def)
  from log2_floor_bounds [OF n(1)]
  have b: "(2::nat) ^ log2_floor n \<le> n" "n + 1 \<le> 2 ^ Suc (log2_floor n)" by simp_all
  have "(of_nat (2 ^ log2_floor n) :: rat) \<le> of_nat n"
    using b(1) by (rule of_nat_mono)
  then have "(2::rat) ^ log2_floor n \<le> of_nat n" by simp
  moreover have "(of_nat (n + 1) :: rat) \<le> of_nat (2 ^ Suc (log2_floor n))"
    using b(2) by (rule of_nat_mono)
  then have "of_nat n + 1 \<le> (2::rat) ^ Suc (log2_floor n)" by simp
  ultimately show ?thesis
    using n unfolding e by (simp add: power_int_add power_int_of_nat; linarith)
next
  case False
  define n where "n = nat \<lceil>1 / x\<rceil>"
  have x1: "1 < 1 / x" using False assms by simp
  then have c: "1 < \<lceil>1 / x\<rceil>" by linarith
  then have n: "1 < n" by (simp add: n_def)
  have nx: "1 / x \<le> of_nat n" "of_nat n < 1 / x + 1"
    using c by (simp_all add: n_def; linarith)+
  have e: "ilog2 x = - int (log2_ceil n)"
    using False by (simp add: ilog2_def n_def)
  from log2_ceil_bounds [OF n]
  have b: "(2::nat) ^ (log2_ceil n - 1) + 1 \<le> n" "n \<le> 2 ^ log2_ceil n" by simp_all
  have k: "0 < log2_ceil n" using n by (simp add: log2_ceil_def)
  have "(of_nat n :: rat) \<le> of_nat (2 ^ log2_ceil n)"
    using b(2) by (rule of_nat_mono)
  then have 1: "of_nat n \<le> (2::rat) ^ log2_ceil n" by simp
  have "(of_nat (2 ^ (log2_ceil n - 1) + 1) :: rat) \<le> of_nat n"
    using b(1) by (rule of_nat_mono)
  then have 2: "(2::rat) ^ (log2_ceil n - 1) + 1 \<le> of_nat n" by simp
  have lo: "1 / x \<le> (2::rat) ^ log2_ceil n" using nx(1) 1 by linarith
  have hi: "(2::rat) ^ (log2_ceil n - 1) < 1 / x" using nx(2) 2 by linarith
  have A: "2 powi (- int (log2_ceil n)) \<le> x"
  proof -
    have "1 / (2::rat) ^ log2_ceil n \<le> x"
      using lo assms by (simp add: field_simps)
    then show ?thesis by (simp add: power_int_minus power_int_of_nat inverse_eq_divide)
  qed
  have B: "x < 2 powi (- int (log2_ceil n) + 1)"
  proof -
    have "- int (log2_ceil n) + 1 = - int (log2_ceil n - 1)" using k by simp
    moreover have "x < 1 / (2::rat) ^ (log2_ceil n - 1)"
      using hi assms by (simp add: field_simps)
    ultimately show ?thesis
      by (simp only: power_int_minus power_int_of_nat inverse_eq_divide)
  qed
  show ?thesis unfolding e using A B by simp
qed

lemma ilog2_ge:
  assumes "0 < x" and "2 powi k \<le> x"
  shows "k \<le> ilog2 x"
proof -
  have *: "(2::rat) powi k < 2 powi (ilog2 x + 1)"
    using ilog2_bounds [OF assms(1)] assms(2) by linarith
  have "k < ilog2 x + 1"
  proof (rule ccontr)
    assume "\<not> k < ilog2 x + 1"
    then have "ilog2 x + 1 \<le> k" by simp
    then have "(2::rat) powi (ilog2 x + 1) \<le> 2 powi k"
      by (rule power_int_increasing) simp
    with * show False by simp
  qed
  then show ?thesis by simp
qed

lemma ilog2_less:
  assumes "0 < x" and "x < 2 powi k"
  shows "ilog2 x < k"
proof -
  have *: "(2::rat) powi ilog2 x < 2 powi k"
    using ilog2_bounds [OF assms(1)] assms(2) by linarith
  show ?thesis
  proof (rule ccontr)
    assume "\<not> ilog2 x < k"
    then have "k \<le> ilog2 x" by simp
    then have "(2::rat) powi k \<le> 2 powi ilog2 x"
      by (rule power_int_increasing) simp
    with * show False by simp
  qed
qed

lemma round_half_even_error: "\<bar>of_int (round_half_even m) - m\<bar> \<le> 1 / 2"
proof -
  have f: "of_int \<lfloor>m\<rfloor> \<le> m" "m < of_int \<lfloor>m\<rfloor> + 1" by linarith+
  consider "m - of_int \<lfloor>m\<rfloor> < 1 / 2" | "1 / 2 < m - of_int \<lfloor>m\<rfloor>"
    | "m - of_int \<lfloor>m\<rfloor> = 1 / 2" by linarith
  then show ?thesis
  proof cases
    case 1
    then have "round_half_even m = \<lfloor>m\<rfloor>" by (simp add: round_half_even_def Let_def)
    with 1 f show ?thesis by simp
  next
    case 2
    then have "round_half_even m = \<lfloor>m\<rfloor> + 1" by (simp add: round_half_even_def Let_def)
    with 2 f show ?thesis by simp
  next
    case 3
    then have "round_half_even m = \<lfloor>m\<rfloor> \<or> round_half_even m = \<lfloor>m\<rfloor> + 1"
      by (simp add: round_half_even_def Let_def)
    with 3 f show ?thesis by auto
  qed
qed

lemma round_half_even_of_int [simp]: "round_half_even (of_int k) = k"
  by (simp add: round_half_even_def Let_def)

lemma f32_round_normal:
  assumes lo: "2 powi (- 126) \<le> x" and hi: "x < 2 ^ 127"
  shows "\<exists>y. f32_round x = Finite y \<and> \<bar>y - x\<bar> \<le> x / 2 ^ 24"
proof -
  have pos: "0 < x"
  proof -
    have "(0::rat) < 2 powi (- 126)" by (simp add: power_int_def)
    with lo show ?thesis by linarith
  qed
  define e where "e = ilog2 x"
  define ulp :: rat where "ulp = 2 powi (e - 23)"
  define y where "y = of_int (round_half_even (x / ulp)) * ulp"
  have e: "- 126 \<le> e" unfolding e_def using pos lo by (rule ilog2_ge)
  have ulp_pos: "0 < ulp" by (simp add: ulp_def)
  have ulp_eq: "ulp = 2 powi e / 2 ^ 23"
    by (simp add: ulp_def power_int_diff)
  have ex: "2 powi e \<le> x" using ilog2_bounds [OF pos] by (simp add: e_def)
  have "\<bar>y - x\<bar> = \<bar>of_int (round_half_even (x / ulp)) - x / ulp\<bar> * ulp"
  proof -
    have "y - x = (of_int (round_half_even (x / ulp)) - x / ulp) * ulp"
      using ulp_pos by (simp add: y_def field_simps)
    then show ?thesis using ulp_pos by (simp add: abs_mult)
  qed
  also have "\<dots> \<le> 1 / 2 * ulp"
    using round_half_even_error [of "x / ulp"] ulp_pos by (intro mult_right_mono) simp_all
  also have "\<dots> = 2 powi e / 2 ^ 24" by (simp add: ulp_eq)
  also have "\<dots> \<le> x / 2 ^ 24" using ex by (simp add: divide_right_mono)
  finally have err: "\<bar>y - x\<bar> \<le> x / 2 ^ 24" .
  have "y \<le> x + x / 2 ^ 24" using err by linarith
  also have "\<dots> < 2 ^ 128" using hi by simp
  finally have "\<not> 2 ^ 128 \<le> y" by simp
  moreover have "max (ilog2 x) (- 126) = e" using e by (simp add: e_def)
  ultimately have "f32_round x = Finite y"
    using pos by (simp add: f32_round_def Let_def y_def ulp_def)
  with err show ?thesis by blast
qed

lemma f32_round_of_nat:
  assumes "n < 2 ^ 24"
  shows "f32_round (of_nat n) = Finite (of_nat n)"
proof (cases "n = 0")
  case True
  then show ?thesis by (simp add: f32_round_def)
next
  case False
  define x :: rat where "x = of_nat n"
  define e where "e = ilog2 x"
  have pos: "0 < x" using False by (simp add: x_def)
  have "(1::rat) \<le> of_nat n" using False by (simp add: Suc_leI)
  then have "2 powi 0 \<le> x" by (simp add: x_def)
  with pos have e0: "0 \<le> e" unfolding e_def by (rule ilog2_ge)
  have "(of_nat n :: rat) < of_nat (2 ^ 24)" using assms by (simp only: of_nat_less_iff)
  then have "x < 2 powi 24" by (simp add: x_def)
  with pos have e24: "e < 24" unfolding e_def by (rule ilog2_less)
  define j where "j = nat (23 - e)"
  have ulp: "(2::rat) powi (e - 23) = 1 / 2 ^ j"
  proof -
    have "e - 23 = - int j" using e24 by (simp add: j_def)
    then show ?thesis by (simp add: power_int_minus power_int_of_nat inverse_eq_divide)
  qed
  have m: "x * 2 ^ j = of_int (int n * 2 ^ j)" by (simp add: x_def)
  have y: "of_int (round_half_even (x * 2 ^ j)) / 2 ^ j = x"
    unfolding m round_half_even_of_int by (simp add: x_def)
  have "x < 2 ^ 128"
  proof -
    have "(of_nat n :: rat) < of_nat (2 ^ 128)" using assms by (simp only: of_nat_less_iff) simp
    then show ?thesis by (simp add: x_def)
  qed
  then have "\<not> 2 ^ 128 \<le> x" by simp
  moreover have "max (ilog2 x) (- 126) = e" using e0 by (simp add: e_def)
  ultimately have "f32_round x = Finite x"
    using pos by (simp add: f32_round_def Let_def ulp y)
  then show ?thesis by (simp add: x_def)
qed

lemma f32_of_u32_exact:
  "unat w < 2 ^ 24 \<Longrightarrow> f32_of_u32 w = Finite (of_nat (unat w))"
  unfolding f32_of_u32_def by (rule f32_round_of_nat)

section \<open>The crop against the stated algorithm\<close>

lemma unat_min: "unat (min c w) = min (unat c) (unat w)" for c w :: u32
  by (simp add: min_def word_le_nat_alt)

lemma unat_offset: "unat ((w - min c w) div 2) = (unat w - min (unat c) (unat w)) div 2" for c w :: u32
proof -
  have "min c w \<le> w" by simp
  then have "unat (w - min c w) = unat w - unat (min c w)" by (rule unat_sub)
  then show ?thesis by (simp add: unat_div unat_min)
qed

lemma offset_le: "(w - min c w) div 2 \<le> w" for c w :: u32
  by (simp add: word_le_nat_alt unat_offset)

lemma unat_cast:
  assumes "0 \<le> q" and "q < 2 ^ 32"
  shows "unat (word_of_int \<lfloor>q\<rfloor> :: u32) = nat \<lfloor>q\<rfloor>"
proof -
  have "0 \<le> \<lfloor>q\<rfloor>" using assms(1) by simp
  moreover have "\<lfloor>q\<rfloor> < 2 ^ 32" using assms(2) by (simp add: floor_less_iff)
  ultimately show ?thesis
    by (simp add: unat_eq_nat_uint uint_word_of_int take_bit_int_eq_self)
qed

lemma center_crop_wide:
  fixes w h :: u32
  assumes "f32_div (f32_of_u32 dw) (f32_of_u32 dh) = Finite r"
    and "f32_of_u32 h = Finite fh" and "f32_of_u32 w = Finite fw"
    and "f32_round (r * fh) = Finite p" and "p < fw"
    and "f32_round (p + 1 / 2) = Finite c" and "0 \<le> c" and "c < 2 ^ 32"
  shows "center_crop w h dw dh =
           Inr \<lparr> X = (w - min (word_of_int \<lfloor>c\<rfloor>) w) div 2, Y = 0,
                 Width = min (word_of_int \<lfloor>c\<rfloor>) w, Height = h \<rparr>"
  using assms by (simp add: center_crop_def Let_def offset_le)

lemma center_crop_tall:
  fixes w h :: u32
  assumes "f32_div (f32_of_u32 dw) (f32_of_u32 dh) = Finite r"
    and "f32_of_u32 h = Finite fh" and "f32_of_u32 w = Finite fw"
    and "f32_round (r * fh) = Finite p" and "\<not> p < fw" and "r \<noteq> 0"
    and "f32_round (fw / r) = Finite q"
    and "f32_round (q + 1 / 2) = Finite c" and "0 \<le> c" and "c < 2 ^ 32"
  shows "center_crop w h dw dh =
           Inr \<lparr> X = 0, Y = (h - min (word_of_int \<lfloor>c\<rfloor>) h) div 2,
                 Width = w, Height = min (word_of_int \<lfloor>c\<rfloor>) h \<rparr>"
  using assms by (simp add: center_crop_def Let_def offset_le)

lemma of_nat_lt_2p32:
  "n < 2 ^ 24 \<Longrightarrow> (of_nat n :: rat) < 2 ^ 32"
proof -
  assume "n < 2 ^ 24"
  then have "n < 2 ^ 32" by simp
  then have "(of_nat n :: rat) < of_nat (2 ^ 32)" by (simp only: of_nat_less_iff)
  then show ?thesis by simp
qed

lemma word_of_unat: "unat a = n \<Longrightarrow> a = (of_nat n :: u32)"
  by auto

lemma crop_when_exact:
  fixes W H tw th :: u32
  assumes small: "unat W < 2 ^ 24" "unat H < 2 ^ 24" "unat tw < 2 ^ 24" "unat th < 2 ^ 24"
    and nz: "tw \<noteq> 0" "th \<noteq> 0"
    and r: "exact (of_nat (unat tw) / of_nat (unat th))"
    and p: "exact (of_nat (unat tw) / of_nat (unat th) * of_nat (unat H))"
    and wide: "of_nat (unat tw) / of_nat (unat th) * of_nat (unat H) < (of_nat (unat W) :: rat)
         \<longrightarrow> exact (of_nat (unat tw) / of_nat (unat th) * of_nat (unat H) + 1 / 2)"
    and tall: "\<not> of_nat (unat tw) / of_nat (unat th) * of_nat (unat H) < (of_nat (unat W) :: rat)
         \<longrightarrow> exact (of_nat (unat W) / (of_nat (unat tw) / of_nat (unat th)))
           \<and> exact (of_nat (unat W) / (of_nat (unat tw) / of_nat (unat th)) + 1 / 2)"
  shows "center_crop W H tw th
           = Inr (rectangle (spec_center_crop (unat W) (unat H) (unat tw) (unat th)))"
proof -
  define r :: rat where "r = of_nat (unat tw) / of_nat (unat th)"
  define fw :: rat where "fw = of_nat (unat W)"
  define fh :: rat where "fh = of_nat (unat H)"
  have twpos: "0 < unat tw" and thpos: "0 < unat th"
    using nz by (simp_all add: unat_gt_0)
  have "0 < (of_nat (unat tw) :: rat)" and thr: "0 < (of_nat (unat th) :: rat)"
    using twpos thpos by (simp_all only: of_nat_0_less_iff)
  then have rpos: "0 < r" unfolding r_def by (rule divide_pos_pos)
  have fh0: "0 \<le> fh" and fw0: "0 \<le> fw" unfolding fh_def fw_def by (rule of_nat_0_le_iff)+
  have fwlt: "fw < 2 ^ 32" and fhlt: "fh < 2 ^ 32"
    unfolding fw_def fh_def using small by (simp_all only: of_nat_lt_2p32)
  have conv: "f32_of_u32 W = Finite fw" "f32_of_u32 H = Finite fh"
    "f32_of_u32 tw = Finite (of_nat (unat tw))" "f32_of_u32 th = Finite (of_nat (unat th))"
    using small by (simp_all only: f32_of_u32_exact fw_def fh_def)
  have ratio: "f32_div (f32_of_u32 tw) (f32_of_u32 th) = Finite r"
    using r thr unfolding conv exact_def r_def by simp
  have prod: "f32_round (r * fh) = Finite (r * fh)"
    using p by (simp add: exact_def r_def fh_def)
  show ?thesis
  proof (cases "r * fh < fw")
    case True
    have c: "f32_round (r * fh + 1 / 2) = Finite (r * fh + 1 / 2)"
      using wide True by (simp add: exact_def r_def fh_def fw_def)
    have c0: "0 \<le> r * fh + 1 / 2" using rpos fh0 by simp
    have c32: "r * fh + 1 / 2 < 2 ^ 32"
    proof -
      have "fw \<le> 2 ^ 24"
        unfolding fw_def using small(1)
        by (metis of_nat_less_iff of_nat_numeral of_nat_power less_imp_le)
      then show ?thesis using True by simp
    qed
    have cc: "center_crop W H tw th =
           Inr \<lparr> X = (W - min (word_of_int \<lfloor>r * fh + 1 / 2\<rfloor>) W) div 2, Y = 0,
                 Width = min (word_of_int \<lfloor>r * fh + 1 / 2\<rfloor>) W, Height = H \<rparr>"
      by (rule center_crop_wide [OF ratio conv(2) conv(1) prod True c c0 c32])
    have u: "unat (word_of_int \<lfloor>r * fh + 1 / 2\<rfloor> :: u32) = round_half_up (r * fh)"
      using unat_cast [OF c0 c32] by (simp add: round_half_up_def)
    have sp: "spec_center_crop (unat W) (unat H) (unat tw) (unat th)
        = ((unat W - min (round_half_up (r * fh)) (unat W)) div 2, 0,
           min (round_half_up (r * fh)) (unat W), unat H)"
      using True by (simp add: spec_center_crop_def Let_def r_def fh_def fw_def)
    have w: "min (word_of_int \<lfloor>r * fh + 1 / 2\<rfloor>) W = (of_nat (min (round_half_up (r * fh)) (unat W)) :: u32)"
      by (rule word_of_unat) (simp only: unat_min u)
    have x: "(W - min (word_of_int \<lfloor>r * fh + 1 / 2\<rfloor>) W) div 2
          = (of_nat ((unat W - min (round_half_up (r * fh)) (unat W)) div 2) :: u32)"
      by (rule word_of_unat) (simp only: unat_offset u)
    note x' = x [unfolded w]
    show ?thesis
      unfolding cc sp rectangle_def by (simp add: w x')
  next
    case False
    have q: "f32_round (fw / r) = Finite (fw / r)"
      and c: "f32_round (fw / r + 1 / 2) = Finite (fw / r + 1 / 2)"
      using tall False by (simp_all add: exact_def r_def fh_def fw_def)
    have c0: "0 \<le> fw / r + 1 / 2" using rpos fw0 by simp
    have le: "fw / r \<le> fh" using False rpos by (simp add: field_simps)
    have c32: "fw / r + 1 / 2 < 2 ^ 32"
    proof -
      have "fh \<le> 2 ^ 24"
        unfolding fh_def using small(2)
        by (metis of_nat_less_iff of_nat_numeral of_nat_power less_imp_le)
      then show ?thesis using le by simp
    qed
    have rn: "r \<noteq> 0" using rpos by simp
    have cc: "center_crop W H tw th =
           Inr \<lparr> X = 0, Y = (H - min (word_of_int \<lfloor>fw / r + 1 / 2\<rfloor>) H) div 2,
                 Width = W, Height = min (word_of_int \<lfloor>fw / r + 1 / 2\<rfloor>) H \<rparr>"
      by (rule center_crop_tall [OF ratio conv(2) conv(1) prod False rn q c c0 c32])
    have u: "unat (word_of_int \<lfloor>fw / r + 1 / 2\<rfloor> :: u32) = round_half_up (fw / r)"
      using unat_cast [OF c0 c32] by (simp add: round_half_up_def)
    have sp: "spec_center_crop (unat W) (unat H) (unat tw) (unat th)
        = (0, (unat H - min (round_half_up (fw / r)) (unat H)) div 2, unat W,
           min (round_half_up (fw / r)) (unat H))"
      using False by (simp add: spec_center_crop_def Let_def r_def fh_def fw_def)
    have h: "min (word_of_int \<lfloor>fw / r + 1 / 2\<rfloor>) H = (of_nat (min (round_half_up (fw / r)) (unat H)) :: u32)"
      by (rule word_of_unat) (simp only: unat_min u)
    have y: "(H - min (word_of_int \<lfloor>fw / r + 1 / 2\<rfloor>) H) div 2
          = (of_nat ((unat H - min (round_half_up (fw / r)) (unat H)) div 2) :: u32)"
      by (rule word_of_unat) (simp only: unat_offset u)
    note y' = y [unfolded h]
    show ?thesis
      unfolding cc sp rectangle_def by (simp add: h y')
  qed
qed

section \<open>The crop stays in the frame and keeps the aspect ratio\<close>

lemma wide_within_one:
  fixes t s p c w :: rat and n :: int
  assumes t0: "0 \<le> t"
    and st: "\<bar>s - t\<bar> \<le> t / 2 ^ 24"
    and ps: "\<bar>p - s\<bar> \<le> s / 2 ^ 24"
    and pw: "p < w" and w: "w < 2 ^ 21"
    and cp: "\<bar>c - (p + 1 / 2)\<bar> \<le> (p + 1 / 2) / 2 ^ 24"
    and n: "of_int n \<le> c" "c < of_int n + 1"
  shows "\<bar>min (of_int n) w - t\<bar> \<le> 1"
proof -
  have "\<bar>s - t\<bar> \<le> t / 16777216" using st by simp
  then have 1: "s - t \<le> t / 16777216" "t - s \<le> t / 16777216" by linarith+
  have "\<bar>p - s\<bar> \<le> s / 16777216" using ps by simp
  then have 2: "p - s \<le> s / 16777216" "s - p \<le> s / 16777216" by linarith+
  define d where "d = p + 1 / 2"
  have "\<bar>c - d\<bar> \<le> d / 16777216" using cp by (simp add: d_def)
  then have 3: "c - d \<le> d / 16777216" "d - c \<le> d / 16777216"
    by linarith+
  have d: "d = p + 1 / 2" by (simp add: d_def)
  have 4: "p < 2097152" using w pw by simp
  have s: "s < 2097153" using 2(2) 4 by linarith
  have t: "t < 2097154" using 1(2) s by linarith
  have ts: "s - t \<le> 63 / 500" "t - s \<le> 63 / 500" using 1 t by linarith+
  have sp: "p - s \<le> 63 / 500" "s - p \<le> 63 / 500" using 2 s by linarith+
  have pc: "c - (p + 1 / 2) \<le> 63 / 500" "(p + 1 / 2) - c \<le> 63 / 500" using 3 4 d by linarith+
  show ?thesis
  proof (cases "of_int n \<le> w")
    case True
    then have "min (of_int n) w = of_int n" by simp
    moreover have "of_int n - t \<le> 1" using ts sp pc n by linarith
    moreover have "t - of_int n \<le> 1" using ts sp pc n by linarith
    ultimately show ?thesis by (simp add: abs_le_iff)
  next
    case False
    then have "min (of_int n) w = w" by simp
    moreover have "w - t \<le> 1" using ts sp pc n False by linarith
    moreover have "t - w \<le> 1" using ts sp pc n pw by linarith
    ultimately show ?thesis by (simp add: abs_le_iff)
  qed
qed

lemma tall_within_one:
  fixes t s q c h :: rat and n :: int
  assumes s0: "0 \<le> s"
    and st: "\<bar>s - t\<bar> \<le> s / 2 ^ 24"
    and qs: "\<bar>q - s\<bar> \<le> s / 2 ^ 24"
    and sh: "s \<le> (1 + 1 / 2 ^ 24) * h" and h: "h < 2 ^ 21"
    and cq: "\<bar>c - (q + 1 / 2)\<bar> \<le> (q + 1 / 2) / 2 ^ 24"
    and n: "of_int n \<le> c" "c < of_int n + 1"
  shows "\<bar>min (of_int n) h - t\<bar> \<le> 1"
proof -
  have "\<bar>s - t\<bar> \<le> s / 16777216" using st by simp
  then have 1: "s - t \<le> s / 16777216" "t - s \<le> s / 16777216" by linarith+
  have "\<bar>q - s\<bar> \<le> s / 16777216" using qs by simp
  then have 2: "q - s \<le> s / 16777216" "s - q \<le> s / 16777216" by linarith+
  define d where "d = q + 1 / 2"
  have "\<bar>c - d\<bar> \<le> d / 16777216" using cq by (simp add: d_def)
  then have 3: "c - d \<le> d / 16777216" "d - c \<le> d / 16777216"
    by linarith+
  have d: "d = q + 1 / 2" by (simp add: d_def)
  have 4: "h < 2097152" using h by simp
  have "s \<le> h + h / 16777216" using sh by (simp add: algebra_simps)
  then have sh': "s \<le> h + 1 / 8" using 4 by linarith
  then have s: "s < 2097153" using 4 by linarith
  have ts: "s - t \<le> 63 / 500" "t - s \<le> 63 / 500" using 1 s by linarith+
  have sq: "q - s \<le> 63 / 500" "s - q \<le> 63 / 500" using 2 s by linarith+
  have q: "q < 2097154" using sq s by linarith
  have qc: "c - (q + 1 / 2) \<le> 63 / 500" "(q + 1 / 2) - c \<le> 63 / 500" using 3 q d by linarith+
  show ?thesis
  proof (cases "of_int n \<le> h")
    case True
    then have "min (of_int n) h = of_int n" by simp
    moreover have "of_int n - t \<le> 1" using ts sq qc n by linarith
    moreover have "t - of_int n \<le> 1" using ts sq qc n by linarith
    ultimately show ?thesis by (simp add: abs_le_iff)
  next
    case False
    then have "min (of_int n) h = h" by simp
    moreover have "h - t \<le> 1" using ts sq qc n False by linarith
    moreover have "t - h \<le> 1" using ts sh' by linarith
    ultimately show ?thesis by (simp add: abs_le_iff)
  qed
qed

lemma scale_error:
  fixes r \<rho> h :: rat
  assumes "\<bar>r - \<rho>\<bar> \<le> \<rho> / 2 ^ 24" and "0 \<le> h"
  shows "\<bar>r * h - \<rho> * h\<bar> \<le> \<rho> * h / 2 ^ 24"
proof -
  have "\<bar>r * h - \<rho> * h\<bar> = \<bar>r - \<rho>\<bar> * h"
    using assms(2) by (simp add: abs_mult flip: left_diff_distrib)
  also have "\<dots> \<le> \<rho> / 2 ^ 24 * h"
    using assms by (rule mult_right_mono)
  finally show ?thesis by simp
qed

lemma inverse_error:
  fixes r \<rho> w :: rat
  assumes r: "0 < r" and p: "0 < \<rho>" and e: "\<bar>r - \<rho>\<bar> \<le> \<rho> / 2 ^ 24" and w: "0 \<le> w"
  shows "\<bar>w / r - w / \<rho>\<bar> \<le> w / r / 2 ^ 24"
proof -
  have "w / r - w / \<rho> = (\<rho> - r) * (w / (r * \<rho>))"
    using r p by (simp add: field_simps)
  then have "\<bar>w / r - w / \<rho>\<bar> = \<bar>r - \<rho>\<bar> * (w / (r * \<rho>))"
    using r p w by (simp add: abs_mult abs_minus_commute)
  also have "\<dots> \<le> \<rho> / 2 ^ 24 * (w / (r * \<rho>))"
    using e by (rule mult_right_mono) (use r p w in simp)
  also have "\<dots> = w / r / 2 ^ 24"
    using r p by simp
  finally show ?thesis .
qed

lemma quotient_bound:
  fixes r w h k :: rat
  assumes "0 < r" and "w \<le> k * (r * h)"
  shows "w / r \<le> k * h"
  using assms by (simp add: field_simps)

lemma round_lower:
  fixes y x :: rat
  assumes "\<bar>y - x\<bar> \<le> x / 2 ^ 24" and "0 < x"
  shows "0 < y" and "y \<le> (1 + 1 / 2 ^ 24) * x"
proof -
  have "\<bar>y - x\<bar> \<le> x / 16777216" using assms(1) by simp
  then have "x - y \<le> x / 16777216" "y - x \<le> x / 16777216" by linarith+
  then show "0 < y" and "y \<le> (1 + 1 / 2 ^ 24) * x"
    using assms(2) by (simp_all add: algebra_simps; linarith)+
qed

lemma f32_round_mid:
  assumes "1 / 2 ^ 30 \<le> x" and "x < 2 ^ 60"
  shows "\<exists>y. f32_round x = Finite y \<and> \<bar>y - x\<bar> \<le> x / 2 ^ 24"
proof (rule f32_round_normal)
  have "(2::rat) powi (- 126) \<le> 1 / 2 ^ 30"
    by (simp add: powi2_neg)
  with assms(1) show "2 powi (- 126) \<le> x" by linarith
  have "(2::rat) ^ 60 \<le> 2 ^ 127" by simp
  with assms(2) show "x < 2 ^ 127" by linarith
qed

lemma ratio_to_int:
  fixes cw a b fh :: nat
  assumes "0 < b" and "\<bar>of_nat cw - (of_nat a / of_nat b) * of_nat fh\<bar> \<le> (1::rat)"
  shows "\<bar>int cw * int b - int a * int fh\<bar> \<le> int b"
proof -
  have b: "(0::rat) < of_nat b" using assms(1) by simp
  have "of_nat cw * of_nat b - of_nat a * of_nat fh
      = (of_nat cw - (of_nat a / of_nat b) * of_nat fh) * (of_nat b :: rat)"
    using b by (simp add: field_simps)
  then have "\<bar>of_nat cw * of_nat b - of_nat a * of_nat fh :: rat\<bar>
      = \<bar>of_nat cw - (of_nat a / of_nat b) * of_nat fh\<bar> * of_nat b"
    using b by (simp add: abs_mult)
  also have "\<dots> \<le> 1 * of_nat b"
    using assms(2) by (rule mult_right_mono) simp
  finally have "\<bar>of_nat cw * of_nat b - of_nat a * of_nat fh :: rat\<bar> \<le> of_nat b" by simp
  then have "(of_int \<bar>int cw * int b - int a * int fh\<bar> :: rat) \<le> of_int (int b)"
    by simp
  then show ?thesis by (simp only: of_int_le_iff)
qed

lemma of_nat_unat_min_cast:
  fixes w :: u32
  assumes "0 \<le> c" and "c < 2 ^ 32"
  shows "(of_nat (unat (min (word_of_int \<lfloor>c\<rfloor>) w)) :: rat) = min (of_int \<lfloor>c\<rfloor>) (of_nat (unat w))"
proof -
  have "0 \<le> \<lfloor>c\<rfloor>" using assms(1) by simp
  then have "(of_nat (nat \<lfloor>c\<rfloor>) :: rat) = of_int \<lfloor>c\<rfloor>" by simp
  then show ?thesis
    unfolding unat_min unat_cast [OF assms] by (simp only: of_nat_min)
qed

lemma of_nat_unat_ge1: "w \<noteq> 0 \<Longrightarrow> (1::rat) \<le> of_nat (unat w)" for w :: u32
proof -
  assume "w \<noteq> 0"
  then have "1 \<le> unat w" by (simp add: unat_gt_0 Suc_leI)
  then have "(of_nat 1 :: rat) \<le> of_nat (unat w)" by (rule of_nat_mono)
  then show ?thesis by simp
qed

lemma of_nat_unat_less: "unat w < 2 ^ k \<Longrightarrow> (of_nat (unat w) :: rat) < 2 ^ k" for w :: u32
proof -
  assume "unat w < 2 ^ k"
  then have "(of_nat (unat w) :: rat) < of_nat (2 ^ k)" by (simp only: of_nat_less_iff)
  then show ?thesis by simp
qed

lemma crop_within_one_pixel:
  fixes W H tw th :: u32
  assumes nz: "W \<noteq> 0" "H \<noteq> 0" "tw \<noteq> 0" "th \<noteq> 0"
    and small: "unat W < 2 ^ 21" "unat H < 2 ^ 21" "unat tw < 2 ^ 24" "unat th < 2 ^ 24"
  shows "\<exists>b. center_crop W H tw th = Inr b \<and> within_one_pixel tw th b"
proof -
  define a :: rat where "a = of_nat (unat tw)"
  define b :: rat where "b = of_nat (unat th)"
  define fw :: rat where "fw = of_nat (unat W)"
  define fh :: rat where "fh = of_nat (unat H)"
  have ge1: "1 \<le> a" "1 \<le> b" "1 \<le> fw" "1 \<le> fh"
    unfolding a_def b_def fw_def fh_def
    by (rule of_nat_unat_ge1 [OF nz(3)] of_nat_unat_ge1 [OF nz(4)]
          of_nat_unat_ge1 [OF nz(1)] of_nat_unat_ge1 [OF nz(2)])+
  have up: "a < 2 ^ 24" "b < 2 ^ 24" "fw < 2 ^ 21" "fh < 2 ^ 21"
    unfolding a_def b_def fw_def fh_def
    by (rule of_nat_unat_less [OF small(3)] of_nat_unat_less [OF small(4)]
          of_nat_unat_less [OF small(1)] of_nat_unat_less [OF small(2)])+
  have s24: "unat W < 2 ^ 24" "unat H < 2 ^ 24" using small by simp_all
  have conv: "f32_of_u32 W = Finite fw" "f32_of_u32 H = Finite fh"
    "f32_of_u32 tw = Finite a" "f32_of_u32 th = Finite b"
    unfolding a_def b_def fw_def fh_def
    by (rule f32_of_u32_exact [OF s24(1)] f32_of_u32_exact [OF s24(2)]
          f32_of_u32_exact [OF small(3)] f32_of_u32_exact [OF small(4)])+
  define \<rho> where "\<rho> = a / b"
  have \<rho>pos: "0 < \<rho>" using ge1 by (simp add: \<rho>_def)
  have \<rho>lo: "1 / 2 ^ 24 \<le> \<rho>" using ge1 up by (simp add: \<rho>_def field_simps)
  have \<rho>hi: "\<rho> < 2 ^ 24" using ge1 up by (simp add: \<rho>_def field_simps)
  obtain r where r: "f32_round \<rho> = Finite r" and re: "\<bar>r - \<rho>\<bar> \<le> \<rho> / 2 ^ 24"
    using f32_round_mid [of \<rho>] \<rho>lo \<rho>hi by auto
  have rpos: "0 < r" and rup: "r \<le> (1 + 1 / 2 ^ 24) * \<rho>"
    using round_lower [OF re \<rho>pos] by simp_all
  have rlo: "1 / 2 ^ 25 \<le> r"
  proof -
    have "\<bar>r - \<rho>\<bar> \<le> \<rho> / 16777216" "1 / 16777216 \<le> \<rho>" using re \<rho>lo by simp_all
    then have "1 / 33554432 \<le> r" by linarith
    then show ?thesis by simp
  qed
  have rhi: "r < 2 ^ 25"
  proof -
    have "\<bar>r - \<rho>\<bar> \<le> \<rho> / 16777216" "\<rho> < 16777216" using re \<rho>hi by simp_all
    then have "r < 33554432" by linarith
    then show ?thesis by simp
  qed
  have ratio: "f32_div (f32_of_u32 tw) (f32_of_u32 th) = Finite r"
    using r ge1 by (simp add: conv \<rho>_def)
  define s where "s = r * fh"
  define t where "t = \<rho> * fh"
  have t0: "0 \<le> t" using \<rho>pos ge1 by (simp add: t_def)
  have s_ge: "r \<le> s" unfolding s_def using rpos ge1(4) by simp
  have s_le: "s \<le> r * 2 ^ 21" unfolding s_def using rpos up(4) by simp
  have spos: "0 < s" using s_ge rpos by linarith
  have slo: "1 / 2 ^ 30 \<le> s" using s_ge rlo by simp
  have shi: "s < 2 ^ 60" using s_le rhi by simp
  obtain p where p: "f32_round s = Finite p" and pe: "\<bar>p - s\<bar> \<le> s / 2 ^ 24"
    using f32_round_mid [of s] slo shi by auto
  have ppos: "0 < p" and pup: "p \<le> (1 + 1 / 2 ^ 24) * s"
    using round_lower [OF pe spos] by simp_all
  have st: "\<bar>s - t\<bar> \<le> t / 2 ^ 24"
    unfolding s_def t_def using re ge1(4) by (intro scale_error) simp_all
  have prod: "f32_round (r * fh) = Finite p" using p by (simp add: s_def)
  show ?thesis
  proof (cases "p < fw")
    case True
    define d where "d = p + 1 / 2"
    have dpos: "0 < d" using ppos by (simp add: d_def)
    have dlo: "1 / 2 ^ 30 \<le> d" using ppos by (simp add: d_def)
    have dhi: "d < 2 ^ 60" using True up(3) by (simp add: d_def)
    obtain c where c: "f32_round d = Finite c" and ce: "\<bar>c - d\<bar> \<le> d / 2 ^ 24"
      using f32_round_mid [of d] dlo dhi by auto
    have cpos: "0 < c" and cup: "c \<le> (1 + 1 / 2 ^ 24) * d"
      using round_lower [OF ce dpos] by simp_all
    have c0: "0 \<le> c" using cpos by simp
    have c32: "c < 2 ^ 32" using cup True up(3) by (simp add: d_def)
    have cc: "center_crop W H tw th =
           Inr \<lparr> X = (W - min (word_of_int \<lfloor>c\<rfloor>) W) div 2, Y = 0,
                 Width = min (word_of_int \<lfloor>c\<rfloor>) W, Height = H \<rparr>"
      using c by (intro center_crop_wide [OF ratio conv(2) conv(1) prod True _ c0 c32]) (simp add: d_def)
    have fl: "of_int \<lfloor>c\<rfloor> \<le> c" "c < of_int \<lfloor>c\<rfloor> + 1" by linarith+
    have "\<bar>min (of_int \<lfloor>c\<rfloor>) fw - t\<bar> \<le> 1"
      using ce by (intro wide_within_one [OF t0 st pe True up(3) _ fl]) (simp add: d_def)
    then have "\<bar>of_nat (unat (min (word_of_int \<lfloor>c\<rfloor>) W)) - (of_nat (unat tw) / of_nat (unat th)) * of_nat (unat H)\<bar> \<le> (1::rat)"
      unfolding of_nat_unat_min_cast [OF c0 c32]
      by (simp only: t_def \<rho>_def a_def b_def fw_def fh_def)
    then have "\<bar>int (unat (min (word_of_int \<lfloor>c\<rfloor>) W)) * int (unat th) - int (unat tw) * int (unat H)\<bar> \<le> int (unat th)"
      using nz(4) by (intro ratio_to_int) (simp_all add: unat_gt_0)
    then have "within_one_pixel tw th \<lparr> X = (W - min (word_of_int \<lfloor>c\<rfloor>) W) div 2, Y = 0,
                 Width = min (word_of_int \<lfloor>c\<rfloor>) W, Height = H \<rparr>"
      by (simp add: within_one_pixel_def)
    with cc show ?thesis by blast
  next
    case False
    define s' where "s' = fw / r"
    define t' where "t' = fw / \<rho>"
    have s'pos: "0 < s'" using ge1(3) rpos by (simp add: s'_def)
    have s'lo: "1 / 2 ^ 30 \<le> s'"
    proof -
      have "1 / 2 ^ 25 \<le> 1 / r" using rhi rpos by (simp add: field_simps)
      also have "\<dots> \<le> fw / r" using ge1(3) rpos by (simp add: divide_right_mono)
      finally have B: "1 / 2 ^ 25 \<le> s'" by (simp only: s'_def)
      have A: "(1::rat) / 2 ^ 30 \<le> 1 / 2 ^ 25" by simp
      show ?thesis using A B by (rule order_trans)
    qed
    have s'hi: "s' < 2 ^ 60"
    proof -
      have "fw / r \<le> fw * 2 ^ 25" using rlo rpos ge1(3) by (simp add: field_simps)
      also have "\<dots> < 2 ^ 21 * 2 ^ 25" using up(3) by simp
      finally have B: "s' < 2 ^ 21 * 2 ^ 25" by (simp only: s'_def)
      have A: "(2::rat) ^ 21 * 2 ^ 25 \<le> 2 ^ 60" by simp
      show ?thesis using B A by (rule less_le_trans)
    qed
    obtain q where q: "f32_round s' = Finite q" and qe: "\<bar>q - s'\<bar> \<le> s' / 2 ^ 24"
      using f32_round_mid [of s'] s'lo s'hi by auto
    have qpos: "0 < q" and qup: "q \<le> (1 + 1 / 2 ^ 24) * s'"
      using round_lower [OF qe s'pos] by simp_all
    have st': "\<bar>s' - t'\<bar> \<le> s' / 2 ^ 24"
      unfolding s'_def t'_def using rpos \<rho>pos re ge1(3) by (intro inverse_error) simp_all
    have "fw \<le> (1 + 1 / 2 ^ 24) * (r * fh)"
      using False pup by (simp add: s_def)
    then have sh: "s' \<le> (1 + 1 / 2 ^ 24) * fh"
      unfolding s'_def using rpos by (intro quotient_bound)
    define d where "d = q + 1 / 2"
    have dpos: "0 < d" using qpos by (simp add: d_def)
    have dlo: "1 / 2 ^ 30 \<le> d" using qpos by (simp add: d_def)
    have dhi: "d < 2 ^ 60" using qup sh up(4) by (simp add: d_def)
    obtain c where c: "f32_round d = Finite c" and ce: "\<bar>c - d\<bar> \<le> d / 2 ^ 24"
      using f32_round_mid [of d] dlo dhi by auto
    have cpos: "0 < c" and cup: "c \<le> (1 + 1 / 2 ^ 24) * d"
      using round_lower [OF ce dpos] by simp_all
    have c0: "0 \<le> c" using cpos by simp
    have c32: "c < 2 ^ 32" using cup qup sh up(4) by (simp add: d_def)
    have rn: "r \<noteq> 0" using rpos by simp
    have cc: "center_crop W H tw th =
           Inr \<lparr> X = 0, Y = (H - min (word_of_int \<lfloor>c\<rfloor>) H) div 2,
                 Width = W, Height = min (word_of_int \<lfloor>c\<rfloor>) H \<rparr>"
      using q c
      by (intro center_crop_tall [OF ratio conv(2) conv(1) prod False rn _ _ c0 c32])
         (simp_all add: d_def s'_def)
    have fl: "of_int \<lfloor>c\<rfloor> \<le> c" "c < of_int \<lfloor>c\<rfloor> + 1" by linarith+
    have s'0: "0 \<le> s'" using s'pos by simp
    have "\<bar>min (of_int \<lfloor>c\<rfloor>) fh - t'\<bar> \<le> 1"
      using ce by (intro tall_within_one [OF s'0 st' qe sh up(4) _ fl]) (simp add: d_def)
    moreover have "t' = (of_nat (unat th) / of_nat (unat tw)) * of_nat (unat W)"
      by (simp add: t'_def \<rho>_def a_def b_def fw_def)
    ultimately have "\<bar>of_nat (unat (min (word_of_int \<lfloor>c\<rfloor>) H)) - (of_nat (unat th) / of_nat (unat tw)) * of_nat (unat W)\<bar> \<le> (1::rat)"
      unfolding of_nat_unat_min_cast [OF c0 c32]
      by (simp only: fh_def)
    then have "\<bar>int (unat (min (word_of_int \<lfloor>c\<rfloor>) H)) * int (unat tw) - int (unat th) * int (unat W)\<bar> \<le> int (unat tw)"
      using nz(3) by (intro ratio_to_int) (simp_all add: unat_gt_0)
    then have "within_one_pixel tw th \<lparr> X = 0, Y = (H - min (word_of_int \<lfloor>c\<rfloor>) H) div 2,
                 Width = W, Height = min (word_of_int \<lfloor>c\<rfloor>) H \<rparr>"
      by (simp add: within_one_pixel_def)
    with cc show ?thesis by blast
  qed
qed

lemma half_rest_fits: "m \<le> n \<Longrightarrow> (n - m) div 2 + m \<le> n" for m n :: nat
  by arith

lemma offset_plus_side: "unat ((w - min c w) div 2) + unat (min c w) \<le> unat w" for c w :: u32
  unfolding unat_offset unat_min by (rule half_rest_fits) simp

lemma center_crop_contained:
  assumes "center_crop W H tw th = Inr b"
  shows "contained W H b"
proof -
  from assms consider
    c where "b = \<lparr> X = (W - min c W) div 2, Y = 0, Width = min c W, Height = H \<rparr>"
  | c where "b = \<lparr> X = 0, Y = (H - min c H) div 2, Width = W, Height = min c H \<rparr>"
    by (auto simp add: center_crop_def Let_def split: if_splits option.splits)
  then show ?thesis
  proof cases
    case 1
    then show ?thesis using offset_plus_side [of W c] by (simp add: contained_def)
  next
    case 2
    then show ?thesis using offset_plus_side [of H c] by (simp add: contained_def)
  qed
qed

text \<open>
  Claim C3, as stated, at a frame of 67108864 by 33554434 and the target 1 by 1. The height
  33554434 is rounded to 33554432 on its way to \<^verbatim>\<open>float\<close>, so the crop is 33554432 wide
  and 33554434 high: two pixels off the ratio 1.
\<close>

theorem crop_aspect_off_by_two_pixels:
  "center_crop 67108864 33554434 1 1
     = Inr \<lparr> X = 16777216, Y = 0, Width = 33554432, Height = 33554434 \<rparr>
   \<and> \<not> within_one_pixel 1 1 \<lparr> X = 16777216, Y = 0, Width = 33554432, Height = 33554434 \<rparr>"
  by (simp add: center_crop_def f32_eval within_one_pixel_def)

text \<open>
  Claim C3, amended. Every rectangle the crop returns is contained in its frame, whatever
  the sizes. For a frame of non-zero width and height below \<open>2 ^ 21\<close> and a non-zero target
  below \<open>2 ^ 24\<close>, the crop does return a rectangle, and its aspect ratio is within one
  pixel of the target's.
\<close>

theorem crop_contained_and_aspect_within_one_pixel:
  fixes W H tw th :: u32
  shows "(\<forall>b. center_crop W H tw th = Inr b \<longrightarrow> contained W H b)
     \<and> (W \<noteq> 0 \<and> H \<noteq> 0 \<and> tw \<noteq> 0 \<and> th \<noteq> 0
        \<and> unat W < 2 ^ 21 \<and> unat H < 2 ^ 21 \<and> unat tw < 2 ^ 24 \<and> unat th < 2 ^ 24
        \<longrightarrow> (\<exists>b. center_crop W H tw th = Inr b \<and> contained W H b \<and> within_one_pixel tw th b))"
  using center_crop_contained crop_within_one_pixel by blast

theorem crop_contained_and_aspect_within_one_pixel_witness:
  "center_crop 640 480 224 224 = Inr \<lparr> X = 80, Y = 0, Width = 480, Height = 480 \<rparr>
   \<and> contained 640 480 \<lparr> X = 80, Y = 0, Width = 480, Height = 480 \<rparr>
   \<and> within_one_pixel 224 224 \<lparr> X = 80, Y = 0, Width = 480, Height = 480 \<rparr>"
proof -
  have e: "center_crop 640 480 224 224 = Inr \<lparr> X = 80, Y = 0, Width = 480, Height = 480 \<rparr>"
    by (simp add: center_crop_def f32_eval)
  from crop_contained_and_aspect_within_one_pixel [of 640 480 224 224]
  have "\<exists>b. center_crop 640 480 224 224 = Inr b \<and> contained 640 480 b \<and> within_one_pixel 224 224 b"
    by simp
  then show ?thesis unfolding e by simp
qed

section \<open>The crop against the stated algorithm, up to rounding\<close>

lemma crop_analysis:
  fixes W H tw th :: u32
  assumes nz: "W \<noteq> 0" "H \<noteq> 0" "tw \<noteq> 0" "th \<noteq> 0"
    and small: "unat W < 2 ^ 21" "unat H < 2 ^ 21" "unat tw < 2 ^ 24" "unat th < 2 ^ 24"
  shows "\<exists>(r::rat) p. 0 < r
     \<and> \<bar>r - of_nat (unat tw) / of_nat (unat th)\<bar> \<le> of_nat (unat tw) / of_nat (unat th) / 2 ^ 24
     \<and> \<bar>p - r * of_nat (unat H)\<bar> \<le> r * of_nat (unat H) / 2 ^ 24
     \<and> (p < of_nat (unat W) \<longrightarrow>
          (\<exists>c. \<bar>c - (p + 1 / 2)\<bar> \<le> (p + 1 / 2) / 2 ^ 24 \<and> 0 \<le> c \<and> c < 2 ^ 32
             \<and> center_crop W H tw th =
                 Inr \<lparr> X = (W - min (word_of_int \<lfloor>c\<rfloor>) W) div 2, Y = 0,
                       Width = min (word_of_int \<lfloor>c\<rfloor>) W, Height = H \<rparr>))
     \<and> (\<not> p < of_nat (unat W) \<longrightarrow>
          (\<exists>q c. \<bar>q - of_nat (unat W) / r\<bar> \<le> of_nat (unat W) / r / 2 ^ 24
             \<and> \<bar>c - (q + 1 / 2)\<bar> \<le> (q + 1 / 2) / 2 ^ 24 \<and> 0 \<le> c \<and> c < 2 ^ 32
             \<and> center_crop W H tw th =
                 Inr \<lparr> X = 0, Y = (H - min (word_of_int \<lfloor>c\<rfloor>) H) div 2,
                       Width = W, Height = min (word_of_int \<lfloor>c\<rfloor>) H \<rparr>))"
proof -
  define a :: rat where "a = of_nat (unat tw)"
  define b :: rat where "b = of_nat (unat th)"
  define fw :: rat where "fw = of_nat (unat W)"
  define fh :: rat where "fh = of_nat (unat H)"
  have ge1: "1 \<le> a" "1 \<le> b" "1 \<le> fw" "1 \<le> fh"
    unfolding a_def b_def fw_def fh_def
    by (rule of_nat_unat_ge1 [OF nz(3)] of_nat_unat_ge1 [OF nz(4)]
          of_nat_unat_ge1 [OF nz(1)] of_nat_unat_ge1 [OF nz(2)])+
  have up: "a < 2 ^ 24" "b < 2 ^ 24" "fw < 2 ^ 21" "fh < 2 ^ 21"
    unfolding a_def b_def fw_def fh_def
    by (rule of_nat_unat_less [OF small(3)] of_nat_unat_less [OF small(4)]
          of_nat_unat_less [OF small(1)] of_nat_unat_less [OF small(2)])+
  have s24: "unat W < 2 ^ 24" "unat H < 2 ^ 24" using small by simp_all
  have conv: "f32_of_u32 W = Finite fw" "f32_of_u32 H = Finite fh"
    "f32_of_u32 tw = Finite a" "f32_of_u32 th = Finite b"
    unfolding a_def b_def fw_def fh_def
    by (rule f32_of_u32_exact [OF s24(1)] f32_of_u32_exact [OF s24(2)]
          f32_of_u32_exact [OF small(3)] f32_of_u32_exact [OF small(4)])+
  define \<rho> where "\<rho> = a / b"
  have \<rho>pos: "0 < \<rho>" using ge1 by (simp add: \<rho>_def)
  have \<rho>lo: "1 / 2 ^ 24 \<le> \<rho>" using ge1 up by (simp add: \<rho>_def field_simps)
  have \<rho>hi: "\<rho> < 2 ^ 24" using ge1 up by (simp add: \<rho>_def field_simps)
  obtain r where r: "f32_round \<rho> = Finite r" and re: "\<bar>r - \<rho>\<bar> \<le> \<rho> / 2 ^ 24"
    using f32_round_mid [of \<rho>] \<rho>lo \<rho>hi by auto
  have rpos: "0 < r" and rup: "r \<le> (1 + 1 / 2 ^ 24) * \<rho>"
    using round_lower [OF re \<rho>pos] by simp_all
  have rlo: "1 / 2 ^ 25 \<le> r"
  proof -
    have "\<bar>r - \<rho>\<bar> \<le> \<rho> / 16777216" "1 / 16777216 \<le> \<rho>" using re \<rho>lo by simp_all
    then have "1 / 33554432 \<le> r" by linarith
    then show ?thesis by simp
  qed
  have rhi: "r < 2 ^ 25"
  proof -
    have "\<bar>r - \<rho>\<bar> \<le> \<rho> / 16777216" "\<rho> < 16777216" using re \<rho>hi by simp_all
    then have "r < 33554432" by linarith
    then show ?thesis by simp
  qed
  have ratio: "f32_div (f32_of_u32 tw) (f32_of_u32 th) = Finite r"
    using r ge1 by (simp add: conv \<rho>_def)
  define s where "s = r * fh"
  have s_ge: "r \<le> s" unfolding s_def using rpos ge1(4) by simp
  have s_le: "s \<le> r * 2 ^ 21" unfolding s_def using rpos up(4) by simp
  have spos: "0 < s" using s_ge rpos by linarith
  have slo: "1 / 2 ^ 30 \<le> s" using s_ge rlo by simp
  have shi: "s < 2 ^ 60" using s_le rhi by simp
  obtain p where p: "f32_round s = Finite p" and pe: "\<bar>p - s\<bar> \<le> s / 2 ^ 24"
    using f32_round_mid [of s] slo shi by auto
  have ppos: "0 < p" and pup: "p \<le> (1 + 1 / 2 ^ 24) * s"
    using round_lower [OF pe spos] by simp_all
  have prod: "f32_round (r * fh) = Finite p" using p by (simp add: s_def)
  have wide: "\<exists>c. \<bar>c - (p + 1 / 2)\<bar> \<le> (p + 1 / 2) / 2 ^ 24 \<and> 0 \<le> c \<and> c < 2 ^ 32
             \<and> center_crop W H tw th =
                 Inr \<lparr> X = (W - min (word_of_int \<lfloor>c\<rfloor>) W) div 2, Y = 0,
                       Width = min (word_of_int \<lfloor>c\<rfloor>) W, Height = H \<rparr>"
    if True: "p < fw"
  proof -
    define d where "d = p + 1 / 2"
    have dpos: "0 < d" using ppos by (simp add: d_def)
    have dlo: "1 / 2 ^ 30 \<le> d" using ppos by (simp add: d_def)
    have dhi: "d < 2 ^ 60" using True up(3) by (simp add: d_def)
    obtain c where c: "f32_round d = Finite c" and ce: "\<bar>c - d\<bar> \<le> d / 2 ^ 24"
      using f32_round_mid [of d] dlo dhi by auto
    have cpos: "0 < c" and cup: "c \<le> (1 + 1 / 2 ^ 24) * d"
      using round_lower [OF ce dpos] by simp_all
    have c0: "0 \<le> c" using cpos by simp
    have c32: "c < 2 ^ 32" using cup True up(3) by (simp add: d_def)
    have cc: "center_crop W H tw th =
           Inr \<lparr> X = (W - min (word_of_int \<lfloor>c\<rfloor>) W) div 2, Y = 0,
                 Width = min (word_of_int \<lfloor>c\<rfloor>) W, Height = H \<rparr>"
      using c by (intro center_crop_wide [OF ratio conv(2) conv(1) prod True _ c0 c32]) (simp add: d_def)
    show ?thesis using ce c0 c32 cc unfolding d_def by blast
  qed
  have tall: "\<exists>q c. \<bar>q - fw / r\<bar> \<le> fw / r / 2 ^ 24
             \<and> \<bar>c - (q + 1 / 2)\<bar> \<le> (q + 1 / 2) / 2 ^ 24 \<and> 0 \<le> c \<and> c < 2 ^ 32
             \<and> center_crop W H tw th =
                 Inr \<lparr> X = 0, Y = (H - min (word_of_int \<lfloor>c\<rfloor>) H) div 2,
                       Width = W, Height = min (word_of_int \<lfloor>c\<rfloor>) H \<rparr>"
    if False: "\<not> p < fw"
  proof -
    define s' where "s' = fw / r"
    have s'pos: "0 < s'" using ge1(3) rpos by (simp add: s'_def)
    have s'lo: "1 / 2 ^ 30 \<le> s'"
    proof -
      have "1 / 2 ^ 25 \<le> 1 / r" using rhi rpos by (simp add: field_simps)
      also have "\<dots> \<le> fw / r" using ge1(3) rpos by (simp add: divide_right_mono)
      finally have B: "1 / 2 ^ 25 \<le> s'" by (simp only: s'_def)
      have A: "(1::rat) / 2 ^ 30 \<le> 1 / 2 ^ 25" by simp
      show ?thesis using A B by (rule order_trans)
    qed
    have s'hi: "s' < 2 ^ 60"
    proof -
      have "fw / r \<le> fw * 2 ^ 25" using rlo rpos ge1(3) by (simp add: field_simps)
      also have "\<dots> < 2 ^ 21 * 2 ^ 25" using up(3) by simp
      finally have B: "s' < 2 ^ 21 * 2 ^ 25" by (simp only: s'_def)
      have A: "(2::rat) ^ 21 * 2 ^ 25 \<le> 2 ^ 60" by simp
      show ?thesis using B A by (rule less_le_trans)
    qed
    obtain q where q: "f32_round s' = Finite q" and qe: "\<bar>q - s'\<bar> \<le> s' / 2 ^ 24"
      using f32_round_mid [of s'] s'lo s'hi by auto
    have qpos: "0 < q" and qup: "q \<le> (1 + 1 / 2 ^ 24) * s'"
      using round_lower [OF qe s'pos] by simp_all
    have "fw \<le> (1 + 1 / 2 ^ 24) * (r * fh)"
      using False pup by (simp add: s_def)
    then have sh: "s' \<le> (1 + 1 / 2 ^ 24) * fh"
      unfolding s'_def using rpos by (intro quotient_bound)
    define d where "d = q + 1 / 2"
    have dpos: "0 < d" using qpos by (simp add: d_def)
    have dlo: "1 / 2 ^ 30 \<le> d" using qpos by (simp add: d_def)
    have dhi: "d < 2 ^ 60" using qup sh up(4) by (simp add: d_def)
    obtain c where c: "f32_round d = Finite c" and ce: "\<bar>c - d\<bar> \<le> d / 2 ^ 24"
      using f32_round_mid [of d] dlo dhi by auto
    have cpos: "0 < c" and cup: "c \<le> (1 + 1 / 2 ^ 24) * d"
      using round_lower [OF ce dpos] by simp_all
    have c0: "0 \<le> c" using cpos by simp
    have c32: "c < 2 ^ 32" using cup qup sh up(4) by (simp add: d_def)
    have rn: "r \<noteq> 0" using rpos by simp
    have cc: "center_crop W H tw th =
           Inr \<lparr> X = 0, Y = (H - min (word_of_int \<lfloor>c\<rfloor>) H) div 2,
                 Width = W, Height = min (word_of_int \<lfloor>c\<rfloor>) H \<rparr>"
      using q c
      by (intro center_crop_tall [OF ratio conv(2) conv(1) prod False rn _ _ c0 c32])
         (simp_all add: d_def s'_def)
    show ?thesis using qe ce c0 c32 cc unfolding d_def s'_def by blast
  qed
  have e1: "\<bar>r - a / b\<bar> \<le> a / b / 2 ^ 24" using re by (simp only: \<rho>_def)
  have e2: "\<bar>p - r * fh\<bar> \<le> r * fh / 2 ^ 24" using pe by (simp only: s_def)
  show ?thesis
    using rpos e1 e2 wide tall unfolding a_def b_def fw_def fh_def by blast
qed

lemma wide_error:
  fixes t s p c w :: rat
  assumes t0: "0 \<le> t"
    and st: "\<bar>s - t\<bar> \<le> t / 2 ^ 24"
    and ps: "\<bar>p - s\<bar> \<le> s / 2 ^ 24"
    and cp: "\<bar>c - (p + 1 / 2)\<bar> \<le> (p + 1 / 2) / 2 ^ 24"
    and tw: "t < w"
  shows "\<bar>c - (t + 1 / 2)\<bar> \<le> (w + 1) / 2 ^ 22"
proof -
  define d where "d = p + 1 / 2"
  define e where "e = w / 16777216"
  have "\<bar>s - t\<bar> \<le> t / 16777216" using st by simp
  then have 1: "s - t \<le> t / 16777216" "t - s \<le> t / 16777216" by linarith+
  have "\<bar>p - s\<bar> \<le> s / 16777216" using ps by simp
  then have 2: "p - s \<le> s / 16777216" "s - p \<le> s / 16777216" by linarith+
  have "\<bar>c - d\<bar> \<le> d / 16777216" using cp by (simp add: d_def)
  then have 3: "c - d \<le> d / 16777216" "d - c \<le> d / 16777216" by linarith+
  have d: "d = p + 1 / 2" by (simp add: d_def)
  have w0: "0 < w" using t0 tw by linarith
  have e0: "0 \<le> e" using w0 by (simp add: e_def)
  have tu: "t / 16777216 \<le> e" using tw by (simp add: e_def)
  have sb: "s \<le> 17 / 16 * w" using 1(1) tw w0 by linarith
  have su: "s / 16777216 \<le> 17 / 16 * e" using sb by (simp add: e_def)
  have pb: "p \<le> 9 / 8 * w" using 2(1) sb w0 by linarith
  have du: "d / 16777216 \<le> 9 / 8 * e + 1 / 33554432" using pb d by (simp add: e_def)
  have ts: "s - t \<le> e" "t - s \<le> e" using 1 tu by linarith+
  have sp: "p - s \<le> 17 / 16 * e" "s - p \<le> 17 / 16 * e" using 2 su by linarith+
  have pc: "c - d \<le> 9 / 8 * e + 1 / 33554432" "d - c \<le> 9 / 8 * e + 1 / 33554432"
    using 3 du by linarith+
  have g: "(w + 1) / 2 ^ 22 = 4 * e + 1 / 4194304" by (simp add: e_def)
  have a: "c - (t + 1 / 2) \<le> 4 * e + 1 / 4194304" using ts sp pc d e0 by linarith
  have b: "(t + 1 / 2) - c \<le> 4 * e + 1 / 4194304" using ts sp pc d e0 by linarith
  show ?thesis unfolding g abs_le_iff using a b by simp
qed

lemma tall_error:
  fixes t s q c h :: rat
  assumes s0: "0 \<le> s"
    and st: "\<bar>s - t\<bar> \<le> s / 2 ^ 24"
    and qs: "\<bar>q - s\<bar> \<le> s / 2 ^ 24"
    and cq: "\<bar>c - (q + 1 / 2)\<bar> \<le> (q + 1 / 2) / 2 ^ 24"
    and th: "t \<le> h"
  shows "\<bar>c - (t + 1 / 2)\<bar> \<le> (h + 1) / 2 ^ 22"
proof -
  define d where "d = q + 1 / 2"
  define e where "e = h / 16777216"
  have "\<bar>s - t\<bar> \<le> s / 16777216" using st by simp
  then have 1: "s - t \<le> s / 16777216" "t - s \<le> s / 16777216" by linarith+
  have "\<bar>q - s\<bar> \<le> s / 16777216" using qs by simp
  then have 2: "q - s \<le> s / 16777216" "s - q \<le> s / 16777216" by linarith+
  have "\<bar>c - d\<bar> \<le> d / 16777216" using cq by (simp add: d_def)
  then have 3: "c - d \<le> d / 16777216" "d - c \<le> d / 16777216" by linarith+
  have d: "d = q + 1 / 2" by (simp add: d_def)
  have sb: "s \<le> 17 / 16 * h" using 1(1) th s0 by linarith
  have h0: "0 \<le> h" using sb s0 by linarith
  have e0: "0 \<le> e" using h0 by (simp add: e_def)
  have su: "s / 16777216 \<le> 17 / 16 * e" using sb by (simp add: e_def)
  have qb: "q \<le> 9 / 8 * h" using 2(1) sb h0 by linarith
  have du: "d / 16777216 \<le> 9 / 8 * e + 1 / 33554432" using qb d by (simp add: e_def)
  have ts: "s - t \<le> 17 / 16 * e" "t - s \<le> 17 / 16 * e" using 1 su by linarith+
  have sq: "q - s \<le> 17 / 16 * e" "s - q \<le> 17 / 16 * e" using 2 su by linarith+
  have qc: "c - d \<le> 9 / 8 * e + 1 / 33554432" "d - c \<le> 9 / 8 * e + 1 / 33554432"
    using 3 du by linarith+
  have g: "(h + 1) / 2 ^ 22 = 4 * e + 1 / 4194304" by (simp add: e_def)
  have a: "c - (t + 1 / 2) \<le> 4 * e + 1 / 4194304" using ts sq qc d e0 by linarith
  have b: "(t + 1 / 2) - c \<le> 4 * e + 1 / 4194304" using ts sq qc d e0 by linarith
  show ?thesis unfolding g abs_le_iff using a b by simp
qed

lemma floor_close:
  fixes c y :: rat
  assumes "\<bar>c - y\<bar> < 1"
  shows "\<bar>\<lfloor>c\<rfloor> - \<lfloor>y\<rfloor>\<bar> \<le> 1"
proof -
  have "of_int \<lfloor>c\<rfloor> \<le> c" "c < of_int \<lfloor>c\<rfloor> + 1" "of_int \<lfloor>y\<rfloor> \<le> y" "y < of_int \<lfloor>y\<rfloor> + 1"
    by linarith+
  then have "(of_int \<lfloor>c\<rfloor> :: rat) < of_int \<lfloor>y\<rfloor> + 2" "(of_int \<lfloor>y\<rfloor> :: rat) < of_int \<lfloor>c\<rfloor> + 2"
    using assms by linarith+
  then have "(of_int \<lfloor>c\<rfloor> :: rat) < of_int (\<lfloor>y\<rfloor> + 2)" "(of_int \<lfloor>y\<rfloor> :: rat) < of_int (\<lfloor>c\<rfloor> + 2)"
    by simp_all
  then have "\<lfloor>c\<rfloor> < \<lfloor>y\<rfloor> + 2" "\<lfloor>y\<rfloor> < \<lfloor>c\<rfloor> + 2"
    by (simp_all only: of_int_less_iff)
  then show ?thesis by linarith
qed

lemma floor_same:
  fixes c y m :: rat
  assumes "\<bar>c - y\<bar> \<le> m" and "of_int \<lfloor>y\<rfloor> + m \<le> y" and "y + m < of_int \<lfloor>y\<rfloor> + 1"
  shows "\<lfloor>c\<rfloor> = \<lfloor>y\<rfloor>"
proof (rule floor_unique)
  show "of_int \<lfloor>y\<rfloor> \<le> c" using assms by linarith
  show "c < of_int \<lfloor>y\<rfloor> + 1" using assms by linarith
qed

lemma zone_spec_wide:
  fixes t s p w :: rat
  assumes t0: "0 \<le> t"
    and st: "\<bar>s - t\<bar> \<le> t / 2 ^ 24"
    and ps: "\<bar>p - s\<bar> \<le> s / 2 ^ 24"
    and tw: "t < w" and w: "w < 2 ^ 21" and pw: "\<not> p < w"
  shows "w \<le> t + 1 / 2"
proof -
  have "\<bar>s - t\<bar> \<le> t / 16777216" using st by simp
  then have 1: "s - t \<le> t / 16777216" "t - s \<le> t / 16777216" by linarith+
  have "\<bar>p - s\<bar> \<le> s / 16777216" using ps by simp
  then have 2: "p - s \<le> s / 16777216" "s - p \<le> s / 16777216" by linarith+
  have w': "w < 2097152" using w by simp
  have "t / 16777216 \<le> 1 / 8" using tw w' by linarith
  moreover have "s / 16777216 \<le> 1 / 7" using 1 tw w' by linarith
  ultimately show ?thesis using 1 2 pw by linarith
qed

lemma zone_code_tall:
  fixes t s q c h :: rat
  assumes st: "\<bar>s - t\<bar> \<le> s / 2 ^ 24"
    and qs: "\<bar>q - s\<bar> \<le> s / 2 ^ 24"
    and cq: "\<bar>c - (q + 1 / 2)\<bar> \<le> (q + 1 / 2) / 2 ^ 24"
    and ht: "h \<le> t" and sh: "s \<le> (1 + 1 / 2 ^ 24) * h" and h: "h < 2 ^ 21" and h0: "0 \<le> h"
  shows "h \<le> c"
proof -
  define d where "d = q + 1 / 2"
  have "\<bar>s - t\<bar> \<le> s / 16777216" using st by simp
  then have 1: "s - t \<le> s / 16777216" "t - s \<le> s / 16777216" by linarith+
  have "\<bar>q - s\<bar> \<le> s / 16777216" using qs by simp
  then have 2: "q - s \<le> s / 16777216" "s - q \<le> s / 16777216" by linarith+
  have "\<bar>c - d\<bar> \<le> d / 16777216" using cq by (simp add: d_def)
  then have 3: "c - d \<le> d / 16777216" "d - c \<le> d / 16777216" by linarith+
  have d: "d = q + 1 / 2" by (simp add: d_def)
  have h': "h < 2097152" using h by simp
  have sh': "s \<le> h + h / 16777216" using sh by (simp add: algebra_simps)
  have sb: "s \<le> 2097153" using sh' h' by linarith
  have su: "s / 16777216 \<le> 63 / 500" using sb by linarith
  have qb: "q \<le> 2097154" using 2 sb su by linarith
  have db: "d / 16777216 \<le> 63 / 500" using qb d by linarith
  show ?thesis using 1 2 3 d su db ht by linarith
qed

lemma zone_spec_tall:
  fixes t s p w h t' :: rat
  assumes t0: "0 \<le> t"
    and st: "\<bar>s - t\<bar> \<le> t / 2 ^ 24"
    and ps: "\<bar>p - s\<bar> \<le> s / 2 ^ 24"
    and pw: "p < w"
  shows "(16777215 / 16777216) * (16777215 / 16777216) * t < w"
proof -
  have "\<bar>s - t\<bar> \<le> t / 16777216" using st by simp
  then have 1: "s - t \<le> t / 16777216" "t - s \<le> t / 16777216" by linarith+
  have "\<bar>p - s\<bar> \<le> s / 16777216" using ps by simp
  then have 2: "p - s \<le> s / 16777216" "s - p \<le> s / 16777216" by linarith+
  have a: "(16777215 / 16777216) * t \<le> s" using 1 by linarith
  have b: "(16777215 / 16777216) * s \<le> p" using 2 by linarith
  have "(16777215 / 16777216) * ((16777215 / 16777216) * t) \<le> (16777215 / 16777216) * s"
    using a by (rule mult_left_mono) simp
  then show ?thesis using b pw by linarith
qed

lemma zone_spec_tall_side:
  fixes h t' :: rat
  assumes "(16777215 / 16777216) * (16777215 / 16777216) * h < t'" and "h < 2 ^ 21" and "0 \<le> h"
  shows "h \<le> t' + 1 / 2"
proof -
  have "h < 2097152" using assms(2) by simp
  then show ?thesis using assms(1,3) by linarith
qed

lemma zone_code_wide:
  fixes t s p c w :: rat
  assumes st: "\<bar>s - t\<bar> \<le> t / 2 ^ 24"
    and ps: "\<bar>p - s\<bar> \<le> s / 2 ^ 24"
    and cp: "\<bar>c - (p + 1 / 2)\<bar> \<le> (p + 1 / 2) / 2 ^ 24"
    and wt: "w \<le> t" and pw: "p < w" and w: "w < 2 ^ 21" and w0: "0 \<le> w"
  shows "w \<le> c"
proof -
  define d where "d = p + 1 / 2"
  have "\<bar>s - t\<bar> \<le> t / 16777216" using st by simp
  then have 1: "s - t \<le> t / 16777216" "t - s \<le> t / 16777216" by linarith+
  have "\<bar>p - s\<bar> \<le> s / 16777216" using ps by simp
  then have 2: "p - s \<le> s / 16777216" "s - p \<le> s / 16777216" by linarith+
  have "\<bar>c - d\<bar> \<le> d / 16777216" using cp by (simp add: d_def)
  then have 3: "c - d \<le> d / 16777216" "d - c \<le> d / 16777216" by linarith+
  have d: "d = p + 1 / 2" by (simp add: d_def)
  have w': "w < 2097152" using w by simp
  have a: "(16777215 / 16777216) * t \<le> s" using 1 by linarith
  have b: "(16777215 / 16777216) * s \<le> p" using 2 by linarith
  have sb: "s \<le> 2097153" using b pw w' by linarith
  have tb: "t \<le> 2097154" using a sb by linarith
  have su: "s / 16777216 \<le> 63 / 500" using sb by linarith
  have tu: "t / 16777216 \<le> 63 / 500" using tb by linarith
  have db: "d / 16777216 \<le> 63 / 500" using pw w' d by linarith
  show ?thesis using 1 2 3 d su tu db wt by linarith
qed

lemma rectangle_wide:
  fixes W H :: u32
  assumes "0 \<le> c" and "c < 2 ^ 32"
  shows "\<lparr> X = (W - min (word_of_int \<lfloor>c\<rfloor>) W) div 2, Y = 0,
           Width = min (word_of_int \<lfloor>c\<rfloor>) W, Height = H \<rparr>
       = rectangle ((unat W - min (nat \<lfloor>c\<rfloor>) (unat W)) div 2, 0, min (nat \<lfloor>c\<rfloor>) (unat W), unat H)"
proof -
  note u = unat_cast [OF assms]
  have w: "min (word_of_int \<lfloor>c\<rfloor>) W = (of_nat (min (nat \<lfloor>c\<rfloor>) (unat W)) :: u32)"
    by (rule word_of_unat) (simp only: unat_min u)
  have x: "(W - min (word_of_int \<lfloor>c\<rfloor>) W) div 2
          = (of_nat ((unat W - min (nat \<lfloor>c\<rfloor>) (unat W)) div 2) :: u32)"
    by (rule word_of_unat) (simp only: unat_offset u)
  note x' = x [unfolded w]
  show ?thesis unfolding rectangle_def by (simp add: w x')
qed

lemma rectangle_tall:
  fixes W H :: u32
  assumes "0 \<le> c" and "c < 2 ^ 32"
  shows "\<lparr> X = 0, Y = (H - min (word_of_int \<lfloor>c\<rfloor>) H) div 2,
           Width = W, Height = min (word_of_int \<lfloor>c\<rfloor>) H \<rparr>
       = rectangle (0, (unat H - min (nat \<lfloor>c\<rfloor>) (unat H)) div 2, unat W, min (nat \<lfloor>c\<rfloor>) (unat H))"
proof -
  note u = unat_cast [OF assms]
  have h: "min (word_of_int \<lfloor>c\<rfloor>) H = (of_nat (min (nat \<lfloor>c\<rfloor>) (unat H)) :: u32)"
    by (rule word_of_unat) (simp only: unat_min u)
  have y: "(H - min (word_of_int \<lfloor>c\<rfloor>) H) div 2
          = (of_nat ((unat H - min (nat \<lfloor>c\<rfloor>) (unat H)) div 2) :: u32)"
    by (rule word_of_unat) (simp only: unat_offset u)
  note y' = y [unfolded h]
  show ?thesis unfolding rectangle_def by (simp add: h y')
qed

lemma unat_of_nat_le:
  fixes W :: u32
  assumes "k \<le> unat W"
  shows "unat (of_nat k :: u32) = k"
  using assms by (rule le_unat_uoi)

lemma side_close:
  fixes n m w :: nat
  assumes "\<bar>int n - int m\<bar> \<le> 1"
  shows "\<bar>int (min n w) - int (min m w)\<bar> \<le> 1"
    and "\<bar>int ((w - min n w) div 2) - int ((w - min m w) div 2)\<bar> \<le> 1"
  using assms by (auto simp add: min_def)

lemma pixel_close_wide:
  fixes W H :: u32
  assumes "\<bar>int n - int m\<bar> \<le> 1"
  shows "pixel_close
           (rectangle ((unat W - min n (unat W)) div 2, 0, min n (unat W), unat H))
           (rectangle ((unat W - min m (unat W)) div 2, 0, min m (unat W), unat H))"
proof -
  have 1: "unat (of_nat (min k (unat W)) :: u32) = min k (unat W)" for k
    by (rule unat_of_nat_le [of _ W]) simp
  have 2: "unat (of_nat ((unat W - min k (unat W)) div 2) :: u32) = (unat W - min k (unat W)) div 2" for k
    by (rule unat_of_nat_le [of _ W]) simp
  note sc = side_close [OF assms, of "unat W"]
  show ?thesis
    unfolding pixel_close_def rectangle_def prod.case BitmapBounds.select_convs 1 2
    using sc by simp
qed

lemma pixel_close_tall:
  fixes W H :: u32
  assumes "\<bar>int n - int m\<bar> \<le> 1"
  shows "pixel_close
           (rectangle (0, (unat H - min n (unat H)) div 2, unat W, min n (unat H)))
           (rectangle (0, (unat H - min m (unat H)) div 2, unat W, min m (unat H)))"
proof -
  have 1: "unat (of_nat (min k (unat H)) :: u32) = min k (unat H)" for k
    by (rule unat_of_nat_le [of _ H]) simp
  have 2: "unat (of_nat ((unat H - min k (unat H)) div 2) :: u32) = (unat H - min k (unat H)) div 2" for k
    by (rule unat_of_nat_le [of _ H]) simp
  note sc = side_close [OF assms, of "unat H"]
  show ?thesis
    unfolding pixel_close_def rectangle_def prod.case BitmapBounds.select_convs 1 2
    using sc by simp
qed

lemma pixel_close_refl: "pixel_close b b"
  by (simp add: pixel_close_def)

lemma nat_floor_ge:
  fixes c :: rat
  assumes "of_nat n \<le> c"
  shows "min (nat \<lfloor>c\<rfloor>) n = n"
proof -
  have "(of_int (int n) :: rat) \<le> c" using assms by simp
  then have "int n \<le> \<lfloor>c\<rfloor>" by (simp only: le_floor_iff)
  then show ?thesis by simp
qed

lemma nat_floor_close:
  fixes c y :: rat
  assumes "\<bar>c - y\<bar> < 1"
  shows "\<bar>int (nat \<lfloor>c\<rfloor>) - int (nat \<lfloor>y\<rfloor>)\<bar> \<le> 1"
  using floor_close [OF assms] by linarith


lemma round_half_up_min:
  assumes "of_nat n \<le> x + 1 / 2"
  shows "min (round_half_up x) n = n"
  unfolding round_half_up_def using assms by (rule nat_floor_ge)

lemma crop_near_algorithm:
  fixes W H tw th :: u32
  assumes nz: "W \<noteq> 0" "H \<noteq> 0" "tw \<noteq> 0" "th \<noteq> 0"
    and small: "unat W < 2 ^ 21" "unat H < 2 ^ 21" "unat tw < 2 ^ 24" "unat th < 2 ^ 24"
  shows "\<exists>b. center_crop W H tw th = Inr b
     \<and> pixel_close b (rectangle (spec_center_crop (unat W) (unat H) (unat tw) (unat th)))
     \<and> (away_from_ties (unat W) (unat H) (unat tw) (unat th)
          \<longrightarrow> b = rectangle (spec_center_crop (unat W) (unat H) (unat tw) (unat th)))"
proof -
  define fw :: rat where "fw = of_nat (unat W)"
  define fh :: rat where "fh = of_nat (unat H)"
  define \<rho> :: rat where "\<rho> = of_nat (unat tw) / of_nat (unat th)"
  define t where "t = \<rho> * fh"
  define t' where "t' = fw / \<rho>"
  have ge1: "1 \<le> fw" "1 \<le> fh"
    unfolding fw_def fh_def by (rule of_nat_unat_ge1 [OF nz(1)] of_nat_unat_ge1 [OF nz(2)])+
  have up: "fw < 2 ^ 21" "fh < 2 ^ 21"
    unfolding fw_def fh_def by (rule of_nat_unat_less [OF small(1)] of_nat_unat_less [OF small(2)])+
  have fw0: "0 \<le> fw" and fh0: "0 \<le> fh" using ge1 by simp_all
  have "1 \<le> (of_nat (unat tw) :: rat)" "1 \<le> (of_nat (unat th) :: rat)"
    by (rule of_nat_unat_ge1 [OF nz(3)] of_nat_unat_ge1 [OF nz(4)])+
  then have \<rho>pos: "0 < \<rho>" by (simp add: \<rho>_def)
  have t0: "0 \<le> t" using \<rho>pos fh0 by (simp add: t_def)
  from crop_analysis [OF nz small] obtain r p where
    rpos: "0 < r" and re: "\<bar>r - \<rho>\<bar> \<le> \<rho> / 2 ^ 24"
    and pe: "\<bar>p - r * fh\<bar> \<le> r * fh / 2 ^ 24"
    and wide: "p < fw \<Longrightarrow>
          \<exists>c. \<bar>c - (p + 1 / 2)\<bar> \<le> (p + 1 / 2) / 2 ^ 24 \<and> 0 \<le> c \<and> c < 2 ^ 32
             \<and> center_crop W H tw th =
                 Inr \<lparr> X = (W - min (word_of_int \<lfloor>c\<rfloor>) W) div 2, Y = 0,
                       Width = min (word_of_int \<lfloor>c\<rfloor>) W, Height = H \<rparr>"
    and tall: "\<not> p < fw \<Longrightarrow>
          \<exists>q c. \<bar>q - fw / r\<bar> \<le> fw / r / 2 ^ 24
             \<and> \<bar>c - (q + 1 / 2)\<bar> \<le> (q + 1 / 2) / 2 ^ 24 \<and> 0 \<le> c \<and> c < 2 ^ 32
             \<and> center_crop W H tw th =
                 Inr \<lparr> X = 0, Y = (H - min (word_of_int \<lfloor>c\<rfloor>) H) div 2,
                       Width = W, Height = min (word_of_int \<lfloor>c\<rfloor>) H \<rparr>"
    unfolding fw_def fh_def \<rho>_def by blast
  define s where "s = r * fh"
  define s' where "s' = fw / r"
  have spos: "0 < s" using rpos ge1(2) by (simp add: s_def)
  have s'0: "0 \<le> s'" using rpos fw0 by (simp add: s'_def)
  have st: "\<bar>s - t\<bar> \<le> t / 2 ^ 24"
    unfolding s_def t_def using re fh0 by (intro scale_error)
  have ps: "\<bar>p - s\<bar> \<le> s / 2 ^ 24" using pe by (simp only: s_def)
  have st': "\<bar>s' - t'\<bar> \<le> s' / 2 ^ 24"
    unfolding s'_def t'_def using rpos \<rho>pos re fw0 by (intro inverse_error)
  have m1: "(fw + 1) / 2 ^ 22 < 1" "(fh + 1) / 2 ^ 22 < 1" using up by simp_all
  let ?spec = "spec_center_crop (unat W) (unat H) (unat tw) (unat th)"
  have spec_wide: "?spec = ((unat W - min (round_half_up t) (unat W)) div 2, 0,
                            min (round_half_up t) (unat W), unat H)" if "t < fw"
    using that by (simp add: spec_center_crop_def Let_def t_def \<rho>_def fw_def fh_def)
  have spec_tall: "?spec = (0, (unat H - min (round_half_up t') (unat H)) div 2, unat W,
                            min (round_half_up t') (unat H))" if "\<not> t < fw"
    using that by (simp add: spec_center_crop_def Let_def t_def t'_def \<rho>_def fw_def fh_def)
  have tie_wide: "clear_of_tie ((fw + 1) / 2 ^ 22) t"
    if "t < fw" "away_from_ties (unat W) (unat H) (unat tw) (unat th)"
    using that by (simp add: away_from_ties_def Let_def t_def \<rho>_def fw_def fh_def)
  have tie_tall: "clear_of_tie ((fh + 1) / 2 ^ 22) t'"
    if "\<not> t < fw" "away_from_ties (unat W) (unat H) (unat tw) (unat th)"
    using that by (simp add: away_from_ties_def Let_def t_def t'_def \<rho>_def fw_def fh_def)
  let ?full = "rectangle (0, 0, unat W, unat H)"
  show ?thesis
  proof (cases "t < fw")
    case tw: True
    show ?thesis
    proof (cases "p < fw")
      case True
      from wide [OF True] obtain c where
        cp: "\<bar>c - (p + 1 / 2)\<bar> \<le> (p + 1 / 2) / 2 ^ 24" and c0: "0 \<le> c" and c32: "c < 2 ^ 32"
        and cc: "center_crop W H tw th =
                 Inr \<lparr> X = (W - min (word_of_int \<lfloor>c\<rfloor>) W) div 2, Y = 0,
                       Width = min (word_of_int \<lfloor>c\<rfloor>) W, Height = H \<rparr>" by blast
      note cc' = cc [unfolded rectangle_wide [OF c0 c32]]
      have err: "\<bar>c - (t + 1 / 2)\<bar> \<le> (fw + 1) / 2 ^ 22"
        by (rule wide_error [OF t0 st ps cp tw])
      then have "\<bar>c - (t + 1 / 2)\<bar> < 1" using m1(1) by linarith
      then have "\<bar>int (nat \<lfloor>c\<rfloor>) - int (round_half_up t)\<bar> \<le> 1"
        unfolding round_half_up_def by (rule nat_floor_close)
      then have close: "pixel_close
           (rectangle ((unat W - min (nat \<lfloor>c\<rfloor>) (unat W)) div 2, 0, min (nat \<lfloor>c\<rfloor>) (unat W), unat H)) (rectangle ?spec)"
        unfolding spec_wide [OF tw] by (rule pixel_close_wide)
      have same: "rectangle ((unat W - min (nat \<lfloor>c\<rfloor>) (unat W)) div 2, 0, min (nat \<lfloor>c\<rfloor>) (unat W), unat H)
          = rectangle ?spec" if a: "away_from_ties (unat W) (unat H) (unat tw) (unat th)"
      proof -
        from tie_wide [OF tw a] have "\<lfloor>c\<rfloor> = \<lfloor>t + 1 / 2\<rfloor>"
          unfolding clear_of_tie_def by (intro floor_same [OF err]) simp_all
        then show ?thesis unfolding spec_wide [OF tw] round_half_up_def by simp
      qed
      show ?thesis using cc' close same by blast
    next
      case False
      from tall [OF False] obtain q c where
        qs: "\<bar>q - s'\<bar> \<le> s' / 2 ^ 24"
        and cq: "\<bar>c - (q + 1 / 2)\<bar> \<le> (q + 1 / 2) / 2 ^ 24" and c0: "0 \<le> c" and c32: "c < 2 ^ 32"
        and cc: "center_crop W H tw th =
                 Inr \<lparr> X = 0, Y = (H - min (word_of_int \<lfloor>c\<rfloor>) H) div 2,
                       Width = W, Height = min (word_of_int \<lfloor>c\<rfloor>) H \<rparr>"
        unfolding s'_def by blast
      note cc' = cc [unfolded rectangle_tall [OF c0 c32]]
      have "fw \<le> t + 1 / 2" by (rule zone_spec_wide [OF t0 st ps tw up(1) False])
      then have "min (round_half_up t) (unat W) = unat W"
        unfolding fw_def by (rule round_half_up_min)
      then have sp: "rectangle ?spec = ?full" unfolding spec_wide [OF tw] by simp
      have pup: "p \<le> (1 + 1 / 2 ^ 24) * s" using round_lower [OF ps spos] by simp
      have "fw \<le> (1 + 1 / 2 ^ 24) * (r * fh)" using False pup by (simp add: s_def)
      then have sh: "s' \<le> (1 + 1 / 2 ^ 24) * fh"
        unfolding s'_def using rpos by (intro quotient_bound)
      have ht: "fh \<le> t'" using tw \<rho>pos by (simp add: t_def t'_def field_simps)
      have "fh \<le> c" by (rule zone_code_tall [OF st' qs cq ht sh up(2) fh0])
      then have "min (nat \<lfloor>c\<rfloor>) (unat H) = unat H"
        unfolding fh_def by (rule nat_floor_ge)
      then have cd: "center_crop W H tw th = Inr ?full" using cc' by simp
      show ?thesis using cd sp pixel_close_refl by simp
    qed
  next
    case tw: False
    show ?thesis
    proof (cases "p < fw")
      case False
      from tall [OF False] obtain q c where
        qs: "\<bar>q - s'\<bar> \<le> s' / 2 ^ 24"
        and cq: "\<bar>c - (q + 1 / 2)\<bar> \<le> (q + 1 / 2) / 2 ^ 24" and c0: "0 \<le> c" and c32: "c < 2 ^ 32"
        and cc: "center_crop W H tw th =
                 Inr \<lparr> X = 0, Y = (H - min (word_of_int \<lfloor>c\<rfloor>) H) div 2,
                       Width = W, Height = min (word_of_int \<lfloor>c\<rfloor>) H \<rparr>"
        unfolding s'_def by blast
      note cc' = cc [unfolded rectangle_tall [OF c0 c32]]
      have th: "t' \<le> fh" using tw \<rho>pos by (simp add: t_def t'_def field_simps)
      have err: "\<bar>c - (t' + 1 / 2)\<bar> \<le> (fh + 1) / 2 ^ 22"
        by (rule tall_error [OF s'0 st' qs cq th])
      then have "\<bar>c - (t' + 1 / 2)\<bar> < 1" using m1(2) by linarith
      then have "\<bar>int (nat \<lfloor>c\<rfloor>) - int (round_half_up t')\<bar> \<le> 1"
        unfolding round_half_up_def by (rule nat_floor_close)
      then have close: "pixel_close
           (rectangle (0, (unat H - min (nat \<lfloor>c\<rfloor>) (unat H)) div 2, unat W, min (nat \<lfloor>c\<rfloor>) (unat H))) (rectangle ?spec)"
        unfolding spec_tall [OF tw] by (rule pixel_close_tall)
      have same: "rectangle (0, (unat H - min (nat \<lfloor>c\<rfloor>) (unat H)) div 2, unat W, min (nat \<lfloor>c\<rfloor>) (unat H))
          = rectangle ?spec" if a: "away_from_ties (unat W) (unat H) (unat tw) (unat th)"
      proof -
        from tie_tall [OF tw a] have "\<lfloor>c\<rfloor> = \<lfloor>t' + 1 / 2\<rfloor>"
          unfolding clear_of_tie_def by (intro floor_same [OF err]) simp_all
        then show ?thesis unfolding spec_tall [OF tw] round_half_up_def by simp
      qed
      show ?thesis using cc' close same by blast
    next
      case True
      from wide [OF True] obtain c where
        cp: "\<bar>c - (p + 1 / 2)\<bar> \<le> (p + 1 / 2) / 2 ^ 24" and c0: "0 \<le> c" and c32: "c < 2 ^ 32"
        and cc: "center_crop W H tw th =
                 Inr \<lparr> X = (W - min (word_of_int \<lfloor>c\<rfloor>) W) div 2, Y = 0,
                       Width = min (word_of_int \<lfloor>c\<rfloor>) W, Height = H \<rparr>" by blast
      note cc' = cc [unfolded rectangle_wide [OF c0 c32]]
      have "(16777215 / 16777216) * (16777215 / 16777216) * t < fw"
        by (rule zone_spec_tall [OF t0 st ps True])
      then have "(16777215 / 16777216) * (16777215 / 16777216) * fh < t'"
        using \<rho>pos by (simp add: t_def t'_def field_simps)
      then have "fh \<le> t' + 1 / 2" using up(2) fh0 by (rule zone_spec_tall_side)
      then have "min (round_half_up t') (unat H) = unat H"
        unfolding fh_def by (rule round_half_up_min)
      then have sp: "rectangle ?spec = ?full" unfolding spec_tall [OF tw] by simp
      have wt: "fw \<le> t" using tw by simp
      have "fw \<le> c" by (rule zone_code_wide [OF st ps cp wt True up(1) fw0])
      then have "min (nat \<lfloor>c\<rfloor>) (unat W) = unat W"
        unfolding fw_def by (rule nat_floor_ge)
      then have cd: "center_crop W H tw th = Inr ?full" using cc' by simp
      show ?thesis using cd sp pixel_close_refl by simp
    qed
  qed
qed

text \<open>
  Above these sizes the crop can leave the stated algorithm by more than a pixel: at a
  frame of 11547488 by 16479046 and a target of 9309975 by 12485669 its height is two
  pixels more.
\<close>

lemma crop_two_pixels_off_above_the_bound:
  "center_crop 11547488 16479046 9309975 12485669
     = Inr \<lparr> X = 0, Y = 496316, Width = 11547488, Height = 15486414 \<rparr>
   \<and> rectangle (spec_center_crop 11547488 16479046 9309975 12485669)
     = \<lparr> X = 0, Y = 496317, Width = 11547488, Height = 15486412 \<rparr>
   \<and> \<not> pixel_close \<lparr> X = 0, Y = 496316, Width = 11547488, Height = 15486414 \<rparr>
                      \<lparr> X = 0, Y = 496317, Width = 11547488, Height = 15486412 \<rparr>"
  by (simp add: center_crop_def f32_eval spec_center_crop_def round_half_up_def rectangle_def
      pixel_close_def)

text \<open>
  Claim C4, as stated, at a frame of 640 by 480 and a target of 97 by 192. The stated
  algorithm scales the height by \<open>97 / 192\<close> to exactly \<open>242.5\<close> and rounds it up to a width
  of 243 at \<open>x = 198\<close>. The code computes the ratio and the product in single precision,
  arrives just below \<open>242.5\<close>, and returns a width of 242 at \<open>x = 199\<close>.
\<close>

theorem crop_differs_from_exact_algorithm:
  "center_crop 640 480 97 192 = Inr \<lparr> X = 199, Y = 0, Width = 242, Height = 480 \<rparr>
   \<and> rectangle (spec_center_crop 640 480 97 192) = \<lparr> X = 198, Y = 0, Width = 243, Height = 480 \<rparr>"
  by (simp add: center_crop_def f32_eval spec_center_crop_def round_half_up_def rectangle_def)

text \<open>
  Claim C4, amended. The crop is the stated algorithm carried out in single precision. For
  sizes below \<open>2 ^ 24\<close> and a non-zero target it returns the rectangle of the stated
  algorithm whenever the intermediates are exact. For a frame of non-zero width and height
  below \<open>2 ^ 21\<close> and a non-zero target below \<open>2 ^ 24\<close> it returns a rectangle that is pixel
  close to the rectangle of the stated algorithm, and it is that rectangle whenever the
  frame and the target are away from ties. So it is for the frame of 640 by 480 against the
  shape \<open>[1, 3, 224, 224]\<close>: \<open>x = 80\<close>, \<open>y = 0\<close>, width 480, height 480; for the frame of 1920
  by 1080 against the target 640 by 480, whose ratio single precision does not represent:
  \<open>x = 240\<close>, \<open>y = 0\<close>, width 1440, height 1080; and on the height axis for the frame of 480
  by 640 against the target 9 by 5, where \<open>480 * 5 / 9\<close> is rounded up: \<open>x = 0\<close>, \<open>y = 186\<close>,
  width 480, height 267. At the tie \<open>240.5\<close> of the frame of 640 by 481 against the target
  1 by 2 the intermediates are exact: \<open>x = 199\<close>, \<open>y = 0\<close>, width 241, height 481.
\<close>

theorem crop_follows_algorithm_up_to_rounding:
  fixes W H tw th :: u32
  shows "(tw \<noteq> 0 \<and> th \<noteq> 0
          \<and> unat W < 2 ^ 24 \<and> unat H < 2 ^ 24 \<and> unat tw < 2 ^ 24 \<and> unat th < 2 ^ 24
          \<and> intermediates_exact (unat W) (unat H) (unat tw) (unat th)
          \<longrightarrow> center_crop W H tw th
                = Inr (rectangle (spec_center_crop (unat W) (unat H) (unat tw) (unat th))))
     \<and> (W \<noteq> 0 \<and> H \<noteq> 0 \<and> tw \<noteq> 0 \<and> th \<noteq> 0
          \<and> unat W < 2 ^ 21 \<and> unat H < 2 ^ 21 \<and> unat tw < 2 ^ 24 \<and> unat th < 2 ^ 24
          \<longrightarrow> (\<exists>b. center_crop W H tw th = Inr b
                \<and> pixel_close b (rectangle (spec_center_crop (unat W) (unat H) (unat tw) (unat th)))
                \<and> (away_from_ties (unat W) (unat H) (unat tw) (unat th)
                     \<longrightarrow> b = rectangle (spec_center_crop (unat W) (unat H) (unat tw) (unat th)))))"
proof (intro conjI impI)
  assume "tw \<noteq> 0 \<and> th \<noteq> 0
          \<and> unat W < 2 ^ 24 \<and> unat H < 2 ^ 24 \<and> unat tw < 2 ^ 24 \<and> unat th < 2 ^ 24
          \<and> intermediates_exact (unat W) (unat H) (unat tw) (unat th)"
  then have nz: "tw \<noteq> 0" "th \<noteq> 0"
    and small: "unat W < 2 ^ 24" "unat H < 2 ^ 24" "unat tw < 2 ^ 24" "unat th < 2 ^ 24"
    and x: "intermediates_exact (unat W) (unat H) (unat tw) (unat th)"
    by simp_all
  show "center_crop W H tw th
          = Inr (rectangle (spec_center_crop (unat W) (unat H) (unat tw) (unat th)))"
    using x
    by (intro crop_when_exact [OF small nz])
       (simp_all add: intermediates_exact_def Let_def split: if_splits)
next
  assume "W \<noteq> 0 \<and> H \<noteq> 0 \<and> tw \<noteq> 0 \<and> th \<noteq> 0
          \<and> unat W < 2 ^ 21 \<and> unat H < 2 ^ 21 \<and> unat tw < 2 ^ 24 \<and> unat th < 2 ^ 24"
  then have nz: "W \<noteq> 0" "H \<noteq> 0" "tw \<noteq> 0" "th \<noteq> 0"
    and small: "unat W < 2 ^ 21" "unat H < 2 ^ 21" "unat tw < 2 ^ 24" "unat th < 2 ^ 24"
    by simp_all
  show "\<exists>b. center_crop W H tw th = Inr b
          \<and> pixel_close b (rectangle (spec_center_crop (unat W) (unat H) (unat tw) (unat th)))
          \<and> (away_from_ties (unat W) (unat H) (unat tw) (unat th)
               \<longrightarrow> b = rectangle (spec_center_crop (unat W) (unat H) (unat tw) (unat th)))"
    by (rule crop_near_algorithm [OF nz small])
qed

theorem crop_follows_algorithm_up_to_rounding_witness:
  "center_crop 640 480 224 224 = Inr \<lparr> X = 80, Y = 0, Width = 480, Height = 480 \<rparr>
   \<and> center_crop 1920 1080 640 480 = Inr \<lparr> X = 240, Y = 0, Width = 1440, Height = 1080 \<rparr>
   \<and> center_crop 480 640 9 5 = Inr \<lparr> X = 0, Y = 186, Width = 480, Height = 267 \<rparr>
   \<and> center_crop 640 481 1 2 = Inr \<lparr> X = 199, Y = 0, Width = 241, Height = 481 \<rparr>
   \<and> GetInputMetadata (Initialize [(640, 480)])
       \<lparr> binding_type = kInput,
         descriptor = AsTensorFeatureDescriptor
           \<lparr> tensor_Shape = [1, 3, 224, 224], tensor_TensorKind = Float \<rparr>,
         properties = None, converter = None \<rparr>
     = Inr (Some \<lparr> Bounds = [\<lparr> X = 80, Y = 0, Width = 480, Height = 480 \<rparr>],
                    TensorDescriptor = \<lparr> dataType = kImageTensorDataTypeFloat32,
                                         channelType = kImageTensorChannelTypeBGR8,
                                         sizes = [1, 3, 224, 224] \<rparr> \<rparr>)"
proof -
  have a1: "away_from_ties (unat (640 :: u32)) (unat (480 :: u32)) (unat (224 :: u32)) (unat (224 :: u32))"
    by (simp add: away_from_ties_def clear_of_tie_def floor_rat_numeral)
  have s1: "rectangle (spec_center_crop (unat (640 :: u32)) (unat (480 :: u32)) (unat (224 :: u32)) (unat (224 :: u32)))
      = \<lparr> X = 80, Y = 0, Width = 480, Height = 480 \<rparr>"
    by (simp add: spec_center_crop_def round_half_up_def rectangle_def floor_rat_numeral)
  have e1: "center_crop 640 480 224 224 = Inr \<lparr> X = 80, Y = 0, Width = 480, Height = 480 \<rparr>"
    using crop_follows_algorithm_up_to_rounding [where W = 640 and H = 480 and tw = 224 and th = 224] a1 unfolding s1 by auto
  have a2: "away_from_ties (unat (1920 :: u32)) (unat (1080 :: u32)) (unat (640 :: u32)) (unat (480 :: u32))"
    by (simp add: away_from_ties_def clear_of_tie_def floor_rat_numeral)
  have s2: "rectangle (spec_center_crop (unat (1920 :: u32)) (unat (1080 :: u32)) (unat (640 :: u32)) (unat (480 :: u32)))
      = \<lparr> X = 240, Y = 0, Width = 1440, Height = 1080 \<rparr>"
    by (simp add: spec_center_crop_def round_half_up_def rectangle_def floor_rat_numeral)
  have e2: "center_crop 1920 1080 640 480 = Inr \<lparr> X = 240, Y = 0, Width = 1440, Height = 1080 \<rparr>"
    using crop_follows_algorithm_up_to_rounding [where W = 1920 and H = 1080 and tw = 640 and th = 480] a2 unfolding s2 by auto
  have a3: "away_from_ties (unat (480 :: u32)) (unat (640 :: u32)) (unat (9 :: u32)) (unat (5 :: u32))"
    by (simp add: away_from_ties_def clear_of_tie_def floor_rat_numeral)
  have s3: "rectangle (spec_center_crop (unat (480 :: u32)) (unat (640 :: u32)) (unat (9 :: u32)) (unat (5 :: u32)))
      = \<lparr> X = 0, Y = 186, Width = 480, Height = 267 \<rparr>"
    by (simp add: spec_center_crop_def round_half_up_def rectangle_def floor_rat_numeral)
  have e3: "center_crop 480 640 9 5 = Inr \<lparr> X = 0, Y = 186, Width = 480, Height = 267 \<rparr>"
    using crop_follows_algorithm_up_to_rounding [where W = 480 and H = 640 and tw = 9 and th = 5] a3 unfolding s3 by auto
  have a4: "intermediates_exact (unat (640 :: u32)) (unat (481 :: u32)) (unat (1 :: u32)) (unat (2 :: u32))"
    by (simp add: intermediates_exact_def exact_def f32_eval)
  have s4: "rectangle (spec_center_crop (unat (640 :: u32)) (unat (481 :: u32)) (unat (1 :: u32)) (unat (2 :: u32)))
      = \<lparr> X = 199, Y = 0, Width = 241, Height = 481 \<rparr>"
    by (simp add: spec_center_crop_def round_half_up_def rectangle_def floor_rat_numeral)
  have e4: "center_crop 640 481 1 2 = Inr \<lparr> X = 199, Y = 0, Width = 241, Height = 481 \<rparr>"
    using crop_follows_algorithm_up_to_rounding [where W = 640 and H = 481 and tw = 1 and th = 2] a4 unfolding s4 by auto
  have m: "GetInputMetadata (Initialize [(640, 480)])
       \<lparr> binding_type = kInput,
         descriptor = AsTensorFeatureDescriptor
           \<lparr> tensor_Shape = [1, 3, 224, 224], tensor_TensorKind = Float \<rparr>,
         properties = None, converter = None \<rparr>
     = Inr (Some \<lparr> Bounds = [\<lparr> X = 80, Y = 0, Width = 480, Height = 480 \<rparr>],
                    TensorDescriptor = \<lparr> dataType = kImageTensorDataTypeFloat32,
                                         channelType = kImageTensorChannelTypeBGR8,
                                         sizes = [1, 3, 224, 224] \<rparr> \<rparr>)"
    by (simp add: metadata_eval Initialize_def vector_at_def e1)
  show ?thesis using e1 e2 e3 e4 m by simp
qed

section \<open>Free dimensions: when the resolution succeeds\<close>

lemma descriptor_stage_success:
  assumes acc: "accepted d"
    and w: "\<not> (free_width d \<and> disagree (m_widths v))"
    and h: "\<not> (free_height d \<and> disagree (m_heights v))"
    and ne: "free_width d \<or> free_height d \<longrightarrow> m_batchSize v \<noteq> 0"
    and len: "one_per_frame v"
  shows "\<exists>k. GetInputMetadata_descriptor v d
           = Inr (Some (if free_width d then m_widths v ! 0 else declared_width d,
                        if free_height d then m_heights v ! 0 else declared_height d, k))
         \<and> (float_kind d \<longrightarrow> k = Float \<or> k = Float16)"
proof (cases d)
  case (AsImageFeatureDescriptor i)
  with assms show ?thesis
    by (auto simp add: GetInputMetadata_descriptor_def free_width_def free_height_def
        declared_width_def declared_height_def float_kind_def adjacent_find_None_iff vector_at_def
        one_per_frame_def)
next
  case (AsTensorFeatureDescriptor t)
  with assms show ?thesis
    by (auto simp add: GetInputMetadata_descriptor_def free_width_def free_height_def accepted_def
        declared_width_def declared_height_def float_kind_def adjacent_find_None_iff vector_at_def
        one_per_frame_def Let_def)
next
  case NeitherDescriptor
  with acc show ?thesis by (simp add: accepted_def)
qed

lemma frame_bounds_success:
  assumes bk: "bounds_known v c"
    and w: "\<not> (free_width (descriptor c) \<and> disagree (m_widths v))"
    and h: "\<not> (free_height (descriptor c) \<and> disagree (m_heights v))"
    and len: "one_per_frame v"
    and i: "i < m_batchSize v"
  shows "\<exists>b. GetInputMetadata_frame_bounds v c
               (if free_width (descriptor c) then m_widths v ! 0 else declared_width (descriptor c))
               (if free_height (descriptor c) then m_heights v ! 0 else declared_height (descriptor c)) i
             = Inr b"
proof (cases "GetBoundsFromMetadata (properties c)")
  case (Inl e)
  with bk show ?thesis by (simp add: bounds_known_def)
next
  case (Inr ob)
  show ?thesis
  proof (cases ob)
    case (Some b)
    with Inr show ?thesis by (simp add: GetInputMetadata_frame_bounds_def)
  next
    case None
    have iw: "i < length (m_widths v)" and ih: "i < length (m_heights v)"
      using len i by (simp_all add: one_per_frame_def)
    show ?thesis
    proof (cases "binding_type c")
      case kOutput
      with Inr None iw ih show ?thesis
        by (simp add: GetInputMetadata_frame_bounds_def vector_at_def)
    next
      case kInput
      with bk Inr None have cr: "croppable v (descriptor c)"
        by (simp add: bounds_known_def)
      let ?dw = "if free_width (descriptor c) then m_widths v ! 0 else declared_width (descriptor c)"
      let ?dh = "if free_height (descriptor c) then m_heights v ! 0 else declared_height (descriptor c)"
      have W: "m_widths v ! i \<noteq> 0" "unat (m_widths v ! i) < 2 ^ 21"
        using cr iw by (simp_all add: croppable_def list_all_length)
      have H: "m_heights v ! i \<noteq> 0" "unat (m_heights v ! i) < 2 ^ 21"
        using cr ih by (simp_all add: croppable_def list_all_length)
      have W0: "m_widths v ! 0 \<noteq> 0" "unat (m_widths v ! 0) < 2 ^ 24"
      proof -
        have "0 < length (m_widths v)" using iw by linarith
        then have "m_widths v ! 0 \<noteq> 0 \<and> unat (m_widths v ! 0) < 2 ^ 21"
          using cr by (simp add: croppable_def list_all_length)
        then show "m_widths v ! 0 \<noteq> 0" "unat (m_widths v ! 0) < 2 ^ 24" by simp_all
      qed
      have H0: "m_heights v ! 0 \<noteq> 0" "unat (m_heights v ! 0) < 2 ^ 24"
      proof -
        have "0 < length (m_heights v)" using ih by linarith
        then have "m_heights v ! 0 \<noteq> 0 \<and> unat (m_heights v ! 0) < 2 ^ 21"
          using cr by (simp add: croppable_def list_all_length)
        then show "m_heights v ! 0 \<noteq> 0" "unat (m_heights v ! 0) < 2 ^ 24" by simp_all
      qed
      have dw: "?dw \<noteq> 0" "unat ?dw < 2 ^ 24"
        using cr W0 by (auto simp add: croppable_def)
      have dh: "?dh \<noteq> 0" "unat ?dh < 2 ^ 24"
        using cr H0 by (auto simp add: croppable_def)
      from crop_within_one_pixel [OF W(1) H(1) dw(1) dh(1) W(2) H(2) dw(2) dh(2)]
      obtain b where "center_crop (m_widths v ! i) (m_heights v ! i) ?dw ?dh = Inr b" by blast
      with Inr None kInput iw ih show ?thesis
        by (simp add: GetInputMetadata_frame_bounds_def CenterAndCropBounds_def vector_at_def)
    qed
  qed
qed

lemma bounds_success:
  assumes "\<forall>i \<in> set is. \<exists>b. GetInputMetadata_frame_bounds v c dw dh i = Inr b"
  shows "\<exists>bs. GetInputMetadata_bounds v c dw dh is = Inr bs"
  using assms by (induction "is") auto

lemma pixelFormat_success:
  assumes "format_known c" and "accepted (descriptor c)"
  shows "\<exists>f. GetInputMetadata_pixelFormat c = Inr (Some f) \<and> (f = Rgba8 \<or> f = Bgra8 \<or> f = Gray8)"
proof (cases "GetBitmapPixelFormatFromMetadata (properties c)")
  case (Inl e)
  with assms show ?thesis by (simp add: format_known_def)
next
  case (Inr ofmt)
  show ?thesis
  proof (cases ofmt)
    case (Some f)
    with Inr have "f = Rgba8 \<or> f = Bgra8 \<or> f = Gray8"
      by (auto simp add: GetBitmapPixelFormatFromMetadata_def
          split: option.splits property_value.splits if_splits)
    with Inr Some show ?thesis by (simp add: GetInputMetadata_pixelFormat_def)
  next
    case None
    show ?thesis
    proof (cases "descriptor c")
      case (AsImageFeatureDescriptor i)
      with assms Inr None show ?thesis
        by (simp add: format_known_def GetInputMetadata_pixelFormat_def)
    next
      case (AsTensorFeatureDescriptor t)
      with assms Inr None show ?thesis
        by (auto simp add: accepted_def GetInputMetadata_pixelFormat_def vector_at_def Let_def)
    next
      case NeitherDescriptor
      with assms show ?thesis by (simp add: accepted_def)
    qed
  qed
qed

lemma create_success:
  assumes "k = Float \<or> k = Float16" and "f = Rgba8 \<or> f = Bgra8 \<or> f = Gray8"
  shows "\<exists>td. CreateImageTensorDescriptor k f n w h = Inr td"
  using assms
  by (auto simp add: CreateImageTensorDescriptor_def GetTensorDataTypeFromTensorKind_def)

lemma resolution_succeeds:
  assumes acc: "accepted (descriptor c)"
    and w: "\<not> (free_width (descriptor c) \<and> disagree (m_widths v))"
    and h: "\<not> (free_height (descriptor c) \<and> disagree (m_heights v))"
    and ne: "free_width (descriptor c) \<or> free_height (descriptor c) \<longrightarrow> m_batchSize v \<noteq> 0"
    and len: "one_per_frame v"
    and fk: "float_kind (descriptor c)"
    and fmt: "format_known c"
    and bk: "bounds_known v c"
  shows "\<exists>md. GetInputMetadata v c = Inr (Some md)
           \<and> sizes (TensorDescriptor md) ! 3
               = uint (if free_width (descriptor c) then m_widths v ! 0
                       else declared_width (descriptor c))
           \<and> sizes (TensorDescriptor md) ! 2
               = uint (if free_height (descriptor c) then m_heights v ! 0
                       else declared_height (descriptor c))"
proof -
  let ?dw = "if free_width (descriptor c) then m_widths v ! 0 else declared_width (descriptor c)"
  let ?dh = "if free_height (descriptor c) then m_heights v ! 0 else declared_height (descriptor c)"
  from descriptor_stage_success [OF acc w h ne len] fk obtain k where
    d: "GetInputMetadata_descriptor v (descriptor c) = Inr (Some (?dw, ?dh, k))"
    and k: "k = Float \<or> k = Float16" by blast
  have "\<forall>i \<in> set [0 ..< m_batchSize v]. \<exists>b. GetInputMetadata_frame_bounds v c ?dw ?dh i = Inr b"
    using frame_bounds_success [OF bk w h len] by simp
  then obtain bs where b: "GetInputMetadata_bounds v c ?dw ?dh [0 ..< m_batchSize v] = Inr bs"
    using bounds_success by blast
  from pixelFormat_success [OF fmt acc] obtain f where
    p: "GetInputMetadata_pixelFormat c = Inr (Some f)" and f: "f = Rgba8 \<or> f = Bgra8 \<or> f = Gray8"
    by blast
  from create_success [OF k f] obtain td where
    t: "CreateImageTensorDescriptor k f (m_batchSize v) ?dw ?dh = Inr td" by blast
  from t have sz: "sizes td ! 3 = uint ?dw \<and> sizes td ! 2 = uint ?dh"
    by (auto simp add: CreateImageTensorDescriptor_def split: sum.splits if_splits)
  have "GetInputMetadata v c = Inr (Some \<lparr> Bounds = bs, TensorDescriptor = td \<rparr>)"
    unfolding GetInputMetadata_def d using b p t by simp
  with sz show ?thesis by simp
qed

lemma agreeing_frames_can_still_fail:
  "GetInputMetadata (Initialize [(100, 200), (100, 200), (100, 200)])
     \<lparr> binding_type = kInput,
       descriptor = AsImageFeatureDescriptor
         \<lparr> image_Width = MAXUINT32, image_Height = MAXUINT32, image_TensorKind = Float,
           image_BitmapPixelFormat = 0 \<rparr>,
       properties = None, converter = None \<rparr> = Inl (Hr E_NOTIMPL)
   \<and> GetInputMetadata (Initialize [(100, 200), (100, 200), (100, 200)])
     \<lparr> binding_type = kInput,
       descriptor = AsImageFeatureDescriptor
         \<lparr> image_Width = MAXUINT32, image_Height = MAXUINT32, image_TensorKind = Float,
           image_BitmapPixelFormat = Bgra8 \<rparr>,
       properties = Some [''BitmapBounds'' \<mapsto> Some (UInt32ArrayValue [0, 0, 100])],
       converter = None \<rparr> = Inl (Hr WINML_ERR_INVALID_BINDING)
   \<and> GetInputMetadata (Initialize [])
     \<lparr> binding_type = kInput,
       descriptor = AsImageFeatureDescriptor
         \<lparr> image_Width = MAXUINT32, image_Height = MAXUINT32, image_TensorKind = Float,
           image_BitmapPixelFormat = Bgra8 \<rparr>,
       properties = None, converter = None \<rparr> = Inl VectorOutOfRange"
  by (simp add: GetInputMetadata_def GetInputMetadata_descriptor_def
  GetInputMetadata_frame_bounds_def GetBoundsFromMetadata_def GetInputMetadata_pixelFormat_def
  GetBitmapPixelFormatFromMetadata_def CreateImageTensorDescriptor_def GetTensorDataTypeFromTensorKind_def
  CenterAndCropBounds_def Bgra8_def Rgba8_def Gray8_def Initialize_def vector_at_def crop100 upt3)

text \<open>
  Claim C2, as stated, at two inputs. With the tensor shape \<open>[1, 4, -1, -1]\<close> and frames
  100 by 200 and 150 by 200, the frames disagree on the free width and the resolution
  declines, it does not fail with \<^verbatim>\<open>E_INVALIDARG\<close>. With three frames of 100 by 200 and a
  free image descriptor of tensor kind \<^verbatim>\<open>UInt8\<close>, the frames agree and the resolution fails
  all the same, with \<^verbatim>\<open>WINML_ERR_INVALID_BINDING\<close>.
\<close>

theorem free_dimension_claim_fails:
  "disagree (m_widths (Initialize [(100, 200), (150, 200)]))
   \<and> GetInputMetadata (Initialize [(100, 200), (150, 200)])
     \<lparr> binding_type = kInput,
       descriptor = AsTensorFeatureDescriptor \<lparr> tensor_Shape = [1, 4, - 1, - 1], tensor_TensorKind = Float \<rparr>,
       properties = None, converter = None \<rparr> = Inr None
   \<and> \<not> disagree (m_widths (Initialize [(100, 200), (100, 200), (100, 200)]))
   \<and> \<not> disagree (m_heights (Initialize [(100, 200), (100, 200), (100, 200)]))
   \<and> GetInputMetadata (Initialize [(100, 200), (100, 200), (100, 200)])
     \<lparr> binding_type = kInput,
       descriptor = AsImageFeatureDescriptor
         \<lparr> image_Width = MAXUINT32, image_Height = MAXUINT32, image_TensorKind = UInt8,
           image_BitmapPixelFormat = Bgra8 \<rparr>,
       properties = None, converter = None \<rparr> = Inl (Hr WINML_ERR_INVALID_BINDING)"
  by (simp add: disagree_code GetInputMetadata_def GetInputMetadata_descriptor_def
  GetInputMetadata_frame_bounds_def GetBoundsFromMetadata_def GetInputMetadata_pixelFormat_def
  GetBitmapPixelFormatFromMetadata_def CreateImageTensorDescriptor_def GetTensorDataTypeFromTensorKind_def
  CenterAndCropBounds_def Bgra8_def Rgba8_def Gray8_def Initialize_def vector_at_def crop100 upt3)

text \<open>
  Claim C2, amended. \<^verbatim>\<open>GetInputMetadata\<close> fails with \<^verbatim>\<open>E_INVALIDARG\<close> exactly when the
  descriptor is accepted and the frames disagree on an axis it leaves free. Whenever the
  resolution succeeds, the resolved size on a free axis is the value every frame has there,
  and there is such a frame (\<open>sizes\<close> is NCHW: index 3 is the width, index 2 the height).
  And the resolution does succeed when the descriptor is accepted, the frames agree on
  every axis it leaves free, the batch is not empty if an axis is free, the feature value
  keeps one width and one height per frame, the tensor kind is a float kind, the pixel
  format is known and the bounds are known; the resolved width and height are then the
  first frame's on a free axis and the declared ones otherwise.
\<close>

theorem free_dimension_resolution:
  "(GetInputMetadata v c = Inl (Hr E_INVALIDARG) \<longleftrightarrow>
      accepted (descriptor c)
      \<and> (free_width (descriptor c) \<and> disagree (m_widths v)
          \<or> free_height (descriptor c) \<and> disagree (m_heights v)))
   \<and> (\<forall>md. GetInputMetadata v c = Inr (Some md) \<longrightarrow>
         (free_width (descriptor c) \<longrightarrow>
            m_widths v \<noteq> [] \<and> (\<forall>w \<in> set (m_widths v). sizes (TensorDescriptor md) ! 3 = uint w))
       \<and> (free_height (descriptor c) \<longrightarrow>
            m_heights v \<noteq> [] \<and> (\<forall>h \<in> set (m_heights v). sizes (TensorDescriptor md) ! 2 = uint h)))
   \<and> (accepted (descriptor c)
       \<and> \<not> (free_width (descriptor c) \<and> disagree (m_widths v))
       \<and> \<not> (free_height (descriptor c) \<and> disagree (m_heights v))
       \<and> (free_width (descriptor c) \<or> free_height (descriptor c) \<longrightarrow> m_batchSize v \<noteq> 0)
       \<and> one_per_frame v \<and> float_kind (descriptor c) \<and> format_known c \<and> bounds_known v c
       \<longrightarrow> (\<exists>md. GetInputMetadata v c = Inr (Some md)
              \<and> sizes (TensorDescriptor md) ! 3
                  = uint (if free_width (descriptor c) then m_widths v ! 0
                          else declared_width (descriptor c))
              \<and> sizes (TensorDescriptor md) ! 2
                  = uint (if free_height (descriptor c) then m_heights v ! 0
                          else declared_height (descriptor c))))"
proof (intro conjI)
  show "GetInputMetadata v c = Inl (Hr E_INVALIDARG) \<longleftrightarrow>
      accepted (descriptor c)
      \<and> (free_width (descriptor c) \<and> disagree (m_widths v)
          \<or> free_height (descriptor c) \<and> disagree (m_heights v))"
    by (simp only: GetInputMetadata_invalid_arg descriptor_stage_invalid_arg)
next
  show "\<forall>md. GetInputMetadata v c = Inr (Some md) \<longrightarrow>
         (free_width (descriptor c) \<longrightarrow>
            m_widths v \<noteq> [] \<and> (\<forall>w \<in> set (m_widths v). sizes (TensorDescriptor md) ! 3 = uint w))
       \<and> (free_height (descriptor c) \<longrightarrow>
            m_heights v \<noteq> [] \<and> (\<forall>h \<in> set (m_heights v). sizes (TensorDescriptor md) ! 2 = uint h))"
  proof (intro allI impI)
    fix md assume a: "GetInputMetadata v c = Inr (Some md)"
    show "(free_width (descriptor c) \<longrightarrow>
            m_widths v \<noteq> [] \<and> (\<forall>w \<in> set (m_widths v). sizes (TensorDescriptor md) ! 3 = uint w))
       \<and> (free_height (descriptor c) \<longrightarrow>
            m_heights v \<noteq> [] \<and> (\<forall>h \<in> set (m_heights v). sizes (TensorDescriptor md) ! 2 = uint h))"
      by (rule free_axes_resolved [OF a])
  qed
next
  show "accepted (descriptor c)
       \<and> \<not> (free_width (descriptor c) \<and> disagree (m_widths v))
       \<and> \<not> (free_height (descriptor c) \<and> disagree (m_heights v))
       \<and> (free_width (descriptor c) \<or> free_height (descriptor c) \<longrightarrow> m_batchSize v \<noteq> 0)
       \<and> one_per_frame v \<and> float_kind (descriptor c) \<and> format_known c \<and> bounds_known v c
       \<longrightarrow> (\<exists>md. GetInputMetadata v c = Inr (Some md)
              \<and> sizes (TensorDescriptor md) ! 3
                  = uint (if free_width (descriptor c) then m_widths v ! 0
                          else declared_width (descriptor c))
              \<and> sizes (TensorDescriptor md) ! 2
                  = uint (if free_height (descriptor c) then m_heights v ! 0
                          else declared_height (descriptor c)))"
  proof (intro impI, elim conjE)
    assume "accepted (descriptor c)"
      and "\<not> (free_width (descriptor c) \<and> disagree (m_widths v))"
      and "\<not> (free_height (descriptor c) \<and> disagree (m_heights v))"
      and "free_width (descriptor c) \<or> free_height (descriptor c) \<longrightarrow> m_batchSize v \<noteq> 0"
      and "one_per_frame v" and "float_kind (descriptor c)" and "format_known c"
      and "bounds_known v c"
    then show "\<exists>md. GetInputMetadata v c = Inr (Some md)
              \<and> sizes (TensorDescriptor md) ! 3
                  = uint (if free_width (descriptor c) then m_widths v ! 0
                          else declared_width (descriptor c))
              \<and> sizes (TensorDescriptor md) ! 2
                  = uint (if free_height (descriptor c) then m_heights v ! 0
                          else declared_height (descriptor c))"
      by (rule resolution_succeeds)
  qed
qed

theorem free_dimension_resolution_witness:
  "GetInputMetadata (Initialize [(100, 200), (150, 200)])
     \<lparr> binding_type = kInput,
       descriptor = AsImageFeatureDescriptor
         \<lparr> image_Width = MAXUINT32, image_Height = MAXUINT32, image_TensorKind = Float,
           image_BitmapPixelFormat = Bgra8 \<rparr>,
       properties = None, converter = None \<rparr> = Inl (Hr E_INVALIDARG)
   \<and> (\<exists>md. GetInputMetadata (Initialize [(100, 200), (100, 200), (100, 200)])
        \<lparr> binding_type = kInput,
          descriptor = AsImageFeatureDescriptor
            \<lparr> image_Width = MAXUINT32, image_Height = MAXUINT32, image_TensorKind = Float,
              image_BitmapPixelFormat = Bgra8 \<rparr>,
          properties = None, converter = None \<rparr> = Inr (Some md)
        \<and> sizes (TensorDescriptor md) ! 3 = 100 \<and> sizes (TensorDescriptor md) ! 2 = 200)
   \<and> GetInputMetadata (Initialize [(100, 200), (100, 200), (100, 200)])
        \<lparr> binding_type = kInput,
          descriptor = AsImageFeatureDescriptor
            \<lparr> image_Width = MAXUINT32, image_Height = MAXUINT32, image_TensorKind = Float,
              image_BitmapPixelFormat = Bgra8 \<rparr>,
          properties = None, converter = None \<rparr>
      = Inr (Some \<lparr> Bounds = [\<lparr> X = 0, Y = 0, Width = 100, Height = 200 \<rparr>,
                            \<lparr> X = 0, Y = 0, Width = 100, Height = 200 \<rparr>,
                            \<lparr> X = 0, Y = 0, Width = 100, Height = 200 \<rparr>],
                  TensorDescriptor = \<lparr> dataType = kImageTensorDataTypeFloat32,
                                       channelType = kImageTensorChannelTypeBGR8,
                                       sizes = [3, 3, 200, 100] \<rparr> \<rparr>)"
proof -
  let ?c = "\<lparr> binding_type = kInput,
       descriptor = AsImageFeatureDescriptor
         \<lparr> image_Width = MAXUINT32, image_Height = MAXUINT32, image_TensorKind = Float,
           image_BitmapPixelFormat = Bgra8 \<rparr>,
       properties = None, converter = None \<rparr>"
  let ?v = "Initialize [(100, 200), (100, 200), (100, 200)]"
  have 1: "GetInputMetadata (Initialize [(100, 200), (150, 200)]) ?c = Inl (Hr E_INVALIDARG)"
    using free_dimension_resolution [of "Initialize [(100, 200), (150, 200)]" ?c]
    by (simp add: accepted_def free_width_def disagree_code Initialize_def)
  note t = free_dimension_resolution [of ?v ?c]
  have hyp: "accepted (descriptor ?c)
       \<and> \<not> (free_width (descriptor ?c) \<and> disagree (m_widths ?v))
       \<and> \<not> (free_height (descriptor ?c) \<and> disagree (m_heights ?v))
       \<and> (free_width (descriptor ?c) \<or> free_height (descriptor ?c) \<longrightarrow> m_batchSize ?v \<noteq> 0)
       \<and> one_per_frame ?v \<and> float_kind (descriptor ?c) \<and> format_known ?c \<and> bounds_known ?v ?c"
    by (simp add: accepted_def disagree_code Initialize_def one_per_frame_def float_kind_def
        format_known_def bounds_known_def croppable_def GetBitmapPixelFormatFromMetadata_def
        GetBoundsFromMetadata_def free_width_def free_height_def Bgra8_def Rgba8_def Gray8_def)
  from t [THEN conjunct2, THEN conjunct2] hyp
  obtain md where md: "GetInputMetadata ?v ?c = Inr (Some md)" by blast
  from t [THEN conjunct2, THEN conjunct1] md
  have "sizes (TensorDescriptor md) ! 3 = 100 \<and> sizes (TensorDescriptor md) ! 2 = 200"
    by (simp add: free_width_def free_height_def Initialize_def)
  with md have 2: "\<exists>md. GetInputMetadata ?v ?c = Inr (Some md)
        \<and> sizes (TensorDescriptor md) ! 3 = 100 \<and> sizes (TensorDescriptor md) ! 2 = 200"
    by blast
  show ?thesis using 1 2 md100 by simp
qed

end
